theory Spec2Isabelle
  imports Complex_Main "HOL-Library.AList" "HOL-Library.Sublist"
begin

section \<open>Python values\<close>

text \<open>
  The pipeline passes JSON-shaped Python values around: the parsed replies of the language
  model, the sub-tasks, the sub-task results, the synthesis and the reports are all
  dictionaries and lists of Python's \<^verbatim>\<open>json\<close> module. A dictionary keeps its insertion
  order, so it is an association list; its keys are strings. A JSON number is an
  unbounded integer or a float; a float is a rational or one of the three constants the
  decoder accepts. A string is a list of characters; where Python takes a string apart
  (iterating over it, taking a slice), one character of the model stands for one
  character of the Python string.
\<close>

datatype pyfloat = Finite rat | PosInf | NegInf | NaN

datatype json =
    JNull
  | JBool bool
  | JInt int
  | JFloat pyfloat
  | JStr string
  | JList "json list"
  | JObj "(string \<times> json) list"

type_synonym dict = "(string \<times> json) list"

text \<open>
  Exceptions are values. The message of a built-in exception is carried along but its
  text is only indicative: no property below depends on it.
\<close>

datatype error =
    TypeError string
  | AttributeError string
  | KeyError string
  | IndexError string
  | UnboundLocalError string
  | ProviderError string

fun str_error :: "error \<Rightarrow> string" where
  "str_error (TypeError m) = m"
| "str_error (AttributeError m) = m"
| "str_error (KeyError m) = m"
| "str_error (IndexError m) = m"
| "str_error (UnboundLocalError m) = m"
| "str_error (ProviderError m) = m"

text \<open>Truth value testing (\<^verbatim>\<open>if x\<close>, \<^verbatim>\<open>not x\<close>).\<close>

fun truthy :: "json \<Rightarrow> bool" where
  "truthy JNull = False"
| "truthy (JBool b) = b"
| "truthy (JInt i) = (i \<noteq> 0)"
| "truthy (JFloat f) = (f \<noteq> Finite 0)"
| "truthy (JStr s) = (s \<noteq> [])"
| "truthy (JList xs) = (xs \<noteq> [])"
| "truthy (JObj kvs) = (kvs \<noteq> [])"

text \<open>\<^verbatim>\<open>d.get(k, default)\<close> and \<^verbatim>\<open>k in d\<close> on a dictionary.\<close>

definition dict_get :: "dict \<Rightarrow> string \<Rightarrow> json \<Rightarrow> json" where
  "dict_get d k dflt = (case map_of d k of Some v \<Rightarrow> v | None \<Rightarrow> dflt)"

definition dict_has :: "dict \<Rightarrow> string \<Rightarrow> bool" where
  "dict_has d k = (map_of d k \<noteq> None)"

text \<open>
  The same operations on a value whose type is only known at run time: \<^verbatim>\<open>x.get\<close> exists
  on dictionaries only, \<^verbatim>\<open>x[k] = v\<close> with a string key works on dictionaries only.
\<close>

fun py_get :: "json \<Rightarrow> string \<Rightarrow> json \<Rightarrow> error + json" where
  "py_get (JObj d) k dflt = Inr (dict_get d k dflt)"
| "py_get _ k dflt = Inl (AttributeError ''object has no attribute get'')"

fun py_setitem :: "json \<Rightarrow> string \<Rightarrow> json \<Rightarrow> error + json" where
  "py_setitem (JObj d) k v = Inr (JObj (AList.update k v d))"
| "py_setitem _ k v = Inl (TypeError ''object does not support item assignment with a str key'')"

text \<open>Sequencing of steps that may raise: the first exception ends the computation.\<close>

fun and_then :: "'e + 'a \<Rightarrow> ('a \<Rightarrow> 'e + 'b) \<Rightarrow> 'e + 'b" where
  "and_then (Inl e) f = Inl e"
| "and_then (Inr x) f = f x"

text \<open>
  Iteration (\<^verbatim>\<open>for x in v\<close>): a list gives its elements, a dictionary its keys, a string
  its characters; nothing else is iterable.
\<close>

fun py_iter :: "json \<Rightarrow> error + json list" where
  "py_iter (JList xs) = Inr xs"
| "py_iter (JObj d) = Inr (map (\<lambda>kv. JStr (fst kv)) d)"
| "py_iter (JStr s) = Inr (map (\<lambda>c. JStr [c]) s)"
| "py_iter _ = Inl (TypeError ''object is not iterable'')"

text \<open>\<^verbatim>\<open>k in v\<close> for a string \<open>k\<close>: key of a dictionary, element of a list, substring of a string.\<close>

fun py_contains_str :: "string \<Rightarrow> json \<Rightarrow> error + bool" where
  "py_contains_str k (JObj d) = Inr (dict_has d k)"
| "py_contains_str k (JList xs) = Inr (JStr k \<in> set xs)"
| "py_contains_str k (JStr s) = Inr (sublist k s)"
| "py_contains_str k _ = Inl (TypeError ''argument is not iterable'')"

text \<open>\<^verbatim>\<open>v[k]\<close> for a string \<open>k\<close>.\<close>

fun py_getitem_str :: "json \<Rightarrow> string \<Rightarrow> error + json" where
  "py_getitem_str (JObj d) k = (case map_of d k of Some v \<Rightarrow> Inr v | None \<Rightarrow> Inl (KeyError k))"
| "py_getitem_str (JList xs) k = Inl (TypeError ''list indices must be integers or slices, not str'')"
| "py_getitem_str (JStr s) k = Inl (TypeError ''string indices must be integers, not str'')"
| "py_getitem_str _ k = Inl (TypeError ''object is not subscriptable'')"

text \<open>
  \<^verbatim>\<open>v[:n]\<close>: the first \<open>n\<close> elements, all but the last \<open>-n\<close> when \<open>n\<close> is negative. Lists and
  strings can be sliced.
\<close>

definition slice_to :: "'a list \<Rightarrow> int \<Rightarrow> 'a list" where
  "slice_to xs n = (if 0 \<le> n then take (nat n) xs else take (length xs - nat (- n)) xs)"

fun py_slice_to :: "json \<Rightarrow> int \<Rightarrow> error + json" where
  "py_slice_to (JList xs) n = Inr (JList (slice_to xs n))"
| "py_slice_to (JStr s) n = Inr (JStr (slice_to s n))"
| "py_slice_to (JObj d) n = Inl (TypeError ''unhashable type: slice'')"
| "py_slice_to _ n = Inl (TypeError ''object is not subscriptable'')"

text \<open>\<^verbatim>\<open>len(v)\<close>.\<close>

fun py_len :: "json \<Rightarrow> error + nat" where
  "py_len (JList xs) = Inr (length xs)"
| "py_len (JStr s) = Inr (length s)"
| "py_len (JObj d) = Inr (length d)"
| "py_len _ = Inl (TypeError ''object has no len()'')"

text \<open>
  Hashing and equality, as a set of seen values uses them: numbers are equal by value
  whatever their type (\<^verbatim>\<open>1 == True == 1.0\<close>), the decoder's \<^verbatim>\<open>NaN\<close> is one object and is
  found again by identity, lists and dictionaries cannot be hashed. Two hashable values
  are the same member of a set exactly when their keys are equal.
\<close>

datatype hkey = KNone | KNum rat | KInf bool | KNaN | KStr string

fun py_hash_key :: "json \<Rightarrow> hkey option" where
  "py_hash_key JNull = Some KNone"
| "py_hash_key (JBool b) = Some (KNum (if b then 1 else 0))"
| "py_hash_key (JInt i) = Some (KNum (of_int i))"
| "py_hash_key (JFloat (Finite r)) = Some (KNum r)"
| "py_hash_key (JFloat PosInf) = Some (KInf True)"
| "py_hash_key (JFloat NegInf) = Some (KInf False)"
| "py_hash_key (JFloat NaN) = Some KNaN"
| "py_hash_key (JStr s) = Some (KStr s)"
| "py_hash_key (JList xs) = None"
| "py_hash_key (JObj d) = None"

text \<open>
  Ordering against an integer (\<^verbatim>\<open>0 <= v < n\<close>): defined on numbers, a boolean counting as
  0 or 1; every comparison with \<^verbatim>\<open>NaN\<close> is false; any other type raises.
\<close>

fun py_number :: "json \<Rightarrow> pyfloat option" where
  "py_number (JInt i) = Some (Finite (of_int i))"
| "py_number (JBool b) = Some (Finite (if b then 1 else 0))"
| "py_number (JFloat f) = Some f"
| "py_number _ = None"

fun int_le_float :: "int \<Rightarrow> pyfloat \<Rightarrow> bool" where
  "int_le_float a (Finite r) = (of_int a \<le> r)"
| "int_le_float a PosInf = True"
| "int_le_float a NegInf = False"
| "int_le_float a NaN = False"

fun float_lt_int :: "pyfloat \<Rightarrow> int \<Rightarrow> bool" where
  "float_lt_int (Finite r) b = (r < of_int b)"
| "float_lt_int PosInf b = False"
| "float_lt_int NegInf b = True"
| "float_lt_int NaN b = False"

definition py_in_range :: "int \<Rightarrow> json \<Rightarrow> int \<Rightarrow> error + bool" where
  "py_in_range a v b =
     (case py_number v of
        None \<Rightarrow> Inl (TypeError ''<= not supported between instances of int and this type'')
      | Some f \<Rightarrow> Inr (int_le_float a f \<and> float_lt_int f b))"

text \<open>
  \<^verbatim>\<open>xs[v]\<close> on a list: the index must be an integer (a boolean is one); a negative index
  counts from the end.
\<close>

fun py_index_val :: "json \<Rightarrow> int option" where
  "py_index_val (JInt i) = Some i"
| "py_index_val (JBool b) = Some (if b then 1 else 0)"
| "py_index_val _ = None"

definition list_index :: "'a list \<Rightarrow> json \<Rightarrow> error + 'a" where
  "list_index xs v =
     (case py_index_val v of
        None \<Rightarrow> Inl (TypeError ''list indices must be integers or slices'')
      | Some i \<Rightarrow>
          if 0 \<le> i \<and> i < int (length xs) then Inr (xs ! nat i)
          else if i < 0 \<and> - int (length xs) \<le> i then Inr (xs ! nat (int (length xs) + i))
          else Inl (IndexError ''list index out of range''))"

text \<open>\<^verbatim>\<open>sep.join(v)\<close>: every item of the iterable must be a string.\<close>

fun join_strs :: "string \<Rightarrow> json list \<Rightarrow> error + string" where
  "join_strs sep [] = Inr []"
| "join_strs sep [JStr s] = Inr s"
| "join_strs sep (JStr s # x # xs) = and_then (join_strs sep (x # xs)) (\<lambda>r. Inr (s @ sep @ r))"
| "join_strs sep (_ # xs) = Inl (TypeError ''sequence item: expected str instance'')"

definition py_join :: "string \<Rightarrow> json \<Rightarrow> error + string" where
  "py_join sep v = and_then (py_iter v) (join_strs sep)"

text \<open>Decimal digits of an integer, as \<^verbatim>\<open>str\<close> and an f-string print it.\<close>

fun str_nat :: "nat \<Rightarrow> string" where
  "str_nat n =
     (if n < 10 then [char_of (48 + n)]
      else str_nat (n div 10) @ [char_of (48 + n mod 10)])"

declare str_nat.simps [simp del]

definition str_int :: "int \<Rightarrow> string" where
  "str_int i = (if i < 0 then CHR ''-'' # str_nat (nat (- i)) else str_nat (nat i))"

text \<open>
  What the code takes from Python's standard library: the JSON decoder (\<open>None\<close> when it
  raises \<^verbatim>\<open>JSONDecodeError\<close>), the text \<^verbatim>\<open>str\<close> gives for a value that is not a string,
  and the host component \<^verbatim>\<open>urlparse(url).netloc\<close> (\<open>None\<close> when it raises).
\<close>

record lib =
  json_loads :: "string \<Rightarrow> json option"
  py_repr :: "json \<Rightarrow> string"
  urlparse_netloc :: "json \<Rightarrow> json option"

fun py_str :: "lib \<Rightarrow> json \<Rightarrow> string" where
  "py_str L (JStr s) = s"
| "py_str L v = py_repr L v"

section \<open>Configuration (config.py)\<close>

record settings =
  max_search_results :: int
  max_iterations :: int
  max_subagents :: int

definition default_settings :: settings where
  "default_settings = \<lparr>max_search_results = 10, max_iterations = 3, max_subagents = 4\<rparr>"

section \<open>Lead researcher (agents/lead\_researcher.py)\<close>

text \<open>
  Every method builds a prompt, awaits \<^verbatim>\<open>self.think(prompt)\<close> and decodes the reply. The
  language model is an external collaborator that returns text; the reply is the argument
  \<open>response\<close> of the model, and nothing is assumed about it.
\<close>

definition needs_more_research :: "lib \<Rightarrow> string \<Rightarrow> dict \<Rightarrow> int \<Rightarrow> error + dict" where
  "needs_more_research L response synthesis iteration =
     (case json_loads L response of
        Some (JObj decision) \<Rightarrow> Inr (AList.update ''current_iteration'' (JInt iteration) decision)
      | Some _ \<Rightarrow> Inl (TypeError ''object does not support item assignment with a str key'')
      | None \<Rightarrow>
          Inr [(''needs_more_research'', JBool (iteration < 3)),
               (''reasoning'', JStr (''Default decision based on iteration '' @ str_int iteration)),
               (''specific_gaps'', JList []),
               (''refined_queries'', JList []),
               (''priority'', JStr ''medium''),
               (''current_iteration'', JInt iteration),
               (''raw_response'', JStr response)])"

text \<open>
  \<open>decompose_tasks\<close>. The plan and the context only enter the prompt. The loop over the
  decoded reply gives every item without an \<open>id\<close> the id \<^verbatim>\<open>task_\<close> followed by its
  position, counted from 1; the items are
  changed in place, so a decoded list is returned with its items updated. An item that is
  not a dictionary raises when it is assigned to; a reply that is not a list is iterated
  as Python iterates it (the keys of a dictionary, the characters of a string) and is
  returned as it is when no assignment was needed.
\<close>

fun assign_ids :: "nat \<Rightarrow> json list \<Rightarrow> error + json list" where
  "assign_ids i [] = Inr []"
| "assign_ids i (task # rest) =
     and_then (py_contains_str ''id'' task) (\<lambda>has_id.
     and_then (if \<not> has_id then py_setitem task ''id'' (JStr (''task_'' @ str_nat (i + 1)))
               else Inr task) (\<lambda>task'.
     and_then (assign_ids (i + 1) rest) (\<lambda>rest'. Inr (task' # rest'))))"

definition fallback_tasks :: "lib \<Rightarrow> json \<Rightarrow> json list" where
  "fallback_tasks L query =
     [JObj [(''id'', JStr ''task_1''),
            (''title'', JStr ''General Information Search''),
            (''description'', JStr (''Search for general information about '' @ py_str L query)),
            (''focus_area'', JStr ''Overview and basics''),
            (''search_queries'', JList [query, JStr (''what is '' @ py_str L query)]),
            (''expected_output'', JStr ''Comprehensive overview of the topic'')],
      JObj [(''id'', JStr ''task_2''),
            (''title'', JStr ''Current Trends and Developments''),
            (''description'',
               JStr (''Find current trends and recent developments related to '' @ py_str L query)),
            (''focus_area'', JStr ''Recent developments''),
            (''search_queries'',
               JList [JStr (py_str L query @ '' 2024''), JStr (py_str L query @ '' trends''),
                      JStr (py_str L query @ '' latest'')]),
            (''expected_output'', JStr ''Current state and trends'')]]"

definition decompose_tasks :: "lib \<Rightarrow> string \<Rightarrow> json \<Rightarrow> error + json" where
  "decompose_tasks L response query =
     (case json_loads L response of
        Some (JList tasks) \<Rightarrow> and_then (assign_ids 0 tasks) (\<lambda>tasks'. Inr (JList tasks'))
      | Some tasks \<Rightarrow>
          and_then (py_iter tasks) (\<lambda>items.
          and_then (assign_ids 0 items) (\<lambda>_. Inr tasks))
      | None \<Rightarrow> Inr (JList (fallback_tasks L query)))"

text \<open>
  \<open>synthesize_results\<close>. The results only enter the prompt; \<open>now\<close> is the reading of the
  clock.
\<close>

definition synthesize_results ::
    "lib \<Rightarrow> string \<Rightarrow> string \<Rightarrow> json \<Rightarrow> dict list \<Rightarrow> error + dict" where
  "synthesize_results L response now query results =
     (case json_loads L response of
        Some (JObj synthesis) \<Rightarrow>
          Inr (AList.update ''synthesis_timestamp'' (JStr now) (AList.update ''query'' query synthesis))
      | Some _ \<Rightarrow> Inl (TypeError ''object does not support item assignment with a str key'')
      | None \<Rightarrow>
          Inr [(''query'', query),
               (''executive_summary'', JStr (''Research completed on '' @ py_str L query)),
               (''key_findings'', JList [JStr ''Research findings compiled from multiple sources'']),
               (''detailed_analysis'', JStr response),
               (''sources'', JList []),
               (''gaps_identified'', JList []),
               (''recommendations'', JList []),
               (''confidence_level'', JStr ''medium''),
               (''completeness_score'', JInt 70),
               (''synthesis_timestamp'', JStr now),
               (''raw_response'', JStr response)])"

section \<open>Citation agent (agents/citation\_agent.py)\<close>

text \<open>
  Method names lose their leading underscore. \<open>extract_domain\<close> returns the host
  component of the url, and the url itself when \<^verbatim>\<open>urlparse\<close> raises.
\<close>

definition extract_domain :: "lib \<Rightarrow> json \<Rightarrow> json" where
  "extract_domain L url = (case urlparse_netloc L url of Some d \<Rightarrow> d | None \<Rightarrow> url)"

definition mk_source :: "json \<Rightarrow> json \<Rightarrow> json \<Rightarrow> json \<Rightarrow> dict" where
  "mk_source u t d c = [(''url'', u), (''title'', t), (''domain'', d), (''context'', c)]"

text \<open>
  \<open>extract_sources\<close> carries two locals through its loops: the list \<open>sources\<close> and the
  set \<open>seen_urls\<close>. The inner loop over \<^verbatim>\<open>result["search_results"]\<close> skips an entry whose
  url is falsy or already seen; testing membership hashes the url.
\<close>

type_synonym extraction = "dict list \<times> hkey set"

fun scan_search_results :: "lib \<Rightarrow> json list \<Rightarrow> extraction \<Rightarrow> error + extraction" where
  "scan_search_results L [] st = Inr st"
| "scan_search_results L (JObj search_result # rest) (sources, seen_urls) =
     (let url = dict_get search_result ''source'' (JStr []) in
      if truthy url then
        (case py_hash_key url of
           None \<Rightarrow> Inl (TypeError ''unhashable type'')
         | Some k \<Rightarrow>
             if k \<notin> seen_urls then
               scan_search_results L rest
                 (sources @
                    [mk_source url
                       (dict_get search_result ''title'' (JStr []))
                       (extract_domain L url)
                       (dict_get search_result ''snippet'' (JStr []))],
                  insert k seen_urls)
             else scan_search_results L rest (sources, seen_urls))
      else scan_search_results L rest (sources, seen_urls))"
| "scan_search_results L (_ # rest) st = Inl (AttributeError ''object has no attribute get'')"

text \<open>
  The inner loop over \<^verbatim>\<open>result["evaluation"]["credible_sources"]\<close> has no truthiness test;
  \<open>agent_title\<close> is the text \<^verbatim>\<open>f"Source from {result.get('agent', 'unknown')}"\<close>.
\<close>

fun scan_credible_sources :: "lib \<Rightarrow> json \<Rightarrow> json list \<Rightarrow> extraction \<Rightarrow> error + extraction" where
  "scan_credible_sources L agent_title [] st = Inr st"
| "scan_credible_sources L agent_title (source # rest) (sources, seen_urls) =
     (case py_hash_key source of
        None \<Rightarrow> Inl (TypeError ''unhashable type'')
      | Some k \<Rightarrow>
          if k \<notin> seen_urls then
            scan_credible_sources L agent_title rest
              (sources @
                 [mk_source source agent_title (extract_domain L source)
                    (JStr ''Credible source identified by subagent'')],
               insert k seen_urls)
          else scan_credible_sources L agent_title rest (sources, seen_urls))"

text \<open>The body of the outer loop, for one sub-task result.\<close>

definition extract_result :: "lib \<Rightarrow> dict \<Rightarrow> extraction \<Rightarrow> error + extraction" where
  "extract_result L result st =
     and_then
       (if dict_has result ''search_results'' then
          and_then (py_iter (dict_get result ''search_results'' JNull))
            (\<lambda>search_results. scan_search_results L search_results st)
        else Inr st)
       (\<lambda>st1.
          if dict_has result ''evaluation'' then
            and_then (py_contains_str ''credible_sources'' (dict_get result ''evaluation'' JNull))
              (\<lambda>has_credible.
                 if has_credible then
                   and_then (py_getitem_str (dict_get result ''evaluation'' JNull) ''credible_sources'')
                     (\<lambda>credible. and_then (py_iter credible)
                        (\<lambda>credible_sources.
                           scan_credible_sources L
                             (JStr (''Source from '' @ py_str L (dict_get result ''agent'' (JStr ''unknown''))))
                             credible_sources st1))
                 else Inr st1)
          else Inr st1)"

fun extract_loop :: "lib \<Rightarrow> dict list \<Rightarrow> extraction \<Rightarrow> error + extraction" where
  "extract_loop L [] st = Inr st"
| "extract_loop L (result # rest) st = and_then (extract_result L result st) (extract_loop L rest)"

definition extract_sources :: "lib \<Rightarrow> dict list \<Rightarrow> error + dict list" where
  "extract_sources L subagent_results =
     and_then (extract_loop L subagent_results ([], {})) (\<lambda>st. Inr (fst st))"

text \<open>
  \<open>process_section_for_citations\<close>. Building the prompt reads \<^verbatim>\<open>source['title']\<close>,
  \<^verbatim>\<open>source['url']\<close> and \<^verbatim>\<open>source['context'][:200]\<close> of every source; the text of the prompt
  is not modelled, whether building it raises is.
\<close>

definition source_line :: "dict \<Rightarrow> error + unit" where
  "source_line source =
     and_then (py_getitem_str (JObj source) ''title'') (\<lambda>_.
     and_then (py_getitem_str (JObj source) ''url'') (\<lambda>_.
     and_then (py_getitem_str (JObj source) ''context'') (\<lambda>context.
     and_then (py_slice_to context 200) (\<lambda>_. Inr ()))))"

fun sources_text :: "dict list \<Rightarrow> error + unit" where
  "sources_text [] = Inr ()"
| "sources_text (source # rest) = and_then (source_line source) (\<lambda>_. sources_text rest)"

text \<open>
  The validation loop: a citation whose index is not in \<open>[0, len(sources))\<close> is skipped,
  the others get \<open>source_url\<close> and \<open>source_title\<close> from the source at the index and are
  appended to \<open>validated_citations\<close>.
\<close>

fun validate_citations :: "dict list \<Rightarrow> json list \<Rightarrow> error + json list" where
  "validate_citations sources [] = Inr []"
| "validate_citations sources (JObj citation # rest) =
     (let source_index = dict_get citation ''source_index'' (JInt 0) in
      and_then (py_in_range 0 source_index (int (length sources))) (\<lambda>ok.
        if ok then
          and_then (list_index sources source_index) (\<lambda>source.
          and_then (py_getitem_str (JObj source) ''url'') (\<lambda>url.
          and_then (py_getitem_str (JObj source) ''title'') (\<lambda>title.
          and_then (validate_citations sources rest) (\<lambda>validated.
            Inr (JObj (AList.update ''source_title'' title
                        (AList.update ''source_url'' url citation)) # validated)))))
        else validate_citations sources rest))"
| "validate_citations sources (_ # rest) = Inl (AttributeError ''object has no attribute get'')"

definition section_result :: "json \<Rightarrow> json list \<Rightarrow> dict" where
  "section_result cited_content citations =
     [(''cited_content'', cited_content), (''citations'', JList citations)]"

definition process_section_for_citations ::
    "lib \<Rightarrow> string \<Rightarrow> json \<Rightarrow> dict list \<Rightarrow> error + dict" where
  "process_section_for_citations L response content sources =
     (if \<not> truthy content \<or> sources = [] then Inr (section_result content [])
      else
        and_then (sources_text sources) (\<lambda>_.
          case json_loads L response of
            None \<Rightarrow> Inr (section_result content [])
          | Some result \<Rightarrow>
              and_then (py_get result ''citations'' (JList [])) (\<lambda>citations.
              and_then (py_iter citations) (\<lambda>returned.
              and_then (validate_citations sources returned) (\<lambda>validated_citations.
              and_then (py_get result ''cited_content'' content) (\<lambda>cited_content.
                Inr (section_result cited_content validated_citations)))))))"

text \<open>
  \<open>add_citations\<close>. The sections are collected first (joining \<open>key_findings\<close> may raise),
  then processed in order; \<open>reply\<close> gives the text the language model returns for a
  section. The cited report is a copy of the synthesis with the sections replaced.
\<close>

definition content_sections :: "dict \<Rightarrow> error + (string \<times> json) list" where
  "content_sections synthesis =
     (let s1 = (if dict_has synthesis ''executive_summary''
                then [(''executive_summary'', dict_get synthesis ''executive_summary'' JNull)] else []);
          s2 = (if dict_has synthesis ''detailed_analysis''
                then [(''detailed_analysis'', dict_get synthesis ''detailed_analysis'' JNull)] else [])
      in if dict_has synthesis ''key_findings''
         then and_then (py_join [CHR 0x0A] (dict_get synthesis ''key_findings'' JNull))
                (\<lambda>joined. Inr (s1 @ s2 @ [(''key_findings'', JStr joined)]))
         else Inr (s1 @ s2))"

fun cite_sections ::
    "lib \<Rightarrow> (string \<Rightarrow> string) \<Rightarrow> dict list \<Rightarrow> (string \<times> json) list \<Rightarrow> dict \<times> json list
       \<Rightarrow> error + dict \<times> json list" where
  "cite_sections L reply sources [] acc = Inr acc"
| "cite_sections L reply sources ((section_name, content) # rest) (cited_sections, all_citations) =
     and_then (process_section_for_citations L (reply section_name) content sources)
       (\<lambda>section_citations.
          and_then (py_iter (dict_get section_citations ''citations'' JNull)) (\<lambda>citations.
            cite_sections L reply sources rest
              (AList.update section_name (dict_get section_citations ''cited_content'' JNull) cited_sections,
               all_citations @ citations)))"

definition add_citations ::
    "lib \<Rightarrow> (string \<Rightarrow> string) \<Rightarrow> dict \<Rightarrow> dict list \<Rightarrow> error + dict" where
  "add_citations L reply synthesis sources =
     and_then (content_sections synthesis) (\<lambda>sections.
     and_then (cite_sections L reply sources sections ([], [])) (\<lambda>(cited_sections, all_citations).
       Inr (AList.update ''citation_metadata''
              (JObj [(''total_citations'', JInt (int (length all_citations))),
                     (''sources_used'', JInt (int (length sources))),
                     (''citation_style'', JStr ''markdown'')])
           (AList.update ''citations'' (JList all_citations)
              (fold (\<lambda>(section_name, cited_content). AList.update section_name cited_content)
                 cited_sections synthesis)))))"

text \<open>\<open>process_report\<close>; \<open>now\<close> is the reading of the clock for the timestamp.\<close>

definition process_report ::
    "lib \<Rightarrow> (string \<Rightarrow> string) \<Rightarrow> string \<Rightarrow> dict \<Rightarrow> dict list \<Rightarrow> error + dict" where
  "process_report L reply now synthesis subagent_results =
     and_then (extract_sources L subagent_results) (\<lambda>all_sources.
     and_then (add_citations L reply synthesis all_sources) (\<lambda>cited_report.
     and_then (py_len (dict_get cited_report ''citations'' (JList []))) (\<lambda>citation_count.
       Inr [(''original_synthesis'', JObj synthesis),
            (''cited_report'', JObj cited_report),
            (''sources_used'', JList (map JObj all_sources)),
            (''citation_count'', JInt (int citation_count)),
            (''timestamp'', JStr now)])))"

section \<open>Subagent (agents/subagent.py)\<close>

text \<open>
  What the outside world gives one sub-task: the outcome of the search provider for a
  query (its hits, or the exception it raises), the reply of the language model to the
  evaluation request, and the reading of the clock. A language model is configured: the
  constructor of an agent raises otherwise, before any work is done.
\<close>

record task_world =
  search :: "json \<Rightarrow> error + dict list"
  evaluation_response :: string
  task_clock :: string

definition subagent_name :: "lib \<Rightarrow> dict \<Rightarrow> string" where
  "subagent_name L task = ''Subagent_'' @ py_str L (dict_get task ''id'' (JStr ''unknown''))"

text \<open>\<open>web_search\<close>: any exception of the search is caught and gives the empty list.\<close>

definition web_search :: "task_world \<Rightarrow> json \<Rightarrow> dict list" where
  "web_search W query =
     (case search W query of
        Inl e \<Rightarrow> []
      | Inr search_results \<Rightarrow>
          map (\<lambda>result.
                 [(''title'', dict_get result ''title'' (JStr [])),
                  (''link'', dict_get result ''link'' (JStr [])),
                  (''snippet'', dict_get result ''body'' (JStr [])),
                  (''source'', dict_get result ''link'' (JStr [])),
                  (''query'', query)])
            search_results)"

definition evaluate_results :: "lib \<Rightarrow> task_world \<Rightarrow> dict \<Rightarrow> dict list \<Rightarrow> error + dict" where
  "evaluate_results L W task search_results =
     (if search_results = [] then
        Inr [(''summary'', JStr ''No search results found''),
             (''key_insights'', JList []),
             (''credible_sources'', JList []),
             (''confidence'', JStr ''low'')]
      else
        (case json_loads L (evaluation_response W) of
           Some (JObj evaluation) \<Rightarrow>
             Inr (AList.update ''sources_analyzed'' (JInt (int (length search_results))) evaluation)
         | Some _ \<Rightarrow> Inl (TypeError ''object does not support item assignment with a str key'')
         | None \<Rightarrow>
             Inr [(''summary'',
                     JStr (''Analyzed '' @ str_nat (length search_results) @ '' search results for ''
                           @ py_str L (dict_get task ''focus_area'' (JStr ''research'')))),
                  (''key_insights'', JList [JStr ''Information gathered from multiple sources'']),
                  (''credible_sources'',
                     JList (map (\<lambda>r. dict_get r ''source'' JNull) (take 3 search_results))),
                  (''limitations'', JList [JStr ''Limited evaluation due to parsing error'']),
                  (''confidence'', JStr ''medium''),
                  (''relevance_score'', JInt 70),
                  (''sources_analyzed'', JInt (int (length search_results))),
                  (''raw_response'', JStr (evaluation_response W))]))"

definition research :: "lib \<Rightarrow> task_world \<Rightarrow> dict \<Rightarrow> error + dict" where
  "research L W task =
     and_then
       (py_iter (dict_get task ''search_queries'' (JList [dict_get task ''title'' (JStr [])])))
       (\<lambda>search_queries.
          and_then (evaluate_results L W task (concat (map (web_search W) search_queries)))
            (\<lambda>evaluation.
               Inr [(''agent'', JStr (subagent_name L task)),
                    (''task'', JObj task),
                    (''search_results'',
                       JList (map JObj (concat (map (web_search W) search_queries)))),
                    (''evaluation'', JObj evaluation),
                    (''timestamp'', JStr (task_clock W))]))"

section \<open>Orchestrator (orchestrator.py)\<close>

text \<open>
  \<open>run_subagents\<close>. A subagent is constructed for each of the first \<open>max_subagents\<close>
  tasks; constructing one reads \<^verbatim>\<open>task.get\<close>, which only a dictionary has. The subagents
  run together and \<^verbatim>\<open>gather\<close> returns their outcomes in the order of the subagents, an
  exception as a value; no subagent reads or writes what another one uses, so the outcome
  of the subagent at position \<open>i\<close> is \<open>research\<close> on its task in its own world
  \<open>worlds i\<close>. An exception becomes an entry with the error text.
\<close>

fun make_subagents :: "json list \<Rightarrow> error + dict list" where
  "make_subagents [] = Inr []"
| "make_subagents (JObj task # rest) = and_then (make_subagents rest) (\<lambda>subagents. Inr (task # subagents))"
| "make_subagents (_ # rest) = Inl (AttributeError ''object has no attribute get'')"

definition processed_result :: "lib \<Rightarrow> (nat \<Rightarrow> task_world) \<Rightarrow> string \<Rightarrow> nat \<times> dict \<Rightarrow> dict" where
  "processed_result L worlds now it =
     (case research L (worlds (fst it)) (snd it) of
        Inl e \<Rightarrow>
          [(''agent'', JStr (subagent_name L (snd it))),
           (''task'', JObj (snd it)),
           (''error'', JStr (str_error e)),
           (''timestamp'', JStr now)]
      | Inr result \<Rightarrow> result)"

definition run_subagents ::
    "lib \<Rightarrow> settings \<Rightarrow> (nat \<Rightarrow> task_world) \<Rightarrow> string \<Rightarrow> json \<Rightarrow> json \<Rightarrow> error + dict list" where
  "run_subagents L cfg worlds now sub_tasks query =
     and_then (py_len sub_tasks) (\<lambda>_.
     and_then (py_slice_to sub_tasks (max_subagents cfg)) (\<lambda>first_tasks.
     and_then (py_iter first_tasks) (\<lambda>items.
     and_then (make_subagents items) (\<lambda>tasks.
       Inr (map (processed_result L worlds now) (enumerate 0 tasks))))))"

text \<open>
  The tasks of the next round: \<open>create_refined_tasks\<close> decomposes the refined query (its
  synthetic plan only enters the prompt), \<open>create_gap_filling_tasks\<close> makes one task per
  gap.
\<close>

definition create_refined_tasks :: "lib \<Rightarrow> string \<Rightarrow> json \<Rightarrow> dict \<Rightarrow> error + json" where
  "create_refined_tasks L response refined_query decision = decompose_tasks L response refined_query"

definition gap_task :: "lib \<Rightarrow> nat \<times> json \<Rightarrow> json" where
  "gap_task L it =
     JObj [(''id'', JStr (''gap_task_'' @ str_nat (fst it + 1))),
           (''title'', JStr (''Address Gap: '' @ py_str L (snd it))),
           (''description'', JStr (''Research to address the identified gap: '' @ py_str L (snd it))),
           (''focus_area'', snd it),
           (''search_queries'',
              JList [snd it, JStr (py_str L (snd it) @ '' research''),
                     JStr (py_str L (snd it) @ '' latest'')]),
           (''expected_output'', JStr (''Information to address the gap: '' @ py_str L (snd it)))]"

definition create_gap_filling_tasks :: "lib \<Rightarrow> dict \<Rightarrow> dict \<Rightarrow> error + json" where
  "create_gap_filling_tasks L synthesis decision =
     and_then
       (py_iter (dict_get decision ''specific_gaps'' (JList [JStr ''General follow-up research''])))
       (\<lambda>gaps. Inr (JList (map (gap_task L) (enumerate 0 gaps))))"

text \<open>\<^verbatim>\<open>v[0]\<close>.\<close>

fun py_first :: "json \<Rightarrow> error + json" where
  "py_first (JList []) = Inl (IndexError ''list index out of range'')"
| "py_first (JList (x # xs)) = Inr x"
| "py_first (JStr []) = Inl (IndexError ''string index out of range'')"
| "py_first (JStr (c # cs)) = Inr (JStr [c])"
| "py_first (JObj d) = Inl (KeyError ''0'')"
| "py_first _ = Inl (TypeError ''object is not subscriptable'')"

text \<open>
  The main loop of \<open>run_research\<close>. What the outside world gives one iteration: the worlds
  of its sub-tasks, the clock, and the replies of the language model to the synthesis
  request, to the continuation question and to the decomposition of a refined query. The
  body of the loop is written in three parts, from its end: \<open>next_tasks\<close> prepares the next
  iteration, \<open>decide\<close> asks the continuation question and tests the \<^verbatim>\<open>break\<close>,
  \<open>research_round\<close> runs the sub-tasks and synthesizes.
\<close>

record round_world =
  task_worlds :: "nat \<Rightarrow> task_world"
  batch_clock :: string
  synthesis_response :: string
  synthesis_clock :: string
  decision_response :: string
  refined_response :: string

text \<open>
  The variables of the loop. \<open>rounds_run\<close> and \<open>syntheses\<close> are not variables of the
  program: they record, for the properties, the result list of every call of
  \<open>run_subagents\<close> that returned and every synthesis that was assigned, in order. Nothing
  reads them.
\<close>

record loop_state =
  sub_tasks :: json
  current_query :: json
  all_results :: "dict list"
  synthesis :: "dict option"
  current_iteration :: int
  rounds_run :: "dict list list"
  syntheses :: "dict list"

datatype outcome = Continue | Break | Raise error

definition next_tasks :: "lib \<Rightarrow> round_world \<Rightarrow> dict \<Rightarrow> dict \<Rightarrow> loop_state \<Rightarrow> loop_state \<times> outcome" where
  "next_tasks L W synth decision st =
     (if truthy (dict_get decision ''refined_queries'' JNull) then
        (case py_first (dict_get decision ''refined_queries'' JNull) of
           Inl e \<Rightarrow> (st, Raise e)
         | Inr refined_query \<Rightarrow>
             (case create_refined_tasks L (refined_response W) refined_query decision of
                Inl e \<Rightarrow> (st\<lparr>current_query := refined_query\<rparr>, Raise e)
              | Inr tasks \<Rightarrow> (st\<lparr>current_query := refined_query, sub_tasks := tasks\<rparr>, Continue)))
      else
        (case create_gap_filling_tasks L synth decision of
           Inl e \<Rightarrow> (st, Raise e)
         | Inr tasks \<Rightarrow> (st\<lparr>sub_tasks := tasks\<rparr>, Continue)))"

definition decide :: "lib \<Rightarrow> round_world \<Rightarrow> int \<Rightarrow> int \<Rightarrow> dict \<Rightarrow> loop_state \<Rightarrow> loop_state \<times> outcome" where
  "decide L W max_iters iteration synth st =
     (case needs_more_research L (decision_response W) synth iteration of
        Inl e \<Rightarrow> (st, Raise e)
      | Inr decision \<Rightarrow>
          if \<not> truthy (dict_get decision ''needs_more_research'' (JBool False))
             \<or> max_iters \<le> iteration
          then (st, Break)
          else next_tasks L W synth decision st)"

definition research_round ::
    "lib \<Rightarrow> settings \<Rightarrow> round_world \<Rightarrow> int \<Rightarrow> int \<Rightarrow> loop_state \<Rightarrow> loop_state \<times> outcome" where
  "research_round L cfg W max_iters iteration st =
     (case run_subagents L cfg (task_worlds W) (batch_clock W) (sub_tasks st) (current_query st) of
        Inl e \<Rightarrow> (st\<lparr>current_iteration := iteration\<rparr>, Raise e)
      | Inr subagent_results \<Rightarrow>
          (case synthesize_results L (synthesis_response W) (synthesis_clock W) (current_query st)
                  subagent_results of
             Inl e \<Rightarrow>
               (st\<lparr>current_iteration := iteration,
                   all_results := all_results st @ subagent_results,
                   rounds_run := rounds_run st @ [subagent_results]\<rparr>, Raise e)
           | Inr synth \<Rightarrow>
               decide L W max_iters iteration synth
                 (st\<lparr>current_iteration := iteration,
                     all_results := all_results st @ subagent_results,
                     rounds_run := rounds_run st @ [subagent_results],
                     synthesis := Some synth,
                     syntheses := syntheses st @ [synth]\<rparr>)))"

text \<open>\<^verbatim>\<open>for iteration in range(1, max_iterations + 1)\<close>, with its \<^verbatim>\<open>break\<close>.\<close>

fun research_loop ::
    "lib \<Rightarrow> settings \<Rightarrow> (int \<Rightarrow> round_world) \<Rightarrow> int \<Rightarrow> int list \<Rightarrow> loop_state
       \<Rightarrow> loop_state \<times> error option" where
  "research_loop L cfg W max_iters [] st = (st, None)"
| "research_loop L cfg W max_iters (iteration # rest) st =
     (case research_round L cfg (W iteration) max_iters iteration st of
        (st', Raise e) \<Rightarrow> (st', Some e)
      | (st', Break) \<Rightarrow> (st', None)
      | (st', Continue) \<Rightarrow> research_loop L cfg W max_iters rest st')"

text \<open>
  \<open>run_research\<close>. What the outside world gives one run: the reply to the first
  decomposition, the worlds of the iterations, the replies to the citation requests (by
  section) and the clock of the report. The plan, the memory store and the file written at
  the end feed the prompts and the persisted copy only: \<open>plan_research\<close> has a fallback
  for every reply, and nothing of them is read back into the loop, so they are left out.
  The result is the final state of the loop together with the report or the exception;
  reading \<open>synthesis\<close> after a loop that never ran is Python's \<^verbatim>\<open>UnboundLocalError\<close>.
\<close>

record run_world =
  decompose_response :: string
  rounds :: "int \<Rightarrow> round_world"
  citation_reply :: "string \<Rightarrow> string"
  report_clock :: string

definition initial_state :: "json \<Rightarrow> json \<Rightarrow> loop_state" where
  "initial_state tasks query =
     \<lparr>sub_tasks = tasks, current_query = query, all_results = [], synthesis = None,
      current_iteration = 0, rounds_run = [], syntheses = []\<rparr>"

definition run_research ::
    "lib \<Rightarrow> settings \<Rightarrow> run_world \<Rightarrow> string \<Rightarrow> int option \<Rightarrow> loop_state \<times> (error + dict)" where
  "run_research L cfg W query max_iterations_arg =
     (let max_iters = (case max_iterations_arg of None \<Rightarrow> max_iterations cfg | Some m \<Rightarrow> m) in
      case and_then (decompose_tasks L (decompose_response W) (JStr query))
             (\<lambda>tasks. and_then (py_len tasks) (\<lambda>_. Inr tasks)) of
        Inl e \<Rightarrow> (initial_state JNull (JStr query), Inl e)
      | Inr tasks \<Rightarrow>
          (case research_loop L cfg (rounds W) max_iters [1..max_iters]
                  (initial_state tasks (JStr query)) of
             (st, Some e) \<Rightarrow> (st, Inl e)
           | (st, None) \<Rightarrow>
               (case synthesis st of
                  None \<Rightarrow> (st, Inl (UnboundLocalError ''synthesis''))
                | Some synth \<Rightarrow>
                    (st, process_report L (citation_reply W) (report_clock W) synth (all_results st)))))"

section \<open>Vocabulary of the properties\<close>

text \<open>
  What the citation claims speak of. The index of a citation is its \<open>source_index\<close> field
  read as a list index, 0 when the field is absent; it is in bounds when it lies in
  \<open>[0, len(sources))\<close>. A citation is back-filled when \<open>source_url\<close> and \<open>source_title\<close> have
  been set from the source at its index. The returned citations of a reply are the items
  of the \<open>citations\<close> field of the decoded reply.
\<close>

definition citation_index :: "json \<Rightarrow> int option" where
  "citation_index c =
     (case c of JObj d \<Rightarrow> py_index_val (dict_get d ''source_index'' (JInt 0)) | _ \<Rightarrow> None)"

definition in_bounds :: "dict list \<Rightarrow> json \<Rightarrow> bool" where
  "in_bounds sources c =
     (case citation_index c of Some i \<Rightarrow> 0 \<le> i \<and> i < int (length sources) | None \<Rightarrow> False)"

definition backfilled :: "dict list \<Rightarrow> json \<Rightarrow> json \<Rightarrow> bool" where
  "backfilled sources c v =
     (case (c, citation_index c) of
        (JObj d, Some i) \<Rightarrow>
          v = JObj (AList.update ''source_title'' (dict_get (sources ! nat i) ''title'' JNull)
                     (AList.update ''source_url'' (dict_get (sources ! nat i) ''url'' JNull) d))
      | _ \<Rightarrow> False)"

definition citation_valid :: "dict list \<Rightarrow> json \<Rightarrow> bool" where
  "citation_valid sources v =
     (case v of
        JObj d \<Rightarrow>
          (case py_index_val (dict_get d ''source_index'' (JInt 0)) of
             Some i \<Rightarrow>
               0 \<le> i \<and> i < int (length sources)
               \<and> map_of d ''source_url'' = Some (dict_get (sources ! nat i) ''url'' JNull)
               \<and> map_of d ''source_title'' = Some (dict_get (sources ! nat i) ''title'' JNull)
           | None \<Rightarrow> False)
      | _ \<Rightarrow> False)"

definition returned_citations :: "lib \<Rightarrow> string \<Rightarrow> json list" where
  "returned_citations L response =
     (case json_loads L response of
        Some (JObj result) \<Rightarrow>
          (case py_iter (dict_get result ''citations'' (JList [])) of
             Inr returned \<Rightarrow> returned
           | Inl e \<Rightarrow> [])
      | _ \<Rightarrow> [])"

text \<open>
  What the extraction claim speaks of. The key of a source is its url as a set of seen
  urls compares it. The candidates are the sources that the sub-task results offer, in the
  order of the scan: for each result, one per search result with a non-empty url (title
  and context from that search result), then one per credible source (with the synthetic
  title). \<open>first_seen_wins\<close> keeps, of a list of candidates, the first one for each key.
\<close>

definition source_key :: "dict \<Rightarrow> hkey option" where
  "source_key source = py_hash_key (dict_get source ''url'' JNull)"

definition hit_source :: "lib \<Rightarrow> json \<Rightarrow> dict list" where
  "hit_source L search_result =
     (case search_result of
        JObj d \<Rightarrow>
          if truthy (dict_get d ''source'' (JStr []))
          then [mk_source (dict_get d ''source'' (JStr [])) (dict_get d ''title'' (JStr []))
                  (extract_domain L (dict_get d ''source'' (JStr [])))
                  (dict_get d ''snippet'' (JStr []))]
          else []
      | _ \<Rightarrow> [])"

definition search_candidates :: "lib \<Rightarrow> dict \<Rightarrow> dict list" where
  "search_candidates L result =
     (case py_iter (dict_get result ''search_results'' (JList [])) of
        Inr search_results \<Rightarrow> concat (map (hit_source L) search_results)
      | Inl e \<Rightarrow> [])"

definition credible_source :: "lib \<Rightarrow> json \<Rightarrow> json \<Rightarrow> dict" where
  "credible_source L agent_title source =
     mk_source source agent_title (extract_domain L source)
       (JStr ''Credible source identified by subagent'')"

definition credible_candidates :: "lib \<Rightarrow> dict \<Rightarrow> dict list" where
  "credible_candidates L result =
     (case dict_get result ''evaluation'' JNull of
        JObj evaluation \<Rightarrow>
          (case py_iter (dict_get evaluation ''credible_sources'' (JList [])) of
             Inr credible_sources \<Rightarrow>
               map (credible_source L
                      (JStr (''Source from '' @ py_str L (dict_get result ''agent'' (JStr ''unknown'')))))
                 credible_sources
           | Inl e \<Rightarrow> [])
      | _ \<Rightarrow> [])"

definition candidates :: "lib \<Rightarrow> dict list \<Rightarrow> dict list" where
  "candidates L subagent_results =
     concat (map (\<lambda>result. search_candidates L result @ credible_candidates L result)
       subagent_results)"

fun first_seen_wins :: "hkey option set \<Rightarrow> dict list \<Rightarrow> dict list" where
  "first_seen_wins seen [] = []"
| "first_seen_wins seen (c # cs) =
     (if source_key c \<in> seen then first_seen_wins seen cs
      else c # first_seen_wins (insert (source_key c) seen) cs)"

definition agent_title :: "lib \<Rightarrow> dict \<Rightarrow> json" where
  "agent_title L result =
     JStr (''Source from '' @ py_str L (dict_get result ''agent'' (JStr ''unknown'')))"

definition result_candidates :: "lib \<Rightarrow> dict \<Rightarrow> dict list" where
  "result_candidates L result = search_candidates L result @ credible_candidates L result"

text \<open>
  What the planner and synthesizer claims speak of. \<open>with_id\<close> is a task with the id of
  its position when it has none. A synthesis is well formed when it has the fields of the
  specification's data model: the text fields are strings, the sequence fields are lists
  of strings, the confidence level is one of \<^verbatim>\<open>high\<close>, \<^verbatim>\<open>medium\<close>, \<^verbatim>\<open>low\<close>, and the
  completeness score is an integer from 0 to 100.
\<close>

definition with_id :: "nat \<Rightarrow> dict \<Rightarrow> dict" where
  "with_id position task =
     (if dict_has task ''id'' then task
      else AList.update ''id'' (JStr (''task_'' @ str_nat position)) task)"

definition is_str :: "json \<Rightarrow> bool" where
  "is_str v = (case v of JStr s \<Rightarrow> True | _ \<Rightarrow> False)"

definition is_str_list :: "json \<Rightarrow> bool" where
  "is_str_list v = (case v of JList xs \<Rightarrow> list_all is_str xs | _ \<Rightarrow> False)"

definition well_formed_synthesis :: "dict \<Rightarrow> bool" where
  "well_formed_synthesis s =
     (dict_has s ''query''
      \<and> is_str (dict_get s ''executive_summary'' JNull)
      \<and> is_str_list (dict_get s ''key_findings'' JNull)
      \<and> is_str (dict_get s ''detailed_analysis'' JNull)
      \<and> is_str_list (dict_get s ''sources'' JNull)
      \<and> is_str_list (dict_get s ''gaps_identified'' JNull)
      \<and> is_str_list (dict_get s ''recommendations'' JNull)
      \<and> dict_get s ''confidence_level'' JNull \<in> {JStr ''high'', JStr ''medium'', JStr ''low''}
      \<and> (case dict_get s ''completeness_score'' JNull of
            JInt n \<Rightarrow> 0 \<le> n \<and> n \<le> 100
          | _ \<Rightarrow> False)
      \<and> dict_has s ''synthesis_timestamp'')"

text \<open>
  What the claims on the loop speak of. Two states have the same record when a step left
  the accumulated results, the rounds, and the syntheses as they were. A state is
  consistent when the accumulated results are the results of the rounds run so far, one
  after the other, and the current synthesis is the last one that was made.
\<close>

definition same_record :: "loop_state \<Rightarrow> loop_state \<Rightarrow> bool" where
  "same_record st st' =
     (all_results st' = all_results st \<and> rounds_run st' = rounds_run st
      \<and> synthesis st' = synthesis st \<and> syntheses st' = syntheses st)"

definition consistent :: "loop_state \<Rightarrow> bool" where
  "consistent st =
     (all_results st = concat (rounds_run st)
      \<and> synthesis st = (if syntheses st = [] then None else Some (last (syntheses st)))
      \<and> length (syntheses st) \<le> length (rounds_run st))"

text \<open>
  The state after the given iterations when every one of them went on to the next:
  \<open>continued\<close> runs the rounds in order, each from the state the one before left, and has
  no value as soon as a round breaks or raises.
\<close>

fun continued ::
    "lib \<Rightarrow> settings \<Rightarrow> (int \<Rightarrow> round_world) \<Rightarrow> int \<Rightarrow> int list \<Rightarrow> loop_state
       \<Rightarrow> loop_state option" where
  "continued L cfg W max_iters [] st = Some st"
| "continued L cfg W max_iters (iteration # rest) st =
     (case research_round L cfg (W iteration) max_iters iteration st of
        (st', Continue) \<Rightarrow> continued L cfg W max_iters rest st'
      | (st', Break) \<Rightarrow> None
      | (st', Raise e) \<Rightarrow> None)"

section \<open>Concrete inputs\<close>

text \<open>
  One sub-task result with three search hits, two for the same url, and two credible
  sources, one of them a url already seen; a synthesis with one section; and the reply
  of the language model to the citation request for that section: four citations, with
  index 1, index 7, no index, and index -1.
\<close>

definition demo_results :: "dict list" where
  "demo_results =
     [[(''agent'', JStr ''Subagent_task_1''),
       (''search_results'', JList
          [JObj [(''title'', JStr ''A''), (''source'', JStr ''a.com''), (''snippet'', JStr ''about a'')],
           JObj [(''title'', JStr ''B''), (''source'', JStr ''b.com''), (''snippet'', JStr ''about b'')],
           JObj [(''title'', JStr ''A again''), (''source'', JStr ''a.com''), (''snippet'', JStr ''more a'')]]),
       (''evaluation'', JObj [(''credible_sources'', JList [JStr ''b.com'', JStr ''c.com''])])]]"

definition demo_sources :: "dict list" where
  "demo_sources =
     [mk_source (JStr ''a.com'') (JStr ''A'') (JStr ''a.com'') (JStr ''about a''),
      mk_source (JStr ''b.com'') (JStr ''B'') (JStr ''b.com'') (JStr ''about b''),
      mk_source (JStr ''c.com'') (JStr ''Source from Subagent_task_1'') (JStr ''c.com'')
        (JStr ''Credible source identified by subagent'')]"

definition demo_synthesis :: dict where
  "demo_synthesis = [(''query'', JStr ''topic X''), (''executive_summary'', JStr ''summary'')]"

definition demo_cite_text :: string where
  \<open>demo_cite_text =
     ''{"cited_content": "cited", "citations": [{"claim": "c1", "source_index": 1}, {"claim": "c2", "source_index": 7}, {"claim": "c3"}, {"claim": "c4", "source_index": -1}]}''\<close>

definition demo_cite_reply :: json where
  "demo_cite_reply =
     JObj [(''cited_content'', JStr ''cited''),
           (''citations'', JList
              [JObj [(''claim'', JStr ''c1''), (''source_index'', JInt 1)],
               JObj [(''claim'', JStr ''c2''), (''source_index'', JInt 7)],
               JObj [(''claim'', JStr ''c3'')],
               JObj [(''claim'', JStr ''c4''), (''source_index'', JInt (- 1))]])]"

definition demo_citations :: "json list" where
  "demo_citations =
     [JObj [(''claim'', JStr ''c1''), (''source_index'', JInt 1),
            (''source_url'', JStr ''b.com''), (''source_title'', JStr ''B'')],
      JObj [(''claim'', JStr ''c3''),
            (''source_url'', JStr ''a.com''), (''source_title'', JStr ''A'')]]"

definition demo_cited_report :: dict where
  "demo_cited_report =
     [(''query'', JStr ''topic X''),
      (''executive_summary'', JStr ''cited''),
      (''citations'', JList demo_citations),
      (''citation_metadata'',
         JObj [(''total_citations'', JInt 2), (''sources_used'', JInt 3),
               (''citation_style'', JStr ''markdown'')])]"

definition demo_report :: dict where
  "demo_report =
     [(''original_synthesis'', JObj demo_synthesis),
      (''cited_report'', JObj demo_cited_report),
      (''sources_used'', JList (map JObj demo_sources)),
      (''citation_count'', JInt 2),
      (''timestamp'', JStr ''t0'')]"

text \<open>
  Two replies to the decomposition request: the one-task reply of the repository's own
  test of \<open>decompose_tasks\<close>, and a reply of two tasks of which the first has the id
  \<^verbatim>\<open>task_2\<close> and the second has none.
\<close>

definition demo_one_task_text :: string where
  \<open>demo_one_task_text = ''[{"id": "task_1", "title": "Test Task"}]''\<close>

definition demo_one_task :: dict where
  "demo_one_task = [(''id'', JStr ''task_1''), (''title'', JStr ''Test Task'')]"

definition demo_two_tasks_text :: string where
  \<open>demo_two_tasks_text = ''[{"id": "task_2", "title": "A"}, {"title": "B"}]''\<close>

definition demo_two_tasks :: "dict list" where
  "demo_two_tasks = [[(''id'', JStr ''task_2''), (''title'', JStr ''A'')], [(''title'', JStr ''B'')]]"

text \<open>
  A world in which the search provider is down and the language model answers with text
  that is not JSON; a task whose \<open>search_queries\<close> is the number 5, which cannot be
  iterated; a task with one query; and five tasks.
\<close>

definition demo_task_world :: task_world where
  "demo_task_world =
     \<lparr>search = (\<lambda>q. Inl (ProviderError ''provider down'')),
      evaluation_response = ''not json'', task_clock = ''t1''\<rparr>"

definition demo_bad_task :: dict where
  "demo_bad_task = [(''id'', JStr ''bad''), (''search_queries'', JInt 5)]"

definition demo_good_task :: dict where
  "demo_good_task = [(''id'', JStr ''good''), (''search_queries'', JList [JStr ''q1''])]"

definition demo_good_result :: dict where
  "demo_good_result =
     [(''agent'', JStr ''Subagent_good''),
      (''task'', JObj demo_good_task),
      (''search_results'', JList []),
      (''evaluation'',
         JObj [(''summary'', JStr ''No search results found''),
               (''key_insights'', JList []),
               (''credible_sources'', JList []),
               (''confidence'', JStr ''low'')]),
      (''timestamp'', JStr ''t1'')]"

definition demo_five_tasks :: "dict list" where
  "demo_five_tasks =
     [[(''id'', JStr ''a'')], [(''id'', JStr ''b'')], [(''id'', JStr ''c'')],
      [(''id'', JStr ''d'')], [(''id'', JStr ''e'')]]"

text \<open>
  A reply to the continuation question that always asks for more research on one gap, and
  a world for a whole run: no reply but that one is JSON, and the search provider is down.
\<close>

definition demo_more_text :: string where
  \<open>demo_more_text = ''{"needs_more_research": true, "specific_gaps": ["gap"]}''\<close>

definition demo_more_reply :: json where
  "demo_more_reply =
     JObj [(''needs_more_research'', JBool True), (''specific_gaps'', JList [JStr ''gap''])]"

definition demo_round_world :: round_world where
  "demo_round_world =
     \<lparr>task_worlds = (\<lambda>i. demo_task_world), batch_clock = ''t1'',
      synthesis_response = ''not json'', synthesis_clock = ''t2'',
      decision_response = demo_more_text, refined_response = ''not json''\<rparr>"

definition demo_run_world :: run_world where
  "demo_run_world =
     \<lparr>decompose_response = ''not json'', rounds = (\<lambda>i. demo_round_world),
      citation_reply = (\<lambda>n. ''not json''), report_clock = ''t3''\<rparr>"

text \<open>The state of the loop before a round with no task to run.\<close>

definition demo_state :: loop_state where
  "demo_state = initial_state (JList []) (JStr ''topic X'')"

text \<open>
  A decoder that knows a few JSON texts and rejects every other text, for evaluating the
  definitions at concrete replies.
\<close>

definition demo_loads :: "string \<Rightarrow> json option" where
  "demo_loads = map_of
     [(''{}'', JObj []),
      (''[]'', JList []),
      (demo_cite_text, demo_cite_reply),
      (demo_one_task_text, JList [JObj demo_one_task]),
      (demo_two_tasks_text, JList (map JObj demo_two_tasks)),
      (demo_more_text, demo_more_reply)]"

definition demo_lib :: lib where
  "demo_lib = \<lparr>json_loads = demo_loads, py_repr = (\<lambda>v. ''?''), urlparse_netloc = (\<lambda>v. None)\<rparr>"

text \<open>
  A world for a run that stops early: in round 2 the synthesis request and the
  continuation question are both answered by the empty JSON object, so the decision of
  round 2 has no \<open>needs_more_research\<close> field; the other rounds are as before. With it, the
  state in which the run starts, the state after its first round, and the synthesis its
  second round makes.
\<close>

definition demo_stop_round :: "int \<Rightarrow> round_world" where
  "demo_stop_round i =
     (if i = 2 then demo_round_world\<lparr>synthesis_response := ''{}'', decision_response := ''{}''\<rparr>
      else demo_round_world)"

definition demo_stop_world :: run_world where
  "demo_stop_world = demo_run_world\<lparr>rounds := demo_stop_round\<rparr>"

definition demo_stop_start :: loop_state where
  "demo_stop_start =
     initial_state (JList (fallback_tasks demo_lib (JStr ''topic X''))) (JStr ''topic X'')"

definition demo_after_one :: loop_state where
  "demo_after_one =
     fst (research_round demo_lib default_settings (demo_stop_round 1) 3 1 demo_stop_start)"

definition demo_last_synthesis :: dict where
  "demo_last_synthesis = [(''query'', JStr ''topic X''), (''synthesis_timestamp'', JStr ''t2'')]"

section \<open>Properties\<close>

subsection \<open>Citation validation\<close>

lemma and_then_eq_Inr: "and_then m f = Inr y \<longleftrightarrow> (\<exists>x. m = Inr x \<and> f x = Inr y)"
  by (cases m) auto

lemma py_in_range_True:
  "py_in_range 0 v n = Inr True \<Longrightarrow> list_index (xs::dict list) v = Inr s \<Longrightarrow> n = int (length xs) \<Longrightarrow>
   \<exists>i. py_index_val v = Some i \<and> 0 \<le> i \<and> i < n \<and> s = xs ! nat i"
  by (cases v) (auto simp: py_in_range_def list_index_def Let_def split: if_splits option.splits)

lemma py_in_range_False:
  "py_in_range 0 v n = Inr False \<Longrightarrow> \<not> (\<exists>i. py_index_val v = Some i \<and> 0 \<le> i \<and> i < n)"
  by (cases v) (auto simp: py_in_range_def split: if_splits option.splits)

lemma getitem_dict_get: "py_getitem_str (JObj d) k = Inr v \<Longrightarrow> dict_get d k dflt = v"
  by (auto simp: dict_get_def split: option.splits)

lemma validate_citations_filter:
  "validate_citations sources returned = Inr validated \<Longrightarrow>
   list_all2 (backfilled sources) (filter (in_bounds sources) returned) validated"
proof (induction returned arbitrary: validated)
  case Nil
  then show ?case by simp
next
  case (Cons c rest)
  from Cons.prems obtain citation where c: "c = JObj citation"
    by (cases c) simp_all
  let ?v = "dict_get citation ''source_index'' (JInt 0)"
  from Cons.prems c obtain ok where ok: "py_in_range 0 ?v (int (length sources)) = Inr ok"
    by (auto simp: and_then_eq_Inr Let_def)
  show ?case
  proof (cases ok)
    case True
    with Cons.prems c ok obtain source url title rest' where
      s: "list_index sources ?v = Inr source"
      and u: "py_getitem_str (JObj source) ''url'' = Inr url"
      and t: "py_getitem_str (JObj source) ''title'' = Inr title"
      and r: "validate_citations sources rest = Inr rest'"
      and v: "validated = JObj (AList.update ''source_title'' title (AList.update ''source_url'' url citation)) # rest'"
      by (auto simp: and_then_eq_Inr Let_def)
    have ok': "py_in_range 0 ?v (int (length sources)) = Inr True" using ok True by simp
    from py_in_range_True [OF ok' s refl] obtain i where
      i: "py_index_val ?v = Some i" "0 \<le> i" "i < int (length sources)" "source = sources ! nat i"
      by blast
    have ih: "list_all2 (backfilled sources) (filter (in_bounds sources) rest) rest'"
      using Cons.IH [OF r] .
    have inb: "in_bounds sources (JObj citation)"
      using i by (simp add: in_bounds_def citation_index_def)
    have bf: "backfilled sources (JObj citation)
        (JObj (AList.update ''source_title'' title (AList.update ''source_url'' url citation)))"
      using i getitem_dict_get [OF u, of JNull] getitem_dict_get [OF t, of JNull]
      by (simp add: backfilled_def citation_index_def)
    show ?thesis using inb bf ih v c by simp
  next
    case False
    with Cons.prems c ok have r: "validate_citations sources rest = Inr validated"
      by (auto simp: and_then_eq_Inr Let_def)
    have ih: "list_all2 (backfilled sources) (filter (in_bounds sources) rest) validated"
      using Cons.IH [OF r] .
    have ok': "py_in_range 0 ?v (int (length sources)) = Inr False" using ok False by simp
    have "\<not> in_bounds sources (JObj citation)"
      using py_in_range_False [OF ok']
      by (auto simp: in_bounds_def citation_index_def split: option.splits)
    then show ?thesis using ih c by simp
  qed
qed


lemma update_other_get:
  "k \<noteq> k1 \<Longrightarrow> k \<noteq> k2 \<Longrightarrow>
   dict_get (AList.update k1 a (AList.update k2 b d)) k dflt = dict_get d k dflt"
  by (simp add: dict_get_def update_conv')

lemma backfilled_valid:
  assumes "backfilled sources c v" and "in_bounds sources c"
  shows "citation_valid sources v"
proof -
  from assms(1) obtain d i where c: "c = JObj d"
    and i: "py_index_val (dict_get d ''source_index'' (JInt 0)) = Some i"
    and v: "v = JObj (AList.update ''source_title'' (dict_get (sources ! nat i) ''title'' JNull)
                     (AList.update ''source_url'' (dict_get (sources ! nat i) ''url'' JNull) d))"
    by (cases c; cases "citation_index c") (simp_all add: backfilled_def citation_index_def)
  have b: "0 \<le> i" "i < int (length sources)"
    using assms(2) c i by (simp_all add: in_bounds_def citation_index_def)
  have k: "dict_get (AList.update ''source_title'' t (AList.update ''source_url'' u d))
             ''source_index'' (JInt 0) = dict_get d ''source_index'' (JInt 0)" for t u
    by (rule update_other_get) simp_all
  show ?thesis
    unfolding v citation_valid_def using i b by (simp add: k update_conv')
qed

lemma list_all2_filter_valid:
  "list_all2 (backfilled sources) cs vs \<Longrightarrow> list_all (in_bounds sources) cs \<Longrightarrow>
   list_all (citation_valid sources) vs"
  by (induction rule: list_all2_induct) (auto intro: backfilled_valid)

lemma section_citations:
  assumes "process_section_for_citations L response content sources = Inr r"
  shows "\<exists>cited_content validated. r = section_result cited_content validated
           \<and> (truthy content \<longrightarrow>
                list_all2 (backfilled sources)
                  (filter (in_bounds sources) (returned_citations L response)) validated)
           \<and> list_all (citation_valid sources) validated"
proof (cases "\<not> truthy content \<or> sources = []")
  case True
  then have "r = section_result content []"
    using assms by (auto simp: process_section_for_citations_def)
  moreover have "filter (in_bounds sources) (returned_citations L response) = []" if "sources = []"
    using that by (auto simp: in_bounds_def filter_empty_conv split: option.splits)
  ultimately have "r = section_result content [] \<and>
      (truthy content \<longrightarrow> list_all2 (backfilled sources)
          (filter (in_bounds sources) (returned_citations L response)) [])
      \<and> list_all (citation_valid sources) []"
    using True by auto
  then show ?thesis by blast
next
  case False
  show ?thesis
  proof (cases "json_loads L response")
    case None
    then have "r = section_result content []"
      using assms False by (auto simp: process_section_for_citations_def and_then_eq_Inr)
    moreover have "returned_citations L response = []"
      using None by (simp add: returned_citations_def)
    ultimately have "r = section_result content [] \<and>
      (truthy content \<longrightarrow> list_all2 (backfilled sources)
          (filter (in_bounds sources) (returned_citations L response)) [])
      \<and> list_all (citation_valid sources) []"
      by simp
    then show ?thesis by blast
  next
    case (Some result)
    with assms False obtain citations returned validated cited_content where
      g: "py_get result ''citations'' (JList []) = Inr citations"
      and i: "py_iter citations = Inr returned"
      and v: "validate_citations sources returned = Inr validated"
      and r: "r = section_result cited_content validated"
      by (auto simp: process_section_for_citations_def and_then_eq_Inr)
    from g obtain d where d: "result = JObj d" "citations = dict_get d ''citations'' (JList [])"
      by (cases result) auto
    have rc: "returned_citations L response = returned"
      using Some d i by (simp add: returned_citations_def)
    have f: "list_all2 (backfilled sources) (filter (in_bounds sources) returned) validated"
      using v by (rule validate_citations_filter)
    have "r = section_result cited_content validated \<and>
      (truthy content \<longrightarrow> list_all2 (backfilled sources)
          (filter (in_bounds sources) (returned_citations L response)) validated)
      \<and> list_all (citation_valid sources) validated"
      using r rc f list_all2_filter_valid [OF f] by (simp add: list_all_iff)
    then show ?thesis by blast
  qed
qed

lemma section_result_fields:
  "dict_get (section_result c vs) ''citations'' dflt = JList vs"
  "dict_get (section_result c vs) ''cited_content'' dflt = c"
  by (simp_all add: section_result_def dict_get_def)

lemma cite_sections_step:
  assumes "cite_sections L reply sources ((name, content) # rest) (cs, acc) = Inr out"
  shows "\<exists>cited_content validated.
           process_section_for_citations L (reply name) content sources
             = Inr (section_result cited_content validated)
         \<and> (truthy content \<longrightarrow>
               list_all2 (backfilled sources)
                 (filter (in_bounds sources) (returned_citations L (reply name))) validated)
         \<and> list_all (citation_valid sources) validated
         \<and> cite_sections L reply sources rest
               (AList.update name cited_content cs, acc @ validated) = Inr out"
proof -
  from assms obtain r where r: "process_section_for_citations L (reply name) content sources = Inr r"
    by (auto simp: and_then_eq_Inr)
  from section_citations [OF r] obtain cited_content validated where
    s: "r = section_result cited_content validated"
    and f: "truthy content \<longrightarrow> list_all2 (backfilled sources)
                 (filter (in_bounds sources) (returned_citations L (reply name))) validated"
    and v: "list_all (citation_valid sources) validated"
    by blast
  have "cite_sections L reply sources rest (AList.update name cited_content cs, acc @ validated) = Inr out"
    using assms r s by (simp add: section_result_fields)
  with r s f v show ?thesis by blast
qed

lemma cite_sections_valid:
  "cite_sections L reply sources secs (cs, acc) = Inr (cs', acc') \<Longrightarrow>
   list_all (citation_valid sources) acc \<Longrightarrow> list_all (citation_valid sources) acc'"
proof (induction secs arbitrary: cs acc)
  case Nil
  then show ?case by simp
next
  case (Cons sec rest)
  obtain name content where sec: "sec = (name, content)" by (cases sec)
  from cite_sections_step [OF Cons.prems(1) [unfolded sec]] obtain cited_content validated where
    v: "list_all (citation_valid sources) validated"
    and r: "cite_sections L reply sources rest
               (AList.update name cited_content cs, acc @ validated) = Inr (cs', acc')"
    by blast
  show ?case
    using Cons.IH [OF r] v Cons.prems(2) by simp
qed

lemma cite_sections_grows:
  "cite_sections L reply sources secs (cs, acc) = Inr (cs', acc') \<Longrightarrow> set acc \<subseteq> set acc'"
proof (induction secs arbitrary: cs acc)
  case Nil
  then show ?case by simp
next
  case (Cons sec rest)
  obtain name content where sec: "sec = (name, content)" by (cases sec)
  from cite_sections_step [OF Cons.prems(1) [unfolded sec]] obtain cited_content validated where
    r: "cite_sections L reply sources rest
               (AList.update name cited_content cs, acc @ validated) = Inr (cs', acc')"
    by blast
  show ?case
    using Cons.IH [OF r] by simp
qed

lemma cite_sections_keeps:
  "cite_sections L reply sources secs (cs, acc) = Inr (cs', acc') \<Longrightarrow>
   (name, content) \<in> set secs \<Longrightarrow> truthy content \<Longrightarrow>
   \<exists>validated. list_all2 (backfilled sources)
       (filter (in_bounds sources) (returned_citations L (reply name))) validated
     \<and> set validated \<subseteq> set acc'"
proof (induction secs arbitrary: cs acc)
  case Nil
  then show ?case by simp
next
  case (Cons sec rest)
  obtain n c where sec: "sec = (n, c)" by (cases sec)
  from cite_sections_step [OF Cons.prems(1) [unfolded sec]] obtain cited_content validated where
    f: "truthy c \<longrightarrow> list_all2 (backfilled sources)
                 (filter (in_bounds sources) (returned_citations L (reply n))) validated"
    and r: "cite_sections L reply sources rest
               (AList.update n cited_content cs, acc @ validated) = Inr (cs', acc')"
    by blast
  show ?case
  proof (cases "(name, content) = sec")
    case True
    then have "list_all2 (backfilled sources)
                 (filter (in_bounds sources) (returned_citations L (reply name))) validated"
      using f sec Cons.prems(3) by simp
    moreover have "set validated \<subseteq> set acc'"
      using cite_sections_grows [OF r] by simp
    ultimately show ?thesis by blast
  next
    case False
    then have "(name, content) \<in> set rest" using Cons.prems(2) by simp
    from Cons.IH [OF r this Cons.prems(3)] show ?thesis .
  qed
qed

lemma add_citations_fields:
  assumes "add_citations L reply synth sources = Inr cited_report"
  shows "\<exists>sections cited_sections all_citations.
           content_sections synth = Inr sections
         \<and> cite_sections L reply sources sections ([], []) = Inr (cited_sections, all_citations)
         \<and> map_of cited_report ''citations'' = Some (JList all_citations)"
proof -
  from assms obtain sections cited_sections all_citations where
    s: "content_sections synth = Inr sections"
    and c: "cite_sections L reply sources sections ([], []) = Inr (cited_sections, all_citations)"
    and r: "cited_report =
       AList.update ''citation_metadata''
              (JObj [(''total_citations'', JInt (int (length all_citations))),
                     (''sources_used'', JInt (int (length sources))),
                     (''citation_style'', JStr ''markdown'')])
           (AList.update ''citations'' (JList all_citations)
              (fold (\<lambda>(section_name, cited_content). AList.update section_name cited_content)
                 cited_sections synth))"
    by (auto simp: add_citations_def and_then_eq_Inr)
  have "map_of cited_report ''citations'' = Some (JList all_citations)"
    unfolding r by (simp add: update_conv')
  with s c show ?thesis by blast
qed

lemma process_report_fields:
  assumes "process_report L reply now synth subagent_results = Inr report"
  shows "\<exists>all_sources cited_report.
           extract_sources L subagent_results = Inr all_sources
         \<and> add_citations L reply synth all_sources = Inr cited_report
         \<and> map_of report ''sources_used'' = Some (JList (map JObj all_sources))
         \<and> map_of report ''cited_report'' = Some (JObj cited_report)"
  using assms by (auto simp: process_report_def and_then_eq_Inr)


subsection \<open>The demonstration decoder\<close>

lemmas demo_texts =
  demo_cite_text_def demo_one_task_text_def demo_two_tasks_text_def demo_more_text_def

lemma demo_loads_not_json: "json_loads demo_lib ''not json'' = None"
  by (simp add: demo_lib_def demo_loads_def demo_texts)

lemma demo_loads_cite: "json_loads demo_lib demo_cite_text = Some demo_cite_reply"
  by (simp add: demo_lib_def demo_loads_def demo_texts)

lemma demo_loads_one_task: "json_loads demo_lib demo_one_task_text = Some (JList [JObj demo_one_task])"
  by (simp add: demo_lib_def demo_loads_def demo_texts)

lemma demo_loads_two_tasks:
  "json_loads demo_lib demo_two_tasks_text = Some (JList (map JObj demo_two_tasks))"
  by (simp add: demo_lib_def demo_loads_def demo_texts)

lemma demo_loads_empty_object: "json_loads demo_lib ''{}'' = Some (JObj [])"
  by (simp add: demo_lib_def demo_loads_def)

lemma demo_loads_empty_list: "json_loads demo_lib ''[]'' = Some (JList [])"
  by (simp add: demo_lib_def demo_loads_def)

subsection \<open>The demonstration run of the citation agent\<close>

lemma demo_extract: "extract_sources demo_lib demo_results = Inr demo_sources"
  by (simp add: extract_sources_def demo_results_def demo_sources_def extract_result_def
      dict_has_def dict_get_def mk_source_def extract_domain_def demo_lib_def Let_def)

lemma demo_section:
  "process_section_for_citations demo_lib demo_cite_text (JStr ''summary'') demo_sources
     = Inr (section_result (JStr ''cited'') demo_citations)"
  by (simp add: process_section_for_citations_def demo_loads_cite demo_cite_reply_def
      demo_sources_def mk_source_def source_line_def dict_get_def py_in_range_def
      list_index_def update_conv' demo_citations_def Let_def)

lemma demo_add_citations:
  "add_citations demo_lib (\<lambda>n. demo_cite_text) demo_synthesis demo_sources = Inr demo_cited_report"
  by (simp add: add_citations_def content_sections_def demo_synthesis_def dict_has_def dict_get_def
      demo_section [unfolded demo_sources_def] section_result_def demo_cited_report_def
      demo_sources_def demo_citations_def Let_def)

lemma demo_process_report:
  "process_report demo_lib (\<lambda>n. demo_cite_text) ''t0'' demo_synthesis demo_results = Inr demo_report"
  by (simp add: process_report_def demo_extract demo_add_citations demo_report_def
      demo_cited_report_def dict_get_def demo_citations_def)


lemma demo_returned:
  "returned_citations demo_lib demo_cite_text =
     [JObj [(''claim'', JStr ''c1''), (''source_index'', JInt 1)],
      JObj [(''claim'', JStr ''c2''), (''source_index'', JInt 7)],
      JObj [(''claim'', JStr ''c3'')],
      JObj [(''claim'', JStr ''c4''), (''source_index'', JInt (- 1))]]"
  by (simp add: returned_citations_def demo_loads_cite demo_cite_reply_def dict_get_def)

subsection \<open>Source extraction\<close>

lemma first_seen_wins_append:
  "first_seen_wins seen (xs @ ys) =
     first_seen_wins seen xs @ first_seen_wins (seen \<union> source_key ` set xs) ys"
  by (induction xs arbitrary: seen) (simp_all add: insert_absorb)

lemma first_seen_wins_keys:
  "source_key ` set (first_seen_wins seen cs) = source_key ` set cs - seen"
  by (induction cs arbitrary: seen) auto

lemma first_seen_wins_distinct: "distinct (map source_key (first_seen_wins seen cs))"
proof (induction cs arbitrary: seen)
  case Nil
  then show ?case by simp
next
  case (Cons c cs)
  have "source_key c \<notin> source_key ` set (first_seen_wins (insert (source_key c) seen) cs)"
    by (simp add: first_seen_wins_keys)
  with Cons show ?case by simp
qed

lemma first_seen_wins_find:
  "s \<in> set (first_seen_wins seen cs) \<Longrightarrow>
   find (\<lambda>c. source_key c = source_key s) cs = Some s"
proof (induction cs arbitrary: seen)
  case Nil
  then show ?case by simp
next
  case (Cons c cs)
  show ?case
  proof (cases "source_key c \<in> seen")
    case True
    with Cons.prems have m: "s \<in> set (first_seen_wins seen cs)" by simp
    then have "source_key s \<in> source_key ` set cs - seen"
      using first_seen_wins_keys [of seen cs] by blast
    then have "source_key c \<noteq> source_key s" using True by auto
    with Cons.IH [OF m] show ?thesis by simp
  next
    case False
    show ?thesis
    proof (cases "s = c")
      case True
      then show ?thesis by simp
    next
      case ne: False
      with Cons.prems False have m: "s \<in> set (first_seen_wins (insert (source_key c) seen) cs)"
        by simp
      then have "source_key s \<in> source_key ` set cs - insert (source_key c) seen"
        using first_seen_wins_keys [of "insert (source_key c) seen" cs] by blast
      then have "source_key c \<noteq> source_key s" by auto
      with Cons.IH [OF m] show ?thesis by simp
    qed
  qed
qed

lemma first_seen_wins_subseq: "subseq (first_seen_wins seen cs) cs"
  by (induction cs arbitrary: seen) auto

lemma source_key_mk_source [simp]: "source_key (mk_source u t d c) = py_hash_key u"
  by (simp add: source_key_def mk_source_def dict_get_def)

lemma scan_search_refines:
  "scan_search_results L srs (sources, seen) = Inr (sources', seen') \<Longrightarrow>
   sources' = sources @ first_seen_wins (Some ` seen) (concat (map (hit_source L) srs))
   \<and> Some ` seen' = Some ` seen \<union> source_key ` set (concat (map (hit_source L) srs))"
proof (induction srs arbitrary: sources seen)
  case Nil
  then show ?case by simp
next
  case (Cons sr srs)
  from Cons.prems obtain d where sr: "sr = JObj d" by (cases sr) simp_all
  let ?url = "dict_get d ''source'' (JStr [])"
  show ?case
  proof (cases "truthy ?url")
    case False
    then have "scan_search_results L srs (sources, seen) = Inr (sources', seen')"
      using Cons.prems sr by (simp add: Let_def)
    from Cons.IH [OF this] show ?thesis using False sr by (simp add: hit_source_def)
  next
    case True
    with Cons.prems sr obtain k where k: "py_hash_key ?url = Some k"
      by (cases "py_hash_key ?url") (simp_all add: Let_def)
    let ?c = "mk_source ?url (dict_get d ''title'' (JStr [])) (extract_domain L ?url)
                (dict_get d ''snippet'' (JStr []))"
    have hs: "hit_source L sr = [?c]" using True sr by (simp add: hit_source_def)
    show ?thesis
    proof (cases "k \<in> seen")
      case inseen: True
      then have "scan_search_results L srs (sources, seen) = Inr (sources', seen')"
        using Cons.prems sr True k by (simp add: Let_def)
      from Cons.IH [OF this] show ?thesis using hs k inseen by (auto simp: image_iff)
    next
      case notin: False
      then have "scan_search_results L srs (sources @ [?c], insert k seen) = Inr (sources', seen')"
        using Cons.prems sr True k by (simp add: Let_def)
      from Cons.IH [OF this] show ?thesis using hs k notin by (auto simp: image_iff)
    qed
  qed
qed

lemma scan_credible_refines:
  "scan_credible_sources L t cs (sources, seen) = Inr (sources', seen') \<Longrightarrow>
   sources' = sources @ first_seen_wins (Some ` seen) (map (credible_source L t) cs)
   \<and> Some ` seen' = Some ` seen \<union> source_key ` set (map (credible_source L t) cs)"
proof (induction cs arbitrary: sources seen)
  case Nil
  then show ?case by simp
next
  case (Cons c cs)
  from Cons.prems obtain k where k: "py_hash_key c = Some k"
    by (cases "py_hash_key c") simp_all
  have sk: "source_key (credible_source L t c) = Some k"
    using k by (simp add: credible_source_def)
  show ?case
  proof (cases "k \<in> seen")
    case True
    then have "scan_credible_sources L t cs (sources, seen) = Inr (sources', seen')"
      using Cons.prems k by simp
    from Cons.IH [OF this] show ?thesis using sk True by (auto simp: image_iff)
  next
    case False
    then have "scan_credible_sources L t cs
        (sources @ [credible_source L t c], insert k seen) = Inr (sources', seen')"
      using Cons.prems k by (simp add: credible_source_def)
    from Cons.IH [OF this] show ?thesis using sk False by (auto simp: image_iff)
  qed
qed

lemma scan_search_stable:
  "scan_search_results L srs st = Inr st' \<Longrightarrow>
   source_key ` set (concat (map (hit_source L) srs)) \<subseteq> Some ` seen2 \<Longrightarrow>
   scan_search_results L srs (s2, seen2) = Inr (s2, seen2)"
proof (induction srs arbitrary: st)
  case Nil
  then show ?case by simp
next
  case (Cons sr srs)
  obtain sources seen where st: "st = (sources, seen)" by (cases st)
  from Cons.prems(1) obtain d where sr: "sr = JObj d" by (cases sr) (simp_all add: st)
  let ?url = "dict_get d ''source'' (JStr [])"
  have sub: "source_key ` set (concat (map (hit_source L) srs)) \<subseteq> Some ` seen2"
    using Cons.prems(2) by auto
  show ?case
  proof (cases "truthy ?url")
    case False
    then have "scan_search_results L srs st = Inr st'"
      using Cons.prems(1) sr st by (simp add: Let_def)
    from Cons.IH [OF this sub] show ?thesis using False sr by (simp add: Let_def)
  next
    case True
    with Cons.prems(1) sr st obtain k where k: "py_hash_key ?url = Some k"
      by (cases "py_hash_key ?url") (simp_all add: Let_def)
    have "\<exists>st1. scan_search_results L srs st1 = Inr st'"
      using Cons.prems(1) sr st True k by (auto simp: Let_def split: if_splits)
    then obtain st1 where r: "scan_search_results L srs st1 = Inr st'" by blast
    have "k \<in> seen2"
      using Cons.prems(2) True sr k by (auto simp: hit_source_def)
    moreover have "scan_search_results L srs (s2, seen2) = Inr (s2, seen2)"
      using Cons.IH [OF r sub] .
    ultimately show ?thesis using sr True k by (simp add: Let_def)
  qed
qed

lemma scan_credible_stable:
  "scan_credible_sources L t cs st = Inr st' \<Longrightarrow>
   source_key ` set (map (credible_source L t) cs) \<subseteq> Some ` seen2 \<Longrightarrow>
   scan_credible_sources L t cs (s2, seen2) = Inr (s2, seen2)"
proof (induction cs arbitrary: st)
  case Nil
  then show ?case by simp
next
  case (Cons c cs)
  obtain sources seen where st: "st = (sources, seen)" by (cases st)
  from Cons.prems(1) obtain k where k: "py_hash_key c = Some k"
    by (cases "py_hash_key c") (simp_all add: st)
  have "\<exists>st1. scan_credible_sources L t cs st1 = Inr st'"
    using Cons.prems(1) st k by (auto split: if_splits)
  then obtain st1 where r: "scan_credible_sources L t cs st1 = Inr st'" by blast
  have "k \<in> seen2"
    using Cons.prems(2) k by (auto simp: credible_source_def)
  moreover have "scan_credible_sources L t cs (s2, seen2) = Inr (s2, seen2)"
    using Cons.IH [OF r] Cons.prems(2) by simp
  ultimately show ?case using k by simp
qed

lemma extract_result_stages:
  assumes "extract_result L result st = Inr st'"
  shows "\<exists>srs cs.
           search_candidates L result = concat (map (hit_source L) srs)
         \<and> credible_candidates L result = map (credible_source L (agent_title L result)) cs
         \<and> (\<forall>st2. extract_result L result st2 =
                and_then (scan_search_results L srs st2)
                  (scan_credible_sources L (agent_title L result) cs))"
proof -
  have s: "\<exists>srs. search_candidates L result = concat (map (hit_source L) srs)
      \<and> (\<forall>st2. (if dict_has result ''search_results'' then
                   and_then (py_iter (dict_get result ''search_results'' JNull))
                     (\<lambda>search_results. scan_search_results L search_results st2)
                 else Inr st2) = scan_search_results L srs st2)"
  proof (cases "dict_has result ''search_results''")
    case False
    then have "search_candidates L result = concat (map (hit_source L) [])"
      by (simp add: search_candidates_def dict_has_def dict_get_def)
    with False show ?thesis by (intro exI [of _ "[]"]) simp
  next
    case True
    then have g: "dict_get result ''search_results'' JNull = dict_get result ''search_results'' (JList [])"
      by (auto simp: dict_has_def dict_get_def)
    from assms True obtain srs where i: "py_iter (dict_get result ''search_results'' JNull) = Inr srs"
      by (auto simp: extract_result_def and_then_eq_Inr)
    then have "search_candidates L result = concat (map (hit_source L) srs)"
      using g by (simp add: search_candidates_def)
    with True i show ?thesis by (intro exI [of _ srs]) simp
  qed
  then obtain srs where sc: "search_candidates L result = concat (map (hit_source L) srs)"
    and se: "\<And>st2. (if dict_has result ''search_results'' then
                   and_then (py_iter (dict_get result ''search_results'' JNull))
                     (\<lambda>search_results. scan_search_results L search_results st2)
                 else Inr st2) = scan_search_results L srs st2"
    by blast
  from assms obtain st1 where st1: "scan_search_results L srs st = Inr st1"
    and rest: "(if dict_has result ''evaluation'' then
            and_then (py_contains_str ''credible_sources'' (dict_get result ''evaluation'' JNull))
              (\<lambda>has_credible.
                 if has_credible then
                   and_then (py_getitem_str (dict_get result ''evaluation'' JNull) ''credible_sources'')
                     (\<lambda>credible. and_then (py_iter credible)
                        (\<lambda>credible_sources.
                           scan_credible_sources L (agent_title L result) credible_sources st1))
                 else Inr st1)
          else Inr st1) = Inr st'"
    unfolding extract_result_def se agent_title_def by (auto simp: and_then_eq_Inr)
  let ?ev = "dict_get result ''evaluation'' JNull"
  have c: "\<exists>cs. credible_candidates L result = map (credible_source L (agent_title L result)) cs
      \<and> (\<forall>st2. (if dict_has result ''evaluation'' then
            and_then (py_contains_str ''credible_sources'' ?ev)
              (\<lambda>has_credible.
                 if has_credible then
                   and_then (py_getitem_str ?ev ''credible_sources'')
                     (\<lambda>credible. and_then (py_iter credible)
                        (\<lambda>credible_sources.
                           scan_credible_sources L (agent_title L result) credible_sources st2))
                 else Inr st2)
          else Inr st2) = scan_credible_sources L (agent_title L result) cs st2)"
  proof (cases "dict_has result ''evaluation''")
    case False
    then have "?ev = JNull" by (simp add: dict_has_def dict_get_def)
    then have "credible_candidates L result = map (credible_source L (agent_title L result)) []"
      by (simp add: credible_candidates_def)
    with False show ?thesis by (intro exI [of _ "[]"]) simp
  next
    case True
    from rest True obtain has where h: "py_contains_str ''credible_sources'' ?ev = Inr has"
      by (auto simp: and_then_eq_Inr)
    show ?thesis
    proof (cases has)
      case False
      have "credible_candidates L result = map (credible_source L (agent_title L result)) []"
        using h False
        by (cases ?ev) (auto simp: credible_candidates_def dict_has_def dict_get_def
            split: option.splits)
      with True h False show ?thesis by (intro exI [of _ "[]"]) simp
    next
      case has: True
      from rest True h has obtain credible cs where
        g: "py_getitem_str ?ev ''credible_sources'' = Inr credible"
        and i: "py_iter credible = Inr cs"
        by (auto simp: and_then_eq_Inr)
      from g obtain e where e: "?ev = JObj e" by (cases ?ev) simp_all
      have "dict_get e ''credible_sources'' (JList []) = credible"
        using g e by (auto simp: dict_get_def split: option.splits)
      then have "credible_candidates L result = map (credible_source L (agent_title L result)) cs"
        using e i by (simp add: credible_candidates_def agent_title_def)
      with True h has g i show ?thesis by (intro exI [of _ cs]) simp
    qed
  qed
  then obtain cs where cc: "credible_candidates L result = map (credible_source L (agent_title L result)) cs"
    and ce: "\<And>st2. (if dict_has result ''evaluation'' then
            and_then (py_contains_str ''credible_sources'' ?ev)
              (\<lambda>has_credible.
                 if has_credible then
                   and_then (py_getitem_str ?ev ''credible_sources'')
                     (\<lambda>credible. and_then (py_iter credible)
                        (\<lambda>credible_sources.
                           scan_credible_sources L (agent_title L result) credible_sources st2))
                 else Inr st2)
          else Inr st2) = scan_credible_sources L (agent_title L result) cs st2"
    by blast
  have "extract_result L result st2 =
          and_then (scan_search_results L srs st2) (scan_credible_sources L (agent_title L result) cs)"
    for st2
    unfolding extract_result_def se agent_title_def [symmetric] ce ..
  with sc cc show ?thesis by blast
qed

lemma extract_result_refines:
  assumes "extract_result L result (sources, seen) = Inr (sources', seen')"
  shows "sources' = sources @ first_seen_wins (Some ` seen) (result_candidates L result)"
    and "Some ` seen' = Some ` seen \<union> source_key ` set (result_candidates L result)"
proof -
  from extract_result_stages [OF assms] obtain srs cs where
    sc: "search_candidates L result = concat (map (hit_source L) srs)"
    and cc: "credible_candidates L result = map (credible_source L (agent_title L result)) cs"
    and e: "\<And>st2. extract_result L result st2 =
                and_then (scan_search_results L srs st2)
                  (scan_credible_sources L (agent_title L result) cs)"
    by blast
  from assms e obtain s1 seen1 where
    a: "scan_search_results L srs (sources, seen) = Inr (s1, seen1)"
    and b: "scan_credible_sources L (agent_title L result) cs (s1, seen1) = Inr (sources', seen')"
    by (auto simp: and_then_eq_Inr)
  note ra = scan_search_refines [OF a] and rb = scan_credible_refines [OF b]
  show "sources' = sources @ first_seen_wins (Some ` seen) (result_candidates L result)"
    using ra rb by (simp add: result_candidates_def sc cc first_seen_wins_append)
  show "Some ` seen' = Some ` seen \<union> source_key ` set (result_candidates L result)"
    using ra rb by (simp add: result_candidates_def sc cc image_Un Un_assoc)
qed

lemma extract_result_stable:
  assumes "extract_result L result st = Inr st'"
    and "source_key ` set (result_candidates L result) \<subseteq> Some ` seen2"
  shows "extract_result L result (s2, seen2) = Inr (s2, seen2)"
proof -
  from extract_result_stages [OF assms(1)] obtain srs cs where
    sc: "search_candidates L result = concat (map (hit_source L) srs)"
    and cc: "credible_candidates L result = map (credible_source L (agent_title L result)) cs"
    and e: "\<And>st2. extract_result L result st2 =
                and_then (scan_search_results L srs st2)
                  (scan_credible_sources L (agent_title L result) cs)"
    by blast
  from assms(1) e obtain st1 where
    a: "scan_search_results L srs st = Inr st1"
    and b: "scan_credible_sources L (agent_title L result) cs st1 = Inr st'"
    by (auto simp: and_then_eq_Inr)
  have "scan_search_results L srs (s2, seen2) = Inr (s2, seen2)"
    using scan_search_stable [OF a] assms(2) by (simp add: result_candidates_def sc image_Un)
  moreover have "scan_credible_sources L (agent_title L result) cs (s2, seen2) = Inr (s2, seen2)"
    using scan_credible_stable [OF b] assms(2) by (simp add: result_candidates_def cc image_Un)
  ultimately show ?thesis by (simp add: e)
qed

lemma candidates_Cons:
  "candidates L (r # rs) = result_candidates L r @ candidates L rs"
  by (simp add: candidates_def result_candidates_def)

lemma extract_loop_refines:
  "extract_loop L rs (sources, seen) = Inr (sources', seen') \<Longrightarrow>
   sources' = sources @ first_seen_wins (Some ` seen) (candidates L rs)
   \<and> Some ` seen' = Some ` seen \<union> source_key ` set (candidates L rs)"
proof (induction rs arbitrary: sources seen)
  case Nil
  then show ?case by (simp add: candidates_def)
next
  case (Cons r rs)
  from Cons.prems obtain s1 seen1 where
    a: "extract_result L r (sources, seen) = Inr (s1, seen1)"
    and b: "extract_loop L rs (s1, seen1) = Inr (sources', seen')"
    by (auto simp: and_then_eq_Inr)
  note ra = extract_result_refines [OF a] and rb = Cons.IH [OF b]
  show ?case
    using ra rb by (simp add: candidates_Cons first_seen_wins_append image_Un Un_assoc)
qed

lemma extract_loop_stable:
  "extract_loop L rs st = Inr st' \<Longrightarrow>
   source_key ` set (candidates L rs) \<subseteq> Some ` seen2 \<Longrightarrow>
   extract_loop L rs (s2, seen2) = Inr (s2, seen2)"
proof (induction rs arbitrary: st)
  case Nil
  then show ?case by simp
next
  case (Cons r rs)
  from Cons.prems(1) obtain st1 where
    a: "extract_result L r st = Inr st1"
    and b: "extract_loop L rs st1 = Inr st'"
    by (auto simp: and_then_eq_Inr)
  have "extract_result L r (s2, seen2) = Inr (s2, seen2)"
    using extract_result_stable [OF a] Cons.prems(2) by (simp add: candidates_Cons image_Un)
  moreover have "extract_loop L rs (s2, seen2) = Inr (s2, seen2)"
    using Cons.IH [OF b] Cons.prems(2) by (simp add: candidates_Cons image_Un)
  ultimately show ?case by simp
qed

lemma extract_loop_append:
  "extract_loop L (xs @ ys) st = and_then (extract_loop L xs st) (extract_loop L ys)"
proof (induction xs arbitrary: st)
  case Nil
  then show ?case by simp
next
  case (Cons x xs)
  then show ?case by (cases "extract_result L x st") simp_all
qed

text \<open>
  C3. Whenever \<open>extract_sources\<close> returns, the source list is the first-seen-wins
  deduplication of the candidates, in their order: no two sources have the same url, every source is the
  first candidate with its url in the order of the scan (so its title and context are
  those of the first occurrence), every candidate url is represented, and extracting
  again over the same results changes nothing: the extraction is a function of the
  results alone, and a second pass over them, continued from the state the first pass
  reached, adds no source, so the results taken twice give the same list.
\<close>

theorem extract_sources_first_seen_wins:
  assumes "extract_sources L subagent_results = Inr sources"
  shows "sources = first_seen_wins {} (candidates L subagent_results)
       \<and> subseq sources (candidates L subagent_results)
       \<and> distinct (map source_key sources)
       \<and> (\<forall>s \<in> set sources.
             find (\<lambda>c. source_key c = source_key s) (candidates L subagent_results) = Some s)
       \<and> source_key ` set sources = source_key ` set (candidates L subagent_results)
       \<and> None \<notin> source_key ` set sources
       \<and> extract_sources L (subagent_results @ subagent_results) = Inr sources"
proof -
  from assms obtain seen where
    l: "extract_loop L subagent_results ([], {}) = Inr (sources, seen)"
    by (auto simp: extract_sources_def and_then_eq_Inr)
  from extract_loop_refines [OF l] have
    r: "sources = first_seen_wins {} (candidates L subagent_results)"
    and k: "Some ` seen = source_key ` set (candidates L subagent_results)"
    by simp_all
  have d: "distinct (map source_key sources)"
    unfolding r by (rule first_seen_wins_distinct)
  have sq: "subseq sources (candidates L subagent_results)"
    unfolding r by (rule first_seen_wins_subseq)
  have f: "\<forall>s \<in> set sources.
             find (\<lambda>c. source_key c = source_key s) (candidates L subagent_results) = Some s"
    unfolding r by (blast intro: first_seen_wins_find)
  have ks: "source_key ` set sources = source_key ` set (candidates L subagent_results)"
    unfolding r by (simp add: first_seen_wins_keys)
  have "extract_loop L subagent_results (sources, seen) = Inr (sources, seen)"
    using extract_loop_stable [OF l] k by simp
  then have "extract_sources L (subagent_results @ subagent_results) = Inr sources"
    by (simp add: extract_sources_def extract_loop_append l)
  moreover have "None \<notin> source_key ` set sources"
    using ks k by (metis image_iff option.distinct(1))
  ultimately show ?thesis using r sq d f ks by blast
qed

lemma demo_candidates:
  "candidates demo_lib demo_results =
     [mk_source (JStr ''a.com'') (JStr ''A'') (JStr ''a.com'') (JStr ''about a''),
      mk_source (JStr ''b.com'') (JStr ''B'') (JStr ''b.com'') (JStr ''about b''),
      mk_source (JStr ''a.com'') (JStr ''A again'') (JStr ''a.com'') (JStr ''more a''),
      mk_source (JStr ''b.com'') (JStr ''Source from Subagent_task_1'') (JStr ''b.com'')
        (JStr ''Credible source identified by subagent''),
      mk_source (JStr ''c.com'') (JStr ''Source from Subagent_task_1'') (JStr ''c.com'')
        (JStr ''Credible source identified by subagent'')]"
  by (simp add: candidates_def search_candidates_def credible_candidates_def hit_source_def
      credible_source_def demo_results_def dict_get_def extract_domain_def demo_lib_def)

text \<open>
  The demonstration results offer five candidates for three urls; the second hit for
  \<open>a.com\<close> and the credible source \<open>b.com\<close> lose to the first occurrences.
\<close>

theorem extract_sources_first_seen_wins_witness:
  "extract_sources demo_lib demo_results = Inr demo_sources
   \<and> demo_sources = first_seen_wins {} (candidates demo_lib demo_results)
   \<and> distinct (map source_key demo_sources)
   \<and> find (\<lambda>c. source_key c = Some (KStr ''a.com'')) (candidates demo_lib demo_results)
        = Some (mk_source (JStr ''a.com'') (JStr ''A'') (JStr ''a.com'') (JStr ''about a''))
   \<and> length (candidates demo_lib demo_results) = 5 \<and> length demo_sources = 3
   \<and> extract_sources demo_lib (demo_results @ demo_results) = Inr demo_sources"
proof -
  note t = extract_sources_first_seen_wins [OF demo_extract]
  have m: "mk_source (JStr ''a.com'') (JStr ''A'') (JStr ''a.com'') (JStr ''about a'')
             \<in> set demo_sources"
    by (simp add: demo_sources_def)
  from t m have "find (\<lambda>c. source_key c
        = source_key (mk_source (JStr ''a.com'') (JStr ''A'') (JStr ''a.com'') (JStr ''about a'')))
        (candidates demo_lib demo_results)
        = Some (mk_source (JStr ''a.com'') (JStr ''A'') (JStr ''a.com'') (JStr ''about a''))"
    by blast
  then have f: "find (\<lambda>c. source_key c = Some (KStr ''a.com'')) (candidates demo_lib demo_results)
        = Some (mk_source (JStr ''a.com'') (JStr ''A'') (JStr ''a.com'') (JStr ''about a''))"
    by simp
  have l: "length (candidates demo_lib demo_results) = 5" "length demo_sources = 3"
    by (simp_all add: demo_candidates demo_sources_def)
  from t f l demo_extract show ?thesis by blast
qed

subsection \<open>Citations refer to sources\<close>

lemma list_all2_filter_member:
  "list_all2 P (filter Q xs) ys \<Longrightarrow> x \<in> set xs \<Longrightarrow> Q x \<Longrightarrow> \<exists>y \<in> set ys. P x y"
proof -
  assume a: "list_all2 P (filter Q xs) ys" and "x \<in> set xs" and "Q x"
  then have "x \<in> set (filter Q xs)" by simp
  then obtain i where i: "i < length (filter Q xs)" "filter Q xs ! i = x"
    unfolding in_set_conv_nth by blast
  from a i have "P x (ys ! i)" "i < length ys"
    by (auto simp: list_all2_conv_all_nth)
  then show ?thesis by (metis nth_mem)
qed

lemma missing_index_backfilled:
  assumes "map_of citation ''source_index'' = None" and "sources \<noteq> []"
  shows "in_bounds sources (JObj citation)"
    and "backfilled sources (JObj citation) v \<Longrightarrow>
         v = JObj (AList.update ''source_title'' (dict_get (hd sources) ''title'' JNull)
                    (AList.update ''source_url'' (dict_get (hd sources) ''url'' JNull) citation))"
  using assms
  by (simp_all add: in_bounds_def backfilled_def citation_index_def dict_get_def hd_conv_nth)

text \<open>
  C4. Whenever \<open>process_report\<close> returns a report, every citation in the citation list of
  its cited report is valid for the source list of that same report: its index (the
  \<open>source_index\<close> field, 0 when absent) lies in \<open>[0, len(sources))\<close>, and its \<open>source_url\<close> and
  \<open>source_title\<close> are the url and title of the source at that index. For one section, the
  validated citations are, in order, exactly the returned citations whose index is in
  bounds, each with the two fields set from its source: every returned citation whose
  index is out of bounds is discarded.
\<close>

theorem citation_indices_valid:
  "(process_report L reply now synth subagent_results = Inr report \<longrightarrow>
      (\<exists>sources cited_report citations.
          map_of report ''sources_used'' = Some (JList (map JObj sources))
        \<and> map_of report ''cited_report'' = Some (JObj cited_report)
        \<and> map_of cited_report ''citations'' = Some (JList citations)
        \<and> list_all (citation_valid sources) citations))
   \<and> (process_section_for_citations L response content srcs = Inr r \<and> truthy content \<longrightarrow>
      (\<exists>cited_content validated.
          r = section_result cited_content validated
        \<and> list_all2 (backfilled srcs)
             (filter (in_bounds srcs) (returned_citations L response)) validated))"
proof (intro conjI impI)
  assume "process_report L reply now synth subagent_results = Inr report"
  from process_report_fields [OF this] obtain all_sources cited_report where
    a: "add_citations L reply synth all_sources = Inr cited_report"
    and s: "map_of report ''sources_used'' = Some (JList (map JObj all_sources))"
    and c: "map_of report ''cited_report'' = Some (JObj cited_report)"
    by blast
  from add_citations_fields [OF a] obtain sections cited_sections all_citations where
    cs: "cite_sections L reply all_sources sections ([], []) = Inr (cited_sections, all_citations)"
    and m: "map_of cited_report ''citations'' = Some (JList all_citations)"
    by blast
  have "list_all (citation_valid all_sources) all_citations"
    using cite_sections_valid [OF cs] by simp
  with s c m show "\<exists>sources cited_report citations.
          map_of report ''sources_used'' = Some (JList (map JObj sources))
        \<and> map_of report ''cited_report'' = Some (JObj cited_report)
        \<and> map_of cited_report ''citations'' = Some (JList citations)
        \<and> list_all (citation_valid sources) citations"
    by blast
next
  assume h: "process_section_for_citations L response content srcs = Inr r \<and> truthy content"
  from section_citations [of L response content srcs r] h
  show "\<exists>cited_content validated.
          r = section_result cited_content validated
        \<and> list_all2 (backfilled srcs)
             (filter (in_bounds srcs) (returned_citations L response)) validated"
    by blast
qed

text \<open>
  The demonstration run: of the four returned citations, the two with index 7 and -1 are
  dropped, the one with index 1 and the one without index are kept.
\<close>

theorem citation_indices_valid_witness:
  "process_report demo_lib (\<lambda>n. demo_cite_text) ''t0'' demo_synthesis demo_results = Inr demo_report
   \<and> (\<exists>sources cited_report citations.
          map_of demo_report ''sources_used'' = Some (JList (map JObj sources))
        \<and> map_of cited_report ''citations'' = Some (JList citations)
        \<and> map_of demo_report ''cited_report'' = Some (JObj cited_report)
        \<and> list_all (citation_valid sources) citations)
   \<and> process_section_for_citations demo_lib demo_cite_text (JStr ''summary'') demo_sources
        = Inr (section_result (JStr ''cited'') demo_citations)
   \<and> truthy (JStr ''summary'')
   \<and> (\<exists>cited_content validated.
          section_result (JStr ''cited'') demo_citations = section_result cited_content validated
        \<and> list_all2 (backfilled demo_sources)
             (filter (in_bounds demo_sources) (returned_citations demo_lib demo_cite_text)) validated)"
proof -
  note t = citation_indices_valid [of demo_lib "\<lambda>n. demo_cite_text" "''t0''" demo_synthesis
      demo_results demo_report demo_cite_text "JStr ''summary''" demo_sources
      "section_result (JStr ''cited'') demo_citations"]
  have tr: "truthy (JStr ''summary'')" by simp
  from t demo_process_report demo_section tr show ?thesis by blast
qed

text \<open>
  C10. When the reply to a citation request decodes and no exception is raised, a
  returned citation object without a \<open>source_index\<close> field is kept whenever the source list
  is not empty: it appears among the validated citations of its section, and in the
  citation list of the cited report, with \<open>source_url\<close> and \<open>source_title\<close> taken from the
  first source.
\<close>

theorem missing_source_index_kept:
  assumes "truthy content" and "sources \<noteq> []"
    and "JObj citation \<in> set (returned_citations L (reply name))"
    and "map_of citation ''source_index'' = None"
  shows "(process_section_for_citations L (reply name) content sources = Inr r \<longrightarrow>
           (\<exists>cited_content validated.
               r = section_result cited_content validated
             \<and> JObj (AList.update ''source_title'' (dict_get (hd sources) ''title'' JNull)
                      (AList.update ''source_url'' (dict_get (hd sources) ''url'' JNull) citation))
                 \<in> set validated))
       \<and> (add_citations L reply synth sources = Inr cited_report
            \<and> content_sections synth = Inr sections \<and> (name, content) \<in> set sections \<longrightarrow>
           (\<exists>citations.
               map_of cited_report ''citations'' = Some (JList citations)
             \<and> JObj (AList.update ''source_title'' (dict_get (hd sources) ''title'' JNull)
                      (AList.update ''source_url'' (dict_get (hd sources) ''url'' JNull) citation))
                 \<in> set citations))"
proof (intro conjI impI)
  let ?kept = "JObj (AList.update ''source_title'' (dict_get (hd sources) ''title'' JNull)
                      (AList.update ''source_url'' (dict_get (hd sources) ''url'' JNull) citation))"
  have kept: "?kept \<in> set validated"
    if "list_all2 (backfilled sources)
          (filter (in_bounds sources) (returned_citations L (reply name))) validated"
    for validated
  proof -
    from list_all2_filter_member [OF that assms(3) missing_index_backfilled(1) [OF assms(4,2)]]
    obtain v where v: "v \<in> set validated" "backfilled sources (JObj citation) v" by blast
    from missing_index_backfilled(2) [OF assms(4,2) v(2)] v(1) show ?thesis by simp
  qed
  {
    assume "process_section_for_citations L (reply name) content sources = Inr r"
    from section_citations [OF this] assms(1) obtain cited_content validated where
      "r = section_result cited_content validated"
      "list_all2 (backfilled sources)
          (filter (in_bounds sources) (returned_citations L (reply name))) validated"
      by blast
    with kept show "\<exists>cited_content validated.
               r = section_result cited_content validated \<and> ?kept \<in> set validated"
      by blast
  }
  {
    assume h: "add_citations L reply synth sources = Inr cited_report
            \<and> content_sections synth = Inr sections \<and> (name, content) \<in> set sections"
    from add_citations_fields [of L reply synth sources cited_report] h
    obtain cited_sections all_citations where
      cs: "cite_sections L reply sources sections ([], []) = Inr (cited_sections, all_citations)"
      and m: "map_of cited_report ''citations'' = Some (JList all_citations)"
      by auto
    from cite_sections_keeps [OF cs _ assms(1)] h obtain validated where
      "list_all2 (backfilled sources)
          (filter (in_bounds sources) (returned_citations L (reply name))) validated"
      "set validated \<subseteq> set all_citations"
      by blast
    with kept have "?kept \<in> set all_citations" by blast
    with m show "\<exists>citations. map_of cited_report ''citations'' = Some (JList citations)
             \<and> ?kept \<in> set citations"
      by blast
  }
qed


theorem missing_source_index_kept_witness:
  "truthy (JStr ''summary'') \<and> demo_sources \<noteq> []
   \<and> JObj [(''claim'', JStr ''c3'')] \<in> set (returned_citations demo_lib demo_cite_text)
   \<and> map_of [(''claim'', JStr ''c3'')] ''source_index'' = None
   \<and> process_section_for_citations demo_lib demo_cite_text (JStr ''summary'') demo_sources
        = Inr (section_result (JStr ''cited'') demo_citations)
   \<and> add_citations demo_lib (\<lambda>n. demo_cite_text) demo_synthesis demo_sources = Inr demo_cited_report
   \<and> content_sections demo_synthesis = Inr [(''executive_summary'', JStr ''summary'')]
   \<and> (\<exists>cited_content validated.
         section_result (JStr ''cited'') demo_citations = section_result cited_content validated
       \<and> JObj [(''claim'', JStr ''c3''), (''source_url'', JStr ''a.com''),
               (''source_title'', JStr ''A'')] \<in> set validated)
   \<and> (\<exists>citations.
         map_of demo_cited_report ''citations'' = Some (JList citations)
       \<and> JObj [(''claim'', JStr ''c3''), (''source_url'', JStr ''a.com''),
               (''source_title'', JStr ''A'')] \<in> set citations)"
proof -
  have h1: "truthy (JStr ''summary'')" by simp
  have h2: "demo_sources \<noteq> []" by (simp add: demo_sources_def)
  have h3: "JObj [(''claim'', JStr ''c3'')] \<in> set (returned_citations demo_lib demo_cite_text)"
    by (simp add: demo_returned)
  have h4: "map_of [(''claim'', JStr ''c3'')] ''source_index'' = None" by simp
  have h5: "content_sections demo_synthesis = Inr [(''executive_summary'', JStr ''summary'')]"
    by (simp add: content_sections_def demo_synthesis_def dict_has_def dict_get_def)
  have k: "JObj (AList.update ''source_title'' (dict_get (hd demo_sources) ''title'' JNull)
              (AList.update ''source_url'' (dict_get (hd demo_sources) ''url'' JNull)
                 [(''claim'', JStr ''c3'')]))
           = JObj [(''claim'', JStr ''c3''), (''source_url'', JStr ''a.com''),
                   (''source_title'', JStr ''A'')]"
    by (simp add: demo_sources_def mk_source_def dict_get_def)
  note t = missing_source_index_kept [where reply = "\<lambda>n. demo_cite_text"
      and name = "''executive_summary''" and L = demo_lib
      and r = "section_result (JStr ''cited'') demo_citations"
      and synth = demo_synthesis and cited_report = demo_cited_report
      and sections = "[(''executive_summary'', JStr ''summary'')]", OF h1 h2 h3 h4, unfolded k]
  from t h1 h2 h3 h4 h5 demo_section demo_add_citations show ?thesis by simp
qed

subsection \<open>Task decomposition\<close>

lemma dict_has_with_id: "dict_has (with_id p t) ''id''"
  unfolding with_id_def by (cases "dict_has t ''id''") (simp_all add: dict_has_def update_conv')

lemma assign_ids_dicts:
  "assign_ids i (map JObj ts) = Inr (map JObj (map (\<lambda>(k, t). with_id (k + 1) t) (enumerate i ts)))"
proof (induction ts arbitrary: i)
  case Nil
  then show ?case by simp
next
  case (Cons t ts)
  show ?case
    using Cons.IH [of "i + 1"] by (simp add: with_id_def)
qed

lemma str_nat_1_2:
  "str_nat (Suc 0) = ''1''" "str_nat (Suc (Suc 0)) = ''2''" "str_nat 1 = ''1''" "str_nat 2 = ''2''"
  by code_simp+

text \<open>
  C6 (as amended). On a reply that does not decode, \<open>decompose_tasks\<close> returns, without
  raising, exactly two canned tasks with the ids \<^verbatim>\<open>task_1\<close> and \<^verbatim>\<open>task_2\<close>, a general
  overview and a recent-trends task, whose search queries are built from the query. On a
  reply that decodes to a list of task objects it returns as many tasks as the reply has,
  in the reply's order: a task with an id is returned unchanged, a task without one gets
  \<^verbatim>\<open>task_\<close> followed by its position counted from 1, so every returned task carries an id.
  The number of tasks is not bounded and the ids are not made unique.
\<close>

theorem decompose_tasks_ids:
  "(json_loads L response = None \<longrightarrow>
      (\<exists>t1 t2. decompose_tasks L response query = Inr (JList [JObj t1, JObj t2])
         \<and> map_of t1 ''id'' = Some (JStr ''task_1'')
         \<and> map_of t2 ''id'' = Some (JStr ''task_2'')
         \<and> map_of t1 ''title'' = Some (JStr ''General Information Search'')
         \<and> map_of t2 ''title'' = Some (JStr ''Current Trends and Developments'')
         \<and> map_of t1 ''search_queries''
              = Some (JList [query, JStr (''what is '' @ py_str L query)])
         \<and> map_of t2 ''search_queries''
              = Some (JList [JStr (py_str L query @ '' 2024''), JStr (py_str L query @ '' trends''),
                             JStr (py_str L query @ '' latest'')])))
   \<and> (json_loads L response = Some (JList (map JObj tasks)) \<longrightarrow>
      (\<exists>tasks'. decompose_tasks L response query = Inr (JList (map JObj tasks'))
         \<and> length tasks' = length tasks
         \<and> (\<forall>i < length tasks.
               tasks' ! i = with_id (i + 1) (tasks ! i) \<and> dict_has (tasks' ! i) ''id'')))"
proof (intro conjI impI)
  assume "json_loads L response = None"
  then show "\<exists>t1 t2. decompose_tasks L response query = Inr (JList [JObj t1, JObj t2])
         \<and> map_of t1 ''id'' = Some (JStr ''task_1'')
         \<and> map_of t2 ''id'' = Some (JStr ''task_2'')
         \<and> map_of t1 ''title'' = Some (JStr ''General Information Search'')
         \<and> map_of t2 ''title'' = Some (JStr ''Current Trends and Developments'')
         \<and> map_of t1 ''search_queries''
              = Some (JList [query, JStr (''what is '' @ py_str L query)])
         \<and> map_of t2 ''search_queries''
              = Some (JList [JStr (py_str L query @ '' 2024''), JStr (py_str L query @ '' trends''),
                             JStr (py_str L query @ '' latest'')])"
    by (simp add: decompose_tasks_def fallback_tasks_def)
next
  assume p: "json_loads L response = Some (JList (map JObj tasks))"
  let ?ts = "map (\<lambda>(k, t). with_id (k + 1) t) (enumerate 0 tasks)"
  have "decompose_tasks L response query = Inr (JList (map JObj ?ts))"
    using p by (simp add: decompose_tasks_def assign_ids_dicts)
  moreover have "length ?ts = length tasks" by simp
  moreover have "\<forall>i < length tasks. ?ts ! i = with_id (i + 1) (tasks ! i) \<and> dict_has (?ts ! i) ''id''"
    by (simp add: nth_enumerate_eq dict_has_with_id)
  ultimately show "\<exists>tasks'. decompose_tasks L response query = Inr (JList (map JObj tasks'))
         \<and> length tasks' = length tasks
         \<and> (\<forall>i < length tasks.
               tasks' ! i = with_id (i + 1) (tasks ! i) \<and> dict_has (tasks' ! i) ''id'')"
    by blast
qed

theorem decompose_tasks_ids_witness:
  "json_loads demo_lib ''not json'' = None
   \<and> json_loads demo_lib demo_two_tasks_text = Some (JList (map JObj demo_two_tasks))
   \<and> (\<exists>t1 t2. decompose_tasks demo_lib ''not json'' (JStr ''topic X'') = Inr (JList [JObj t1, JObj t2])
         \<and> map_of t1 ''id'' = Some (JStr ''task_1'')
         \<and> map_of t2 ''id'' = Some (JStr ''task_2'')
         \<and> map_of t1 ''search_queries'' = Some (JList [JStr ''topic X'', JStr ''what is topic X'']))
   \<and> (\<exists>tasks'. decompose_tasks demo_lib demo_two_tasks_text (JStr ''topic X'')
                   = Inr (JList (map JObj tasks'))
         \<and> length tasks' = 2
         \<and> tasks' ! 0 = [(''id'', JStr ''task_2''), (''title'', JStr ''A'')]
         \<and> tasks' ! 1 = [(''title'', JStr ''B''), (''id'', JStr ''task_2'')])"
proof -
  note a = decompose_tasks_ids [of demo_lib "''not json''" "JStr ''topic X''" demo_two_tasks]
  note b = decompose_tasks_ids [of demo_lib demo_two_tasks_text "JStr ''topic X''" demo_two_tasks]
  have w: "with_id (0 + 1) (demo_two_tasks ! 0) = [(''id'', JStr ''task_2''), (''title'', JStr ''A'')]"
    "with_id (1 + 1) (demo_two_tasks ! 1) = [(''title'', JStr ''B''), (''id'', JStr ''task_2'')]"
    "length demo_two_tasks = 2"
    by (simp_all add: with_id_def demo_two_tasks_def dict_has_def str_nat_1_2)
  from a demo_loads_not_json have
    1: "\<exists>t1 t2. decompose_tasks demo_lib ''not json'' (JStr ''topic X'') = Inr (JList [JObj t1, JObj t2])
         \<and> map_of t1 ''id'' = Some (JStr ''task_1'')
         \<and> map_of t2 ''id'' = Some (JStr ''task_2'')
         \<and> map_of t1 ''search_queries'' = Some (JList [JStr ''topic X'', JStr ''what is topic X''])"
    by auto
  from b demo_loads_two_tasks obtain tasks' where
    t: "decompose_tasks demo_lib demo_two_tasks_text (JStr ''topic X'') = Inr (JList (map JObj tasks'))"
      "length tasks' = length demo_two_tasks"
      "\<forall>i < length demo_two_tasks. tasks' ! i = with_id (i + 1) (demo_two_tasks ! i)"
    by auto
  from t(3) w(3) have "tasks' ! 0 = with_id (0 + 1) (demo_two_tasks ! 0)"
    "tasks' ! 1 = with_id (1 + 1) (demo_two_tasks ! 1)"
    by simp_all
  with w t have
    2: "\<exists>tasks'. decompose_tasks demo_lib demo_two_tasks_text (JStr ''topic X'')
                   = Inr (JList (map JObj tasks'))
         \<and> length tasks' = 2
         \<and> tasks' ! 0 = [(''id'', JStr ''task_2''), (''title'', JStr ''A'')]
         \<and> tasks' ! 1 = [(''title'', JStr ''B''), (''id'', JStr ''task_2'')]"
    by auto
  from 1 2 demo_loads_not_json demo_loads_two_tasks show ?thesis by blast
qed

text \<open>
  The claim as written promises 2 to 4 tasks with unique ids. The one-task reply of the
  repository's test comes back as one task; and a reply whose first task is named
  \<^verbatim>\<open>task_2\<close> and whose second task has no id comes back with the id \<^verbatim>\<open>task_2\<close> twice.
\<close>

theorem decompose_tasks_counterexample:
  "decompose_tasks demo_lib demo_one_task_text (JStr ''machine learning applications'')
     = Inr (JList [JObj demo_one_task])
   \<and> length [JObj demo_one_task] < 2
   \<and> decompose_tasks demo_lib demo_two_tasks_text (JStr ''machine learning applications'')
     = Inr (JList [JObj [(''id'', JStr ''task_2''), (''title'', JStr ''A'')],
                   JObj [(''title'', JStr ''B''), (''id'', JStr ''task_2'')]])
   \<and> \<not> distinct [JStr ''task_2'', JStr ''task_2'']"
  by (simp add: decompose_tasks_def demo_loads_one_task demo_loads_two_tasks demo_one_task_def
      demo_two_tasks_def dict_has_def str_nat_1_2)

subsection \<open>Synthesis\<close>

text \<open>
  C8 (as amended). On a reply that does not decode, \<open>synthesize_results\<close> returns, for
  every query and every result sequence and without raising, the fallback synthesis: it
  is well formed, its \<open>detailed_analysis\<close> is the raw text of the reply, its
  \<open>confidence_level\<close> is \<^verbatim>\<open>medium\<close> and its \<open>completeness_score\<close> is 70. On a reply that
  decodes to an object it returns that object with \<open>query\<close> and \<open>synthesis_timestamp\<close> set,
  with whatever other fields the reply has.
\<close>

theorem synthesize_results_fallback:
  "(json_loads L response = None \<longrightarrow>
      (\<exists>s. synthesize_results L response now query results = Inr s
         \<and> well_formed_synthesis s
         \<and> map_of s ''detailed_analysis'' = Some (JStr response)
         \<and> map_of s ''confidence_level'' = Some (JStr ''medium'')
         \<and> map_of s ''completeness_score'' = Some (JInt 70)))
   \<and> (json_loads L response = Some (JObj reply) \<longrightarrow>
        synthesize_results L response now query results
          = Inr (AList.update ''synthesis_timestamp'' (JStr now)
                  (AList.update ''query'' query reply)))"
  by (simp add: synthesize_results_def well_formed_synthesis_def dict_has_def dict_get_def
      is_str_def is_str_list_def)

theorem synthesize_results_fallback_witness:
  "json_loads demo_lib ''not json'' = None
   \<and> json_loads demo_lib ''{}'' = Some (JObj [])
   \<and> (\<exists>s. synthesize_results demo_lib ''not json'' ''t0'' (JStr ''topic X'') [] = Inr s
         \<and> well_formed_synthesis s
         \<and> map_of s ''detailed_analysis'' = Some (JStr ''not json'')
         \<and> map_of s ''confidence_level'' = Some (JStr ''medium'')
         \<and> map_of s ''completeness_score'' = Some (JInt 70))
   \<and> synthesize_results demo_lib ''{}'' ''t0'' (JStr ''topic X'') []
        = Inr [(''query'', JStr ''topic X''), (''synthesis_timestamp'', JStr ''t0'')]"
proof -
  note a = synthesize_results_fallback [where L = demo_lib and response = "''not json''"
      and now = "''t0''" and query = "JStr ''topic X''" and results = "[]" and reply = "[]"]
  note b = synthesize_results_fallback [where L = demo_lib and response = "''{}''"
      and now = "''t0''" and query = "JStr ''topic X''" and results = "[]" and reply = "[]"]
  from a b demo_loads_not_json demo_loads_empty_object show ?thesis by simp
qed

text \<open>
  The claim as written promises a well-formed synthesis for every reply. The reply \<^verbatim>\<open>{}\<close>
  decodes, and the synthesis returned has a query and a timestamp and no confidence
  level; the reply \<^verbatim>\<open>[]\<close> decodes to a list, and the assignment of the query raises.
\<close>

theorem synthesize_results_counterexample:
  "synthesize_results demo_lib ''{}'' ''t0'' (JStr ''topic X'') []
     = Inr [(''query'', JStr ''topic X''), (''synthesis_timestamp'', JStr ''t0'')]
   \<and> \<not> well_formed_synthesis [(''query'', JStr ''topic X''), (''synthesis_timestamp'', JStr ''t0'')]
   \<and> synthesize_results demo_lib ''[]'' ''t0'' (JStr ''topic X'') []
     = Inl (TypeError ''object does not support item assignment with a str key'')"
  by (simp add: synthesize_results_def demo_loads_empty_object demo_loads_empty_list
      well_formed_synthesis_def dict_has_def dict_get_def is_str_def)

subsection \<open>One round of sub-tasks\<close>

lemma make_subagents_dicts: "make_subagents (map JObj tasks) = Inr tasks"
  by (induction tasks) simp_all

lemma slice_to_map: "slice_to (map f xs) n = map f (slice_to xs n)"
  by (simp add: slice_to_def take_map)

lemma run_subagents_dicts:
  "run_subagents L cfg worlds now (JList (map JObj tasks)) query =
     Inr (map (processed_result L worlds now) (enumerate 0 (slice_to tasks (max_subagents cfg))))"
  by (simp add: run_subagents_def slice_to_map make_subagents_dicts)

lemma processed_result_fields:
  "map_of (processed_result L worlds now (i, task)) ''task'' = Some (JObj task)"
  "map_of (processed_result L worlds now (i, task)) ''agent'' = Some (JStr (subagent_name L task))"
  by (auto simp: processed_result_def research_def and_then_eq_Inr split: sum.splits)

lemma slice_to_nth: "i < length (slice_to xs n) \<Longrightarrow> slice_to xs n ! i = xs ! i"
  by (simp add: slice_to_def split: if_splits)

lemma slice_to_length:
  "length (slice_to xs n) \<le> length xs"
  "0 \<le> n \<Longrightarrow> length (slice_to xs n) = min (length xs) (nat n)"
  by (simp_all add: slice_to_def)

lemma demo_research_bad:
  "research demo_lib demo_task_world demo_bad_task = Inl (TypeError ''object is not iterable'')"
  by (simp add: research_def demo_bad_task_def dict_get_def)

lemma demo_research_good:
  "research demo_lib demo_task_world demo_good_task = Inr demo_good_result"
  by (simp add: research_def demo_good_task_def dict_get_def web_search_def demo_task_world_def
      evaluate_results_def demo_good_result_def subagent_name_def)

text \<open>
  C2 (as amended). For every list of tasks, \<open>run_subagents\<close> returns, whatever the
  individual tasks do, one result for each of the first \<open>max_subagents\<close> tasks and none
  for the others: the result list is as long as the task list cut at \<open>max_subagents\<close> (the
  smaller of the two lengths when \<open>max_subagents\<close> is not negative), and the result at each
  position carries the task at that position and the name of its subagent.
\<close>

theorem run_subagents_positions:
  "\<exists>results.
      run_subagents L cfg worlds now (JList (map JObj tasks)) query = Inr results
    \<and> length results = length (slice_to tasks (max_subagents cfg))
    \<and> length results \<le> length tasks
    \<and> (0 \<le> max_subagents cfg \<longrightarrow> length results = min (length tasks) (nat (max_subagents cfg)))
    \<and> (\<forall>i < length results.
          map_of (results ! i) ''task'' = Some (JObj (tasks ! i))
        \<and> map_of (results ! i) ''agent'' = Some (JStr (subagent_name L (tasks ! i))))"
proof -
  let ?ts = "slice_to tasks (max_subagents cfg)"
  let ?rs = "map (processed_result L worlds now) (enumerate 0 ?ts)"
  have "length ?rs = length ?ts" by simp
  moreover have "\<forall>i < length ?rs.
          map_of (?rs ! i) ''task'' = Some (JObj (tasks ! i))
        \<and> map_of (?rs ! i) ''agent'' = Some (JStr (subagent_name L (tasks ! i)))"
    by (simp add: nth_enumerate_eq processed_result_fields slice_to_nth)
  ultimately show ?thesis
    using run_subagents_dicts [of L cfg worlds now tasks query] slice_to_length [where xs = tasks and n = "max_subagents cfg"]
    by (intro exI [of _ ?rs]) simp
qed

theorem run_subagents_positions_witness:
  "0 \<le> max_subagents default_settings
   \<and> (\<exists>results.
        run_subagents demo_lib default_settings (\<lambda>i. demo_task_world) ''t1''
          (JList (map JObj [demo_bad_task, demo_good_task])) (JStr ''topic X'') = Inr results
      \<and> length results = 2
      \<and> map_of (results ! 0) ''task'' = Some (JObj demo_bad_task)
      \<and> map_of (results ! 1) ''task'' = Some (JObj demo_good_task))"
proof -
  from run_subagents_positions [of demo_lib default_settings "\<lambda>i. demo_task_world" "''t1''"
      "[demo_bad_task, demo_good_task]" "JStr ''topic X''"]
  obtain results where
    r: "run_subagents demo_lib default_settings (\<lambda>i. demo_task_world) ''t1''
          (JList (map JObj [demo_bad_task, demo_good_task])) (JStr ''topic X'') = Inr results"
    and l: "0 \<le> max_subagents default_settings \<longrightarrow>
         length results = min (length [demo_bad_task, demo_good_task]) (nat (max_subagents default_settings))"
    and f: "\<forall>i < length results.
          map_of (results ! i) ''task'' = Some (JObj ([demo_bad_task, demo_good_task] ! i))"
    by blast
  have m: "0 \<le> max_subagents default_settings" by (simp add: default_settings_def)
  with l have n: "length results = 2" by (simp add: default_settings_def)
  with f have "map_of (results ! 0) ''task'' = Some (JObj demo_bad_task)"
    "map_of (results ! 1) ''task'' = Some (JObj demo_good_task)"
    by auto
  with r n m show ?thesis by blast
qed

text \<open>
  The claim as written promises as many results as tasks. With the default setting of
  four subagents, five tasks give four results.
\<close>

theorem run_subagents_positions_counterexample:
  "length demo_five_tasks = 5
   \<and> (\<exists>results.
        run_subagents demo_lib default_settings (\<lambda>i. demo_task_world) ''t1''
          (JList (map JObj demo_five_tasks)) (JStr ''topic X'') = Inr results
      \<and> length results = 4)"
proof -
  let ?rs = "map (processed_result demo_lib (\<lambda>i. demo_task_world) ''t1'')
               (enumerate 0 (slice_to demo_five_tasks (max_subagents default_settings)))"
  have "run_subagents demo_lib default_settings (\<lambda>i. demo_task_world) ''t1''
          (JList (map JObj demo_five_tasks)) (JStr ''topic X'') = Inr ?rs"
    by (rule run_subagents_dicts)
  moreover have "length ?rs = 4"
    by (simp add: slice_to_def default_settings_def demo_five_tasks_def)
  moreover have "length demo_five_tasks = 5"
    by (simp add: demo_five_tasks_def)
  ultimately show ?thesis by blast
qed

text \<open>
  C5. For every list of tasks the round completes: \<open>run_subagents\<close> returns a result for
  every task it ran. The result at a position is decided by the task at that position and
  its own world alone: when its \<open>research\<close> raises, the result is an entry with the agent,
  the task, the text of the exception and a timestamp; when it returns, the result is what
  it returned. An exception of the search provider for a query is caught in \<open>web_search\<close>
  and gives the empty result list for that query.
\<close>

theorem task_failure_isolated:
  "(\<exists>results.
      run_subagents L cfg worlds now (JList (map JObj tasks)) query = Inr results
    \<and> length results = length (slice_to tasks (max_subagents cfg))
    \<and> (\<forall>i < length results.
          (\<forall>e. research L (worlds i) (tasks ! i) = Inl e \<longrightarrow>
               results ! i = [(''agent'', JStr (subagent_name L (tasks ! i))),
                              (''task'', JObj (tasks ! i)),
                              (''error'', JStr (str_error e)),
                              (''timestamp'', JStr now)])
        \<and> (\<forall>result. research L (worlds i) (tasks ! i) = Inr result \<longrightarrow> results ! i = result)))
   \<and> (search W q = Inl err \<longrightarrow> web_search W q = [])"
proof (intro conjI impI)
  let ?ts = "slice_to tasks (max_subagents cfg)"
  let ?rs = "map (processed_result L worlds now) (enumerate 0 ?ts)"
  have "\<forall>i < length ?rs.
          (\<forall>e. research L (worlds i) (tasks ! i) = Inl e \<longrightarrow>
               ?rs ! i = [(''agent'', JStr (subagent_name L (tasks ! i))),
                              (''task'', JObj (tasks ! i)),
                              (''error'', JStr (str_error e)),
                              (''timestamp'', JStr now)])
        \<and> (\<forall>result. research L (worlds i) (tasks ! i) = Inr result \<longrightarrow> ?rs ! i = result)"
    by (simp add: nth_enumerate_eq slice_to_nth processed_result_def)
  then show "\<exists>results.
      run_subagents L cfg worlds now (JList (map JObj tasks)) query = Inr results
    \<and> length results = length (slice_to tasks (max_subagents cfg))
    \<and> (\<forall>i < length results.
          (\<forall>e. research L (worlds i) (tasks ! i) = Inl e \<longrightarrow>
               results ! i = [(''agent'', JStr (subagent_name L (tasks ! i))),
                              (''task'', JObj (tasks ! i)),
                              (''error'', JStr (str_error e)),
                              (''timestamp'', JStr now)])
        \<and> (\<forall>result. research L (worlds i) (tasks ! i) = Inr result \<longrightarrow> results ! i = result))"
    using run_subagents_dicts [of L cfg worlds now tasks query]
    by (intro exI [of _ ?rs]) simp
next
  assume "search W q = Inl err"
  then show "web_search W q = []" by (simp add: web_search_def)
qed

text \<open>
  With the provider down, the task that cannot be iterated becomes an error entry and its
  sibling still returns its result, with no search results.
\<close>

theorem task_failure_isolated_witness:
  "research demo_lib demo_task_world demo_bad_task = Inl (TypeError ''object is not iterable'')
   \<and> research demo_lib demo_task_world demo_good_task = Inr demo_good_result
   \<and> search demo_task_world (JStr ''q1'') = Inl (ProviderError ''provider down'')
   \<and> web_search demo_task_world (JStr ''q1'') = []
   \<and> (\<exists>results.
        run_subagents demo_lib default_settings (\<lambda>i. demo_task_world) ''t1''
          (JList (map JObj [demo_bad_task, demo_good_task])) (JStr ''topic X'') = Inr results
      \<and> length results = 2
      \<and> results ! 0 = [(''agent'', JStr ''Subagent_bad''),
                        (''task'', JObj demo_bad_task),
                        (''error'', JStr ''object is not iterable''),
                        (''timestamp'', JStr ''t1'')]
      \<and> results ! 1 = demo_good_result)"
proof -
  note t = task_failure_isolated [of demo_lib default_settings "\<lambda>i. demo_task_world" "''t1''"
      "[demo_bad_task, demo_good_task]" "JStr ''topic X''" demo_task_world "JStr ''q1''"
      "ProviderError ''provider down''"]
  have s: "search demo_task_world (JStr ''q1'') = Inl (ProviderError ''provider down'')"
    by (simp add: demo_task_world_def)
  from t s have w: "web_search demo_task_world (JStr ''q1'') = []" by blast
  from t obtain results where
    r: "run_subagents demo_lib default_settings (\<lambda>i. demo_task_world) ''t1''
          (JList (map JObj [demo_bad_task, demo_good_task])) (JStr ''topic X'') = Inr results"
    and l: "length results = length (slice_to [demo_bad_task, demo_good_task] (max_subagents default_settings))"
    and f: "\<forall>i < length results.
          (\<forall>e. research demo_lib demo_task_world ([demo_bad_task, demo_good_task] ! i) = Inl e \<longrightarrow>
               results ! i = [(''agent'', JStr (subagent_name demo_lib ([demo_bad_task, demo_good_task] ! i))),
                              (''task'', JObj ([demo_bad_task, demo_good_task] ! i)),
                              (''error'', JStr (str_error e)),
                              (''timestamp'', JStr ''t1'')])
        \<and> (\<forall>result. research demo_lib demo_task_world ([demo_bad_task, demo_good_task] ! i) = Inr result
               \<longrightarrow> results ! i = result)"
    by blast
  from l have n: "length results = 2" by (simp add: slice_to_def default_settings_def)
  from f n demo_research_bad have
    0: "results ! 0 = [(''agent'', JStr (subagent_name demo_lib demo_bad_task)),
                        (''task'', JObj demo_bad_task),
                        (''error'', JStr (str_error (TypeError ''object is not iterable''))),
                        (''timestamp'', JStr ''t1'')]"
    by force
  have nm: "subagent_name demo_lib demo_bad_task = ''Subagent_bad''"
    by (simp add: subagent_name_def demo_bad_task_def dict_get_def)
  from f n demo_research_good have 1: "results ! 1 = demo_good_result" by force
  from r n 0 1 nm s w demo_research_bad demo_research_good show ?thesis by simp
qed

subsection \<open>The research loop\<close>

lemma next_tasks_shape:
  assumes "next_tasks L W synth decision st = (st', out)"
  shows "same_record st st'" and "out \<noteq> Break"
  using assms
  by (auto simp: next_tasks_def same_record_def split: if_splits sum.splits)

lemma decide_shape:
  assumes "decide L W m i synth st = (st', out)"
  shows "same_record st st'"
    and "out = Break \<longleftrightarrow>
           (\<exists>decision. needs_more_research L (decision_response W) synth i = Inr decision
              \<and> (\<not> truthy (dict_get decision ''needs_more_research'' (JBool False)) \<or> m \<le> i))"
    and "out = Continue \<longrightarrow>
           (\<exists>decision. needs_more_research L (decision_response W) synth i = Inr decision
              \<and> truthy (dict_get decision ''needs_more_research'' (JBool False)) \<and> i < m)"
proof -
  show "same_record st st'"
  proof (cases "needs_more_research L (decision_response W) synth i")
    case (Inl e)
    with assms show ?thesis by (simp add: decide_def same_record_def)
  next
    case (Inr decision)
    show ?thesis
    proof (cases "\<not> truthy (dict_get decision ''needs_more_research'' (JBool False)) \<or> m \<le> i")
      case True
      with assms Inr show ?thesis by (simp add: decide_def same_record_def)
    next
      case False
      with assms Inr have "next_tasks L W synth decision st = (st', out)"
        by (simp add: decide_def)
      then show ?thesis by (rule next_tasks_shape)
    qed
  qed
  show "out = Break \<longleftrightarrow>
           (\<exists>decision. needs_more_research L (decision_response W) synth i = Inr decision
              \<and> (\<not> truthy (dict_get decision ''needs_more_research'' (JBool False)) \<or> m \<le> i))"
  proof (cases "needs_more_research L (decision_response W) synth i")
    case (Inl e)
    with assms show ?thesis by (auto simp: decide_def)
  next
    case (Inr decision)
    show ?thesis
    proof (cases "\<not> truthy (dict_get decision ''needs_more_research'' (JBool False)) \<or> m \<le> i")
      case True
      with assms Inr show ?thesis by (auto simp: decide_def)
    next
      case False
      with assms Inr have "next_tasks L W synth decision st = (st', out)"
        by (simp add: decide_def)
      then have "out \<noteq> Break" by (rule next_tasks_shape)
      with False Inr show ?thesis by auto
    qed
  qed
  show "out = Continue \<longrightarrow>
           (\<exists>decision. needs_more_research L (decision_response W) synth i = Inr decision
              \<and> truthy (dict_get decision ''needs_more_research'' (JBool False)) \<and> i < m)"
  proof (cases "needs_more_research L (decision_response W) synth i")
    case (Inl e)
    with assms show ?thesis by (auto simp: decide_def)
  next
    case (Inr decision)
    with assms show ?thesis by (auto simp: decide_def split: if_splits)
  qed
qed

lemma research_round_cases:
  assumes "research_round L cfg W m i st = (st', out)"
  obtains (raised_before) e where
      "run_subagents L cfg (task_worlds W) (batch_clock W) (sub_tasks st) (current_query st) = Inl e"
      "out = Raise e" "same_record st st'"
  | (raised_between) results e where
      "run_subagents L cfg (task_worlds W) (batch_clock W) (sub_tasks st) (current_query st) = Inr results"
      "synthesize_results L (synthesis_response W) (synthesis_clock W) (current_query st) results = Inl e"
      "out = Raise e"
      "all_results st' = all_results st @ results" "rounds_run st' = rounds_run st @ [results]"
      "synthesis st' = synthesis st" "syntheses st' = syntheses st"
  | (synthesized) results synth where
      "run_subagents L cfg (task_worlds W) (batch_clock W) (sub_tasks st) (current_query st) = Inr results"
      "synthesize_results L (synthesis_response W) (synthesis_clock W) (current_query st) results = Inr synth"
      "all_results st' = all_results st @ results" "rounds_run st' = rounds_run st @ [results]"
      "synthesis st' = Some synth" "syntheses st' = syntheses st @ [synth]"
      "out = Break \<longleftrightarrow>
           (\<exists>decision. needs_more_research L (decision_response W) synth i = Inr decision
              \<and> (\<not> truthy (dict_get decision ''needs_more_research'' (JBool False)) \<or> m \<le> i))"
      "out = Continue \<longrightarrow>
           (\<exists>decision. needs_more_research L (decision_response W) synth i = Inr decision
              \<and> truthy (dict_get decision ''needs_more_research'' (JBool False)) \<and> i < m)"
proof (cases "run_subagents L cfg (task_worlds W) (batch_clock W) (sub_tasks st) (current_query st)")
  case (Inl e)
  with assms have "out = Raise e" "same_record st st'"
    by (auto simp: research_round_def same_record_def)
  with Inl show ?thesis by (rule raised_before)
next
  case (Inr results)
  show ?thesis
  proof (cases "synthesize_results L (synthesis_response W) (synthesis_clock W) (current_query st) results")
    case (Inl e)
    with assms Inr have "out = Raise e"
      "all_results st' = all_results st @ results" "rounds_run st' = rounds_run st @ [results]"
      "synthesis st' = synthesis st" "syntheses st' = syntheses st"
      by (auto simp: research_round_def)
    with Inr Inl show ?thesis by (rule raised_between)
  next
    case synth: (Inr synth)
    let ?st1 = "st\<lparr>current_iteration := i,
                     all_results := all_results st @ results,
                     rounds_run := rounds_run st @ [results],
                     synthesis := Some synth,
                     syntheses := syntheses st @ [synth]\<rparr>"
    from assms Inr synth have d: "decide L W m i synth ?st1 = (st', out)"
      by (simp add: research_round_def)
    from decide_shape(1) [OF d] have
      "all_results st' = all_results st @ results" "rounds_run st' = rounds_run st @ [results]"
      "synthesis st' = Some synth" "syntheses st' = syntheses st @ [synth]"
      by (simp_all add: same_record_def)
    with Inr synth show ?thesis
      using decide_shape(2) [OF d] decide_shape(3) [OF d] by (rule synthesized)
  qed
qed

lemma research_round_summary:
  assumes "research_round L cfg W m i st = (st', out)"
  shows "\<exists>ext syn.
           rounds_run st' = rounds_run st @ ext \<and> all_results st' = all_results st @ concat ext
         \<and> syntheses st' = syntheses st @ syn
         \<and> synthesis st' = (if syn = [] then synthesis st else Some (last syn))
         \<and> length syn \<le> length ext \<and> length ext \<le> 1
         \<and> ((\<forall>e. out \<noteq> Raise e) \<longrightarrow> length syn = 1 \<and> length ext = 1)"
  using assms
proof (cases rule: research_round_cases)
  case (raised_before e)
  then show ?thesis
    by (intro exI [of _ "[]"]) (simp add: same_record_def)
next
  case (raised_between results e)
  then show ?thesis
    by (intro exI [of _ "[results]"] exI [of _ "[]"]) simp
next
  case (synthesized results synth)
  then show ?thesis
    by (intro exI [of _ "[results]"] exI [of _ "[synth]"]) simp
qed

lemma research_round_step:
  assumes "research_round L cfg W m i st = (st', out)" and "consistent st"
  shows "consistent st'"
    and "prefix (rounds_run st) (rounds_run st')"
    and "prefix (all_results st) (all_results st')"
    and "length (rounds_run st') \<le> length (rounds_run st) + 1"
    and "length (syntheses st) = length (rounds_run st) \<Longrightarrow> (\<forall>e. out \<noteq> Raise e) \<Longrightarrow>
         length (syntheses st') = length (rounds_run st')"
proof -
  from research_round_summary [OF assms(1)] obtain ext syn where
    r: "rounds_run st' = rounds_run st @ ext" and a: "all_results st' = all_results st @ concat ext"
    and s: "syntheses st' = syntheses st @ syn"
    and c: "synthesis st' = (if syn = [] then synthesis st else Some (last syn))"
    and l: "length syn \<le> length ext" "length ext \<le> 1"
    and n: "(\<forall>e. out \<noteq> Raise e) \<longrightarrow> length syn = 1 \<and> length ext = 1"
    by blast
  show "consistent st'"
    using assms(2) r a s c l by (auto simp: consistent_def)
  show "prefix (rounds_run st) (rounds_run st')" using r by simp
  show "prefix (all_results st) (all_results st')" using a by simp
  show "length (rounds_run st') \<le> length (rounds_run st) + 1" using r l by simp
  show "length (syntheses st') = length (rounds_run st')"
    if "length (syntheses st) = length (rounds_run st)" "\<forall>e. out \<noteq> Raise e"
    using that r s n by simp
qed

lemma research_loop_run:
  "research_loop L cfg W m its st = (st', r) \<Longrightarrow> consistent st \<Longrightarrow>
   consistent st'
   \<and> prefix (rounds_run st) (rounds_run st')
   \<and> prefix (all_results st) (all_results st')
   \<and> length (rounds_run st') \<le> length (rounds_run st) + length its
   \<and> (length (syntheses st) = length (rounds_run st) \<longrightarrow> r = None \<longrightarrow>
        length (syntheses st') = length (rounds_run st'))"
proof (induction its arbitrary: st)
  case Nil
  then show ?case by simp
next
  case (Cons i its)
  obtain st1 out where rr: "research_round L cfg (W i) m i st = (st1, out)"
    by (cases "research_round L cfg (W i) m i st")
  note step = research_round_step [OF rr Cons.prems(2)]
  show ?case
  proof (cases out)
    case Continue
    with rr Cons.prems(1) have l: "research_loop L cfg W m its st1 = (st', r)" by simp
    note ih = Cons.IH [OF l step(1)]
    have "prefix (rounds_run st) (rounds_run st')"
      using step(2) ih by (blast intro: prefix_order.trans)
    moreover have "prefix (all_results st) (all_results st')"
      using step(3) ih by (blast intro: prefix_order.trans)
    moreover have "length (rounds_run st') \<le> length (rounds_run st) + length (i # its)"
      using step(4) ih by simp
    moreover have "length (syntheses st') = length (rounds_run st')"
      if "length (syntheses st) = length (rounds_run st)" "r = None"
      using step(5) [OF that(1)] Continue ih that(2) by simp
    ultimately show ?thesis using ih by blast
  next
    case Break
    with rr Cons.prems(1) have e: "st' = st1" "r = None" by simp_all
    have "length (syntheses st') = length (rounds_run st')"
      if "length (syntheses st) = length (rounds_run st)"
      using step(5) [OF that] Break e by simp
    then show ?thesis using step e by simp
  next
    case (Raise e)
    with rr Cons.prems(1) have e: "st' = st1" "r = Some e" by simp_all
    then show ?thesis using step by simp
  qed
qed


lemma research_loop_grows:
  "research_loop L cfg W m its st = (st', r) \<Longrightarrow>
   prefix (all_results st) (all_results st') \<and> prefix (rounds_run st) (rounds_run st')"
proof (induction its arbitrary: st)
  case Nil
  then show ?case by simp
next
  case (Cons i its)
  obtain st1 out where rr: "research_round L cfg (W i) m i st = (st1, out)"
    by (cases "research_round L cfg (W i) m i st")
  from research_round_summary [OF rr] have
    p: "prefix (all_results st) (all_results st1)" "prefix (rounds_run st) (rounds_run st1)"
    by auto
  show ?case
  proof (cases out)
    case Continue
    with rr Cons.prems have "research_loop L cfg W m its st1 = (st', r)" by simp
    from Cons.IH [OF this] p show ?thesis by (blast intro: prefix_order.trans)
  qed (use rr Cons.prems p in auto)
qed

lemma consistent_initial: "consistent (initial_state tasks query)"
  by (simp add: consistent_def initial_state_def)

lemma run_research_loop:
  assumes "run_research L cfg W query marg = (st, outcome)"
  shows "consistent st
       \<and> int (length (rounds_run st)) \<le> max 0 (case marg of None \<Rightarrow> max_iterations cfg | Some m \<Rightarrow> m)
       \<and> (\<forall>report. outcome = Inr report \<longrightarrow>
            syntheses st \<noteq> [] \<and> length (syntheses st) = length (rounds_run st)
          \<and> outcome = process_report L (citation_reply W) (report_clock W)
                         (last (syntheses st)) (concat (rounds_run st)))"
proof -
  let ?m = "case marg of None \<Rightarrow> max_iterations cfg | Some m \<Rightarrow> m"
  let ?d = "and_then (decompose_tasks L (decompose_response W) (JStr query))
             (\<lambda>tasks. and_then (py_len tasks) (\<lambda>_. Inr tasks))"
  show ?thesis
  proof (cases ?d)
    case (Inl e)
    with assms have "st = initial_state JNull (JStr query)" "outcome = Inl e"
      by (simp_all add: run_research_def)
    then show ?thesis using consistent_initial by (simp add: initial_state_def)
  next
    case (Inr tasks)
    let ?st0 = "initial_state tasks (JStr query)"
    obtain st1 r where l: "research_loop L cfg (rounds W) ?m [1..?m] ?st0 = (st1, r)"
      by (cases "research_loop L cfg (rounds W) ?m [1..?m] ?st0")
    from research_loop_run [OF l consistent_initial] have
      c: "consistent st1"
      and b: "length (rounds_run st1) \<le> length (rounds_run ?st0) + length [1..?m]"
      and e: "r = None \<longrightarrow> length (syntheses st1) = length (rounds_run st1)"
      by (simp_all add: initial_state_def)
    have st: "st = st1"
      using assms Inr l by (auto simp: run_research_def Let_def split: option.splits)
    have bound: "int (length (rounds_run st)) \<le> max 0 ?m"
      using b st by (simp add: initial_state_def)
    have rep: "syntheses st \<noteq> [] \<and> length (syntheses st) = length (rounds_run st)
          \<and> outcome = process_report L (citation_reply W) (report_clock W)
                         (last (syntheses st)) (concat (rounds_run st))"
      if "outcome = Inr report" for report
    proof -
      from that assms Inr l have rn: "r = None"
        by (auto simp: run_research_def Let_def split: option.splits)
      from that assms Inr l rn obtain synth where
        sy: "synthesis st1 = Some synth"
        and o: "outcome = process_report L (citation_reply W) (report_clock W) synth (all_results st1)"
        by (auto simp: run_research_def Let_def split: option.splits)
      from c sy have "syntheses st1 \<noteq> []" "synth = last (syntheses st1)"
        "all_results st1 = concat (rounds_run st1)"
        by (auto simp: consistent_def split: if_splits)
      with o e rn st show ?thesis by simp
    qed
    from c st bound rep show ?thesis by blast
  qed
qed

lemma continued_loop:
  "continued L cfg W m its st = Some s \<Longrightarrow>
   research_loop L cfg W m (its @ rest) st = research_loop L cfg W m rest s"
proof (induction its arbitrary: st)
  case Nil
  then show ?case by simp
next
  case (Cons i its)
  obtain st1 out where rr: "research_round L cfg (W i) m i st = (st1, out)"
    by (cases "research_round L cfg (W i) m i st")
  with Cons.prems have c: "out = Continue" "continued L cfg W m its st1 = Some s"
    by (cases out; simp)+
  from Cons.IH [OF c(2)] rr c(1) show ?case by simp
qed

lemma continued_grows:
  "continued L cfg W m its st = Some s \<Longrightarrow>
     length (rounds_run s) = length (rounds_run st) + length its
   \<and> length (syntheses s) = length (syntheses st) + length its
   \<and> prefix (all_results st) (all_results s)
   \<and> prefix (rounds_run st) (rounds_run s)
   \<and> prefix (syntheses st) (syntheses s)"
proof (induction its arbitrary: st)
  case Nil
  then show ?case by simp
next
  case (Cons i its)
  obtain st1 out where rr: "research_round L cfg (W i) m i st = (st1, out)"
    by (cases "research_round L cfg (W i) m i st")
  with Cons.prems have c: "out = Continue" "continued L cfg W m its st1 = Some s"
    by (cases out; simp)+
  from research_round_summary [OF rr] c(1) obtain ext syn where
    e: "rounds_run st1 = rounds_run st @ ext" "all_results st1 = all_results st @ concat ext"
       "syntheses st1 = syntheses st @ syn" "length syn = 1" "length ext = 1"
    by auto
  note ih = Cons.IH [OF c(2)]
  have "prefix (all_results st) (all_results st1)" "prefix (rounds_run st) (rounds_run st1)"
    "prefix (syntheses st) (syntheses st1)"
    using e by simp_all
  then have "prefix (all_results st) (all_results s)" "prefix (rounds_run st) (rounds_run s)"
    "prefix (syntheses st) (syntheses s)"
    using ih by (blast intro: prefix_order.trans)+
  then show ?case using ih e by simp
qed

lemma research_loop_upto:
  "a \<le> m \<Longrightarrow>
   \<exists>k s s' out. a \<le> k \<and> k \<le> m
     \<and> continued L cfg W m [a..k - 1] st = Some s
     \<and> research_round L cfg (W k) m k s = (s', out) \<and> out \<noteq> Continue
     \<and> research_loop L cfg W m [a..m] st
         = (s', case out of Raise e \<Rightarrow> Some e | _ \<Rightarrow> None)"
proof (induction "nat (m - a)" arbitrary: a st)
  case 0
  then have am: "a = m" by simp
  obtain st1 out where rr: "research_round L cfg (W m) m m st = (st1, out)"
    by (cases "research_round L cfg (W m) m m st")
  have nc: "out \<noteq> Continue"
  proof
    assume "out = Continue"
    with rr have "m < m" by (cases rule: research_round_cases) auto
    then show False by simp
  qed
  have "research_loop L cfg W m [m..m] st = (st1, case out of Raise e \<Rightarrow> Some e | _ \<Rightarrow> None)"
    using rr nc by (cases out) simp_all
  with rr nc am show ?case
    by (intro exI [of _ m] exI [of _ st] exI [of _ st1] exI [of _ out]) simp
next
  case (Suc d)
  then have lt: "a < m" by simp
  obtain st1 out where rr: "research_round L cfg (W a) m a st = (st1, out)"
    by (cases "research_round L cfg (W a) m a st")
  have u: "[a..m] = a # [a + 1..m]" using lt by (simp add: upto_rec1)
  show ?case
  proof (cases "out = Continue")
    case False
    have "research_loop L cfg W m [a..m] st = (st1, case out of Raise e \<Rightarrow> Some e | _ \<Rightarrow> None)"
      using rr False u by (cases out) simp_all
    with rr False lt show ?thesis
      by (intro exI [of _ a] exI [of _ st] exI [of _ st1] exI [of _ out]) simp
  next
    case True
    from Suc.hyps(2) have d: "d = nat (m - (a + 1))" by simp
    from lt have le: "a + 1 \<le> m" by simp
    from Suc.hyps(1) [OF d le, of st1] obtain k s s' out' where
      k: "a + 1 \<le> k" "k \<le> m" "continued L cfg W m [a + 1..k - 1] st1 = Some s"
         "research_round L cfg (W k) m k s = (s', out')" "out' \<noteq> Continue"
         "research_loop L cfg W m [a + 1..m] st1 = (s', case out' of Raise e \<Rightarrow> Some e | _ \<Rightarrow> None)"
      by blast
    have u2: "[a..k - 1] = a # [a + 1..k - 1]" using k(1) by (simp add: upto_rec1)
    have c: "continued L cfg W m [a..k - 1] st = Some s"
      using rr True k(3) u2 by simp
    have l: "research_loop L cfg W m [a..m] st = (s', case out' of Raise e \<Rightarrow> Some e | _ \<Rightarrow> None)"
      using rr True k(6) u by simp
    from k(1,2) c k(4,5) l show ?thesis
      by (intro exI [of _ k] exI [of _ s] exI [of _ s'] exI [of _ out']) simp
  qed
qed

lemma research_loop_step:
  assumes "research_round L cfg (W i) m i st = (st', out)"
  shows "out = Break \<longrightarrow> research_loop L cfg W m (i # rest) st = (st', None)"
    and "out = Raise e \<longrightarrow> research_loop L cfg W m (i # rest) st = (st', Some e)"
    and "out = Continue \<longrightarrow>
           research_loop L cfg W m (i # rest) st = research_loop L cfg W m rest st'"
  using assms by simp_all

lemma research_round_break:
  assumes "run_subagents L cfg (task_worlds W) (batch_clock W) (sub_tasks st) (current_query st)
             = Inr results"
    and "synthesize_results L (synthesis_response W) (synthesis_clock W) (current_query st) results
             = Inr synth"
    and "needs_more_research L (decision_response W) synth i = Inr decision"
    and "\<not> truthy (dict_get decision ''needs_more_research'' (JBool False)) \<or> m \<le> i"
  shows "\<exists>st'. research_round L cfg W m i st = (st', Break)
           \<and> rounds_run st' = rounds_run st @ [results]"
proof -
  obtain st' out where rr: "research_round L cfg W m i st = (st', out)"
    by (cases "research_round L cfg W m i st")
  from rr have "out = Break \<and> rounds_run st' = rounds_run st @ [results]"
    using assms by (cases rule: research_round_cases) auto
  with rr show ?thesis by simp
qed

lemma run_research_rounds:
  assumes "1 \<le> m" and "(case marg of None \<Rightarrow> max_iterations cfg | Some k \<Rightarrow> k) = m"
    and "decompose_tasks L (decompose_response W) (JStr query) = Inr tasks"
    and "py_len tasks = Inr n"
  shows "\<exists>k sk s' out. 1 \<le> k \<and> k \<le> m
           \<and> continued L cfg (rounds W) m [1..k - 1] (initial_state tasks (JStr query)) = Some sk
           \<and> research_round L cfg (rounds W k) m k sk = (s', out) \<and> out \<noteq> Continue
           \<and> run_research L cfg W query marg
               = (s', case out of
                        Raise e \<Rightarrow> Inl e
                      | _ \<Rightarrow> (case synthesis s' of
                                None \<Rightarrow> Inl (UnboundLocalError ''synthesis'')
                              | Some synth \<Rightarrow>
                                  process_report L (citation_reply W) (report_clock W) synth
                                    (all_results s')))"
proof -
  let ?st0 = "initial_state tasks (JStr query)"
  from research_loop_upto [OF assms(1), of L cfg "rounds W" ?st0] obtain k sk s' out where
    k: "1 \<le> k" "k \<le> m" "continued L cfg (rounds W) m [1..k - 1] ?st0 = Some sk"
       "research_round L cfg (rounds W k) m k sk = (s', out)" "out \<noteq> Continue"
       "research_loop L cfg (rounds W) m [1..m] ?st0
          = (s', case out of Raise e \<Rightarrow> Some e | _ \<Rightarrow> None)"
    by blast
  have "run_research L cfg W query marg
               = (s', case out of
                        Raise e \<Rightarrow> Inl e
                      | _ \<Rightarrow> (case synthesis s' of
                                None \<Rightarrow> Inl (UnboundLocalError ''synthesis'')
                              | Some synth \<Rightarrow>
                                  process_report L (citation_reply W) (report_clock W) synth
                                    (all_results s')))"
    using assms(2,3,4) k(6)
    by (cases out) (simp_all add: run_research_def Let_def split: option.splits)
  with k(1-5) show ?thesis by blast
qed

lemma run_research_report:
  assumes "run_research L cfg W query marg = (st, Inr report)"
  shows "\<exists>tasks k sk results synth.
            decompose_tasks L (decompose_response W) (JStr query) = Inr tasks
          \<and> 1 \<le> k \<and> k \<le> (case marg of None \<Rightarrow> max_iterations cfg | Some k \<Rightarrow> k)
          \<and> continued L cfg (rounds W) (case marg of None \<Rightarrow> max_iterations cfg | Some k \<Rightarrow> k)
               [1..k - 1] (initial_state tasks (JStr query)) = Some sk
          \<and> research_round L cfg (rounds W k)
               (case marg of None \<Rightarrow> max_iterations cfg | Some k \<Rightarrow> k) k sk = (st, Break)
          \<and> run_subagents L cfg (task_worlds (rounds W k)) (batch_clock (rounds W k))
               (sub_tasks sk) (current_query sk) = Inr results
          \<and> synthesize_results L (synthesis_response (rounds W k)) (synthesis_clock (rounds W k))
               (current_query sk) results = Inr synth
          \<and> all_results st = all_results sk @ results
          \<and> synthesis st = Some synth \<and> last (syntheses st) = synth
          \<and> process_report L (citation_reply W) (report_clock W) synth (all_results sk @ results)
               = Inr report"
proof -
  let ?m = "case marg of None \<Rightarrow> max_iterations cfg | Some k \<Rightarrow> k"
  obtain tasks where dt: "decompose_tasks L (decompose_response W) (JStr query) = Inr tasks"
    using assms by (cases "decompose_tasks L (decompose_response W) (JStr query)")
      (simp_all add: run_research_def Let_def)
  obtain n where pl: "py_len tasks = Inr n"
    using assms dt by (cases "py_len tasks") (simp_all add: run_research_def Let_def)
  have m1: "1 \<le> ?m"
  proof (rule ccontr)
    assume "\<not> 1 \<le> ?m"
    then have "[1..?m] = []" by simp
    with assms dt pl show False
      by (simp add: run_research_def Let_def initial_state_def)
  qed
  from run_research_rounds [OF m1 refl dt pl] obtain k sk s' out where
    k: "1 \<le> k" "k \<le> ?m"
       "continued L cfg (rounds W) ?m [1..k - 1] (initial_state tasks (JStr query)) = Some sk"
       "research_round L cfg (rounds W k) ?m k sk = (s', out)" "out \<noteq> Continue"
       "run_research L cfg W query marg
               = (s', case out of
                        Raise e \<Rightarrow> Inl e
                      | _ \<Rightarrow> (case synthesis s' of
                                None \<Rightarrow> Inl (UnboundLocalError ''synthesis'')
                              | Some synth \<Rightarrow>
                                  process_report L (citation_reply W) (report_clock W) synth
                                    (all_results s')))"
    by blast
  from k(6) assms have st: "s' = st" by simp
  have ob: "out = Break" using k(5,6) assms by (cases out) simp_all
  from k(4) st ob have rr: "research_round L cfg (rounds W k) ?m k sk = (st, out)" by simp
  from rr ob obtain results synth where
    r: "run_subagents L cfg (task_worlds (rounds W k)) (batch_clock (rounds W k))
               (sub_tasks sk) (current_query sk) = Inr results"
       "synthesize_results L (synthesis_response (rounds W k)) (synthesis_clock (rounds W k))
               (current_query sk) results = Inr synth"
       "all_results st = all_results sk @ results"
       "synthesis st = Some synth" "syntheses st = syntheses sk @ [synth]"
    by (cases rule: research_round_cases) auto
  have pr: "process_report L (citation_reply W) (report_clock W) synth (all_results sk @ results)
               = Inr report"
    using k(6) assms st ob r(3,4) by simp
  from dt k(1,2,3) rr ob r pr show ?thesis
    by (intro exI [of _ tasks] exI [of _ k] exI [of _ sk] exI [of _ results] exI [of _ synth]) simp
qed

lemma research_round_synthesis:
  assumes "research_round L cfg W m i s = (s', out)"
  shows "\<forall>results synth.
           run_subagents L cfg (task_worlds W) (batch_clock W) (sub_tasks s) (current_query s)
             = Inr results
         \<and> synthesize_results L (synthesis_response W) (synthesis_clock W) (current_query s)
             results = Inr synth
         \<longrightarrow> synthesis s' = Some synth \<and> syntheses s' = syntheses s @ [synth]"
    and "\<forall>results e.
           run_subagents L cfg (task_worlds W) (batch_clock W) (sub_tasks s) (current_query s)
             = Inr results
         \<and> synthesize_results L (synthesis_response W) (synthesis_clock W) (current_query s)
             results = Inl e
         \<longrightarrow> out = Raise e \<and> synthesis s' = synthesis s \<and> syntheses s' = syntheses s"
    and "\<forall>e. run_subagents L cfg (task_worlds W) (batch_clock W) (sub_tasks s) (current_query s)
             = Inl e
         \<longrightarrow> out = Raise e \<and> same_record s s'"
  using assms by (cases rule: research_round_cases; auto)+

text \<open>
  C1. For every \<open>max_iterations\<close> of at least 1, given as the argument or taken from the
  settings, and for every behaviour of the language model and the search provider,
  \<open>run_research\<close> runs at most \<open>max_iterations\<close> rounds of sub-tasks, whether it returns a
  report or raises. A round that reaches the decision leaves the loop exactly when the
  decision's \<open>needs_more_research\<close> is falsy or the iteration has reached \<open>max_iterations\<close>;
  it goes on to another round only below \<open>max_iterations\<close>; and a round runs the sub-tasks
  once. The loop does what the round says: when the round of the first remaining
  iteration breaks, the loop ends in the state that round left and runs none of the other
  iterations; when it raises, the loop ends with that exception; when it continues, the
  loop goes on with the other iterations from the state the round left. So a decision
  whose \<open>needs_more_research\<close> is falsy, or an iteration that has reached \<open>max_iterations\<close>,
  ends the loop with that round's results as the last ones, whatever iterations remain.
  A run whose first decomposition returns is made of the rounds \<open>1\<close> to \<open>k - 1\<close>, each of
  which continued, and of round \<open>k\<close>, which breaks or raises, for some \<open>k\<close> from 1 to
  \<open>max_iterations\<close>: the state the run ends in is the state round \<open>k\<close> left, a run that
  breaks in round \<open>k\<close> has run exactly \<open>k\<close> rounds, and an exception of round \<open>k\<close> is the
  outcome of the run.
\<close>

theorem iterations_bounded:
  assumes "1 \<le> m"
  shows "int (length (rounds_run (fst (run_research L cfg W query (Some m))))) \<le> m
       \<and> (max_iterations cfg = m \<longrightarrow>
            int (length (rounds_run (fst (run_research L cfg W query None)))) \<le> m)
       \<and> (research_round L cfg Wr m i st = (st', out) \<longrightarrow>
            (out = Break \<longleftrightarrow>
               (\<exists>results synth decision.
                   run_subagents L cfg (task_worlds Wr) (batch_clock Wr) (sub_tasks st) (current_query st)
                     = Inr results
                 \<and> synthesize_results L (synthesis_response Wr) (synthesis_clock Wr) (current_query st)
                     results = Inr synth
                 \<and> needs_more_research L (decision_response Wr) synth i = Inr decision
                 \<and> (\<not> truthy (dict_get decision ''needs_more_research'' (JBool False)) \<or> m \<le> i)))
          \<and> (out = Continue \<longrightarrow> i < m)
          \<and> length (rounds_run st') \<le> length (rounds_run st) + 1)
       \<and> (research_round L cfg (Wl j) m j s = (s', out') \<longrightarrow>
            (out' = Break \<longrightarrow> research_loop L cfg Wl m (j # rest) s = (s', None))
          \<and> (\<forall>e. out' = Raise e \<longrightarrow> research_loop L cfg Wl m (j # rest) s = (s', Some e))
          \<and> (out' = Continue \<longrightarrow>
                research_loop L cfg Wl m (j # rest) s = research_loop L cfg Wl m rest s'))
       \<and> (run_subagents L cfg (task_worlds (Wl j)) (batch_clock (Wl j)) (sub_tasks s) (current_query s)
             = Inr results
          \<and> synthesize_results L (synthesis_response (Wl j)) (synthesis_clock (Wl j)) (current_query s)
             results = Inr synth
          \<and> needs_more_research L (decision_response (Wl j)) synth j = Inr decision
          \<and> (\<not> truthy (dict_get decision ''needs_more_research'' (JBool False)) \<or> m \<le> j)
          \<longrightarrow> (\<exists>s1. research_loop L cfg Wl m (j # rest) s = (s1, None)
                  \<and> rounds_run s1 = rounds_run s @ [results]))
       \<and> ((case marg of None \<Rightarrow> max_iterations cfg | Some k \<Rightarrow> k) = m
          \<and> decompose_tasks L (decompose_response W) (JStr query) = Inr tasks
          \<and> py_len tasks = Inr n
          \<longrightarrow> (\<exists>k sk sl outl. 1 \<le> k \<and> k \<le> m
                  \<and> continued L cfg (rounds W) m [1..k - 1] (initial_state tasks (JStr query)) = Some sk
                  \<and> int (length (rounds_run sk)) = k - 1
                  \<and> research_round L cfg (rounds W k) m k sk = (sl, outl) \<and> outl \<noteq> Continue
                  \<and> fst (run_research L cfg W query marg) = sl
                  \<and> (outl = Break \<longrightarrow> int (length (rounds_run sl)) = k)
                  \<and> (\<forall>e. outl = Raise e \<longrightarrow> snd (run_research L cfg W query marg) = Inl e)))"
proof (intro conjI impI)
  obtain s1 o1 where r1: "run_research L cfg W query (Some m) = (s1, o1)"
    by (cases "run_research L cfg W query (Some m)")
  from run_research_loop [OF r1] assms
  show "int (length (rounds_run (fst (run_research L cfg W query (Some m))))) \<le> m"
    by (simp add: r1)
next
  assume c: "max_iterations cfg = m"
  obtain s1 o1 where r1: "run_research L cfg W query None = (s1, o1)"
    by (cases "run_research L cfg W query None")
  from run_research_loop [OF r1] assms c
  show "int (length (rounds_run (fst (run_research L cfg W query None)))) \<le> m"
    by (simp add: r1)
next
  assume rr: "research_round L cfg Wr m i st = (st', out)"
  from rr show "out = Break \<longleftrightarrow>
               (\<exists>results synth decision.
                   run_subagents L cfg (task_worlds Wr) (batch_clock Wr) (sub_tasks st) (current_query st)
                     = Inr results
                 \<and> synthesize_results L (synthesis_response Wr) (synthesis_clock Wr) (current_query st)
                     results = Inr synth
                 \<and> needs_more_research L (decision_response Wr) synth i = Inr decision
                 \<and> (\<not> truthy (dict_get decision ''needs_more_research'' (JBool False)) \<or> m \<le> i))"
    by (cases rule: research_round_cases) auto
  from rr show "i < m" if "out = Continue"
    using that by (cases rule: research_round_cases) auto
  from research_round_summary [OF rr]
  show "length (rounds_run st') \<le> length (rounds_run st) + 1" by auto
next
  assume rr: "research_round L cfg (Wl j) m j s = (s', out')"
  from research_loop_step(1) [where W = Wl and i = j, OF rr]
  show "research_loop L cfg Wl m (j # rest) s = (s', None)" if "out' = Break"
    using that by simp
  from research_loop_step(2) [where W = Wl and i = j, OF rr]
  show "\<forall>e. out' = Raise e \<longrightarrow> research_loop L cfg Wl m (j # rest) s = (s', Some e)"
    by simp
  from research_loop_step(3) [where W = Wl and i = j, OF rr]
  show "research_loop L cfg Wl m (j # rest) s = research_loop L cfg Wl m rest s'"
    if "out' = Continue"
    using that by simp
next
  assume a: "run_subagents L cfg (task_worlds (Wl j)) (batch_clock (Wl j)) (sub_tasks s) (current_query s)
             = Inr results
          \<and> synthesize_results L (synthesis_response (Wl j)) (synthesis_clock (Wl j)) (current_query s)
             results = Inr synth
          \<and> needs_more_research L (decision_response (Wl j)) synth j = Inr decision
          \<and> (\<not> truthy (dict_get decision ''needs_more_research'' (JBool False)) \<or> m \<le> j)"
  then obtain s1 where
    b: "research_round L cfg (Wl j) m j s = (s1, Break)" "rounds_run s1 = rounds_run s @ [results]"
    using research_round_break [of L cfg "Wl j" s results synth j decision m] by blast
  from research_loop_step(1) [where W = Wl and i = j, OF b(1)] b(2)
  show "\<exists>s1. research_loop L cfg Wl m (j # rest) s = (s1, None)
           \<and> rounds_run s1 = rounds_run s @ [results]"
    by simp
next
  assume a: "(case marg of None \<Rightarrow> max_iterations cfg | Some k \<Rightarrow> k) = m
          \<and> decompose_tasks L (decompose_response W) (JStr query) = Inr tasks
          \<and> py_len tasks = Inr n"
  then have a1: "(case marg of None \<Rightarrow> max_iterations cfg | Some k \<Rightarrow> k) = m"
    and a2: "decompose_tasks L (decompose_response W) (JStr query) = Inr tasks"
    and a3: "py_len tasks = Inr n"
    by simp_all
  from run_research_rounds [OF assms a1 a2 a3] obtain k sk sl outl where
    k: "1 \<le> k" "k \<le> m"
       "continued L cfg (rounds W) m [1..k - 1] (initial_state tasks (JStr query)) = Some sk"
       "research_round L cfg (rounds W k) m k sk = (sl, outl)" "outl \<noteq> Continue"
       "run_research L cfg W query marg
               = (sl, case outl of
                        Raise e \<Rightarrow> Inl e
                      | _ \<Rightarrow> (case synthesis sl of
                                None \<Rightarrow> Inl (UnboundLocalError ''synthesis'')
                              | Some synth \<Rightarrow>
                                  process_report L (citation_reply W) (report_clock W) synth
                                    (all_results sl)))"
    by blast
  from continued_grows [OF k(3)] k(1) have len: "int (length (rounds_run sk)) = k - 1"
    by (simp add: initial_state_def)
  have brk: "int (length (rounds_run sl)) = k" if "outl = Break"
  proof -
    from research_round_summary [OF k(4)] that
    have "length (rounds_run sl) = length (rounds_run sk) + 1" by auto
    with len show ?thesis by simp
  qed
  have rs: "snd (run_research L cfg W query marg) = Inl e" if "outl = Raise e" for e
    using k(6) that by simp
  from k(1-5) len brk rs k(6)
  show "\<exists>k sk sl outl. 1 \<le> k \<and> k \<le> m
                  \<and> continued L cfg (rounds W) m [1..k - 1] (initial_state tasks (JStr query)) = Some sk
                  \<and> int (length (rounds_run sk)) = k - 1
                  \<and> research_round L cfg (rounds W k) m k sk = (sl, outl) \<and> outl \<noteq> Continue
                  \<and> fst (run_research L cfg W query marg) = sl
                  \<and> (outl = Break \<longrightarrow> int (length (rounds_run sl)) = k)
                  \<and> (\<forall>e. outl = Raise e \<longrightarrow> snd (run_research L cfg W query marg) = Inl e)"
    by (intro exI [of _ k] exI [of _ sk] exI [of _ sl] exI [of _ outl]) simp
qed

text \<open>
  Two runs with \<open>max_iterations\<close> 3. In the first every decision asks for more research:
  three rounds are run (two tasks, then one gap task twice), and the third round leaves
  the loop although its decision asks for more. In the second the decision of round 2 has
  no \<open>needs_more_research\<close> field: the run stops after two rounds, and the loop over the
  iterations 2 and 3 runs round 2 only.
\<close>

lemma demo_run_rounds:
  "length (rounds_run (fst (run_research demo_lib default_settings demo_run_world ''topic X'' (Some 3)))) = 3"
  "length (rounds_run (fst (run_research demo_lib default_settings demo_run_world ''topic X'' None))) = 3"
  "map length (rounds_run (fst (run_research demo_lib default_settings demo_run_world ''topic X'' None)))
     = [2, 1, 1]"
  by code_simp+

lemma demo_round_outcomes:
  "snd (research_round demo_lib default_settings demo_round_world 3 3 demo_state) = Break"
  "snd (research_round demo_lib default_settings demo_round_world 3 2 demo_state) = Continue"
  "all_results (fst (research_round demo_lib default_settings demo_round_world 3 2 demo_state)) = []"
  by code_simp+

lemma demo_stop_run:
  "length (rounds_run (fst (run_research demo_lib default_settings demo_stop_world ''topic X'' (Some 3)))) = 2"
  "map length (rounds_run (fst (run_research demo_lib default_settings demo_stop_world ''topic X'' None)))
     = [2, 1]"
  "isl (snd (run_research demo_lib default_settings demo_stop_world ''topic X'' None)) = False"
  by code_simp+

lemma demo_stop_round_2:
  "run_subagents demo_lib default_settings (task_worlds (demo_stop_round 2))
     (batch_clock (demo_stop_round 2)) (sub_tasks demo_state) (current_query demo_state) = Inr []"
  "synthesize_results demo_lib (synthesis_response (demo_stop_round 2))
     (synthesis_clock (demo_stop_round 2)) (current_query demo_state) []
     = Inr [(''query'', JStr ''topic X''), (''synthesis_timestamp'', JStr ''t2'')]"
  "needs_more_research demo_lib (decision_response (demo_stop_round 2))
     [(''query'', JStr ''topic X''), (''synthesis_timestamp'', JStr ''t2'')] 2
     = Inr [(''current_iteration'', JInt 2)]"
  "truthy (dict_get [(''current_iteration'', JInt 2)] ''needs_more_research'' (JBool False)) = False"
  "snd (research_round demo_lib default_settings (demo_stop_round 2) 3 2 demo_state) = Break"
  by code_simp+

lemma demo_stop_decompose:
  "decompose_tasks demo_lib (decompose_response demo_stop_world) (JStr ''topic X'')
     = Inr (JList (fallback_tasks demo_lib (JStr ''topic X'')))"
  "py_len (JList (fallback_tasks demo_lib (JStr ''topic X''))) = Inr 2"
  by code_simp+

theorem iterations_bounded_witness:
  "(1::int) \<le> 3 \<and> max_iterations default_settings = 3
   \<and> int (length (rounds_run (fst (run_research demo_lib default_settings demo_run_world
              ''topic X'' (Some 3))))) \<le> 3
   \<and> int (length (rounds_run (fst (run_research demo_lib default_settings demo_run_world
              ''topic X'' None)))) \<le> 3
   \<and> length (rounds_run (fst (run_research demo_lib default_settings demo_run_world
              ''topic X'' None))) = 3
   \<and> snd (research_round demo_lib default_settings demo_round_world 3 3 demo_state) = Break
   \<and> (\<exists>results synth decision.
          run_subagents demo_lib default_settings (task_worlds demo_round_world)
            (batch_clock demo_round_world) (sub_tasks demo_state) (current_query demo_state)
            = Inr results
        \<and> synthesize_results demo_lib (synthesis_response demo_round_world)
            (synthesis_clock demo_round_world) (current_query demo_state) results = Inr synth
        \<and> needs_more_research demo_lib (decision_response demo_round_world) synth 3 = Inr decision
        \<and> truthy (dict_get decision ''needs_more_research'' (JBool False)))
   \<and> snd (research_round demo_lib default_settings (demo_stop_round 2) 3 2 demo_state) = Break
   \<and> research_loop demo_lib default_settings demo_stop_round 3 [2, 3] demo_state
       = (fst (research_round demo_lib default_settings (demo_stop_round 2) 3 2 demo_state), None)
   \<and> rounds_run (fst (research_loop demo_lib default_settings demo_stop_round 3 [2, 3] demo_state))
       = [[]]
   \<and> length (rounds_run (fst (run_research demo_lib default_settings demo_stop_world
              ''topic X'' (Some 3)))) = 2
   \<and> (\<exists>sk. continued demo_lib default_settings demo_stop_round 3 [1..2 - 1]
               (initial_state (JList (fallback_tasks demo_lib (JStr ''topic X''))) (JStr ''topic X''))
             = Some sk
          \<and> research_round demo_lib default_settings (demo_stop_round 2) 3 2 sk
             = (fst (run_research demo_lib default_settings demo_stop_world ''topic X'' (Some 3)),
                Break))"
proof -
  let ?rr = "research_round demo_lib default_settings demo_round_world 3 3 demo_state"
  let ?rs = "research_round demo_lib default_settings (demo_stop_round 2) 3 2 demo_state"
  let ?run = "run_research demo_lib default_settings demo_stop_world ''topic X'' (Some 3)"
  let ?tasks = "JList (fallback_tasks demo_lib (JStr ''topic X''))"
  have m: "(1::int) \<le> 3" by simp
  have c: "max_iterations default_settings = 3" by (simp add: default_settings_def)
  have h: "?rr = (fst ?rr, snd ?rr)" by simp
  have hs: "?rs = (fst ?rs, snd ?rs)" by simp
  note t = iterations_bounded [OF m, where L = demo_lib and cfg = default_settings
      and W = demo_run_world and query = "''topic X''" and Wr = demo_round_world and i = 3
      and st = demo_state and st' = "fst ?rr" and out = "snd ?rr"]
  note u = iterations_bounded [OF m, where L = demo_lib and cfg = default_settings
      and W = demo_stop_world and query = "''topic X''" and marg = "Some 3"
      and tasks = ?tasks and n = 2
      and Wl = demo_stop_round and j = 2 and s = demo_state and s' = "fst ?rs"
      and out' = "snd ?rs" and rest = "[3]" and results = "[]"
      and synth = "[(''query'', JStr ''topic X''), (''synthesis_timestamp'', JStr ''t2'')]"
      and decision = "[(''current_iteration'', JInt 2)]"]
  from t h demo_round_outcomes(1) obtain results synth decision where
    e: "run_subagents demo_lib default_settings (task_worlds demo_round_world)
            (batch_clock demo_round_world) (sub_tasks demo_state) (current_query demo_state)
            = Inr results"
       "synthesize_results demo_lib (synthesis_response demo_round_world)
            (synthesis_clock demo_round_world) (current_query demo_state) results = Inr synth"
       "needs_more_research demo_lib (decision_response demo_round_world) synth 3 = Inr decision"
    by blast
  have "decision = AList.update ''current_iteration'' (JInt 3)
          [(''needs_more_research'', JBool True), (''specific_gaps'', JList [JStr ''gap''])]"
    using e(3)
    by (simp add: needs_more_research_def demo_round_world_def demo_lib_def demo_loads_def
        demo_texts demo_more_reply_def)
  then have tr: "truthy (dict_get decision ''needs_more_research'' (JBool False))"
    by (simp add: dict_get_def)
  have first: "int (length (rounds_run (fst (run_research demo_lib default_settings demo_run_world
              ''topic X'' (Some 3))))) \<le> 3"
    "int (length (rounds_run (fst (run_research demo_lib default_settings demo_run_world
              ''topic X'' None)))) \<le> 3"
    using t c by blast+
  have ex: "\<exists>results synth decision.
          run_subagents demo_lib default_settings (task_worlds demo_round_world)
            (batch_clock demo_round_world) (sub_tasks demo_state) (current_query demo_state)
            = Inr results
        \<and> synthesize_results demo_lib (synthesis_response demo_round_world)
            (synthesis_clock demo_round_world) (current_query demo_state) results = Inr synth
        \<and> needs_more_research demo_lib (decision_response demo_round_world) synth 3 = Inr decision
        \<and> truthy (dict_get decision ''needs_more_research'' (JBool False))"
    using e tr by blast
  from u hs demo_stop_round_2(5)
  have l1: "research_loop demo_lib default_settings demo_stop_round 3 [2, 3] demo_state
              = (fst ?rs, None)"
    by blast
  from u demo_stop_round_2(1-4) obtain s1 where
    l2: "research_loop demo_lib default_settings demo_stop_round 3 [2, 3] demo_state = (s1, None)"
        "rounds_run s1 = rounds_run demo_state @ [[]]"
    by blast
  have l3: "rounds_run (fst (research_loop demo_lib default_settings demo_stop_round 3 [2, 3]
              demo_state)) = [[]]"
    using l2 by (simp add: demo_state_def initial_state_def)
  have mg: "(case Some (3::int) of None \<Rightarrow> max_iterations default_settings | Some k \<Rightarrow> k) = 3"
    by simp
  from u mg demo_stop_decompose obtain k sk sl outl where
    k: "1 \<le> k" "k \<le> 3"
       "continued demo_lib default_settings (rounds demo_stop_world) 3 [1..k - 1]
          (initial_state ?tasks (JStr ''topic X'')) = Some sk"
       "research_round demo_lib default_settings (rounds demo_stop_world k) 3 k sk = (sl, outl)"
       "outl \<noteq> Continue" "fst ?run = sl"
       "outl = Break \<longrightarrow> int (length (rounds_run sl)) = k"
       "\<forall>e. outl = Raise e \<longrightarrow> snd ?run = Inl e"
    by blast
  have nr: "isl (snd ?run) = False" by code_simp
  have ob: "outl = Break" using k(5,8) nr by (cases outl) auto
  have k2: "k = 2" using k(7) ob k(6) demo_stop_run(1) by simp
  have rw: "rounds demo_stop_world = demo_stop_round"
    by (simp add: demo_stop_world_def)
  have l4: "\<exists>sk. continued demo_lib default_settings demo_stop_round 3 [1..2 - 1]
               (initial_state ?tasks (JStr ''topic X'')) = Some sk
          \<and> research_round demo_lib default_settings (demo_stop_round 2) 3 2 sk = (fst ?run, Break)"
    using k(3,4,6) ob k2 rw by auto
  from m c first demo_run_rounds(2) demo_round_outcomes(1) ex demo_stop_round_2(5) l1 l3
    demo_stop_run(1) l4
  show ?thesis by blast
qed

text \<open>
  C9. At the end of a run the accumulated results are the results of all the rounds that
  were run, in order. When the run returns a report, a synthesis was made in every round,
  and the report is the one the citation agent makes from the last synthesis and all the
  accumulated results. A round only appends: the accumulated results before it are a
  prefix of those after it, and a round whose sub-tasks ran appends exactly their results;
  the same holds over the whole loop. The synthesis a round leaves is the one
  \<open>synthesize_results\<close> returned in that round for that round's results and the current
  query; a round in which the synthesis or the sub-tasks raise leaves the synthesis of
  the round before. A run of rounds that all continued is a run of the loop, with one
  result list and one synthesis more for every round. A run that returns a report broke
  in some round \<open>k\<close> after the rounds \<open>1\<close> to \<open>k - 1\<close> continued: the report is the one the
  citation agent makes from the synthesis that \<open>synthesize_results\<close> returned in round
  \<open>k\<close> and from the results accumulated before round \<open>k\<close> followed by the results of
  round \<open>k\<close>.
\<close>

theorem results_accumulate:
  "(run_research L cfg W query marg = (st, outcome) \<longrightarrow>
      all_results st = concat (rounds_run st)
    \<and> (\<forall>report. outcome = Inr report \<longrightarrow>
          syntheses st \<noteq> [] \<and> length (syntheses st) = length (rounds_run st)
        \<and> outcome = process_report L (citation_reply W) (report_clock W)
                       (last (syntheses st)) (concat (rounds_run st))))
   \<and> (research_round L cfg Wr m i s = (s', out) \<longrightarrow>
        prefix (all_results s) (all_results s') \<and> prefix (rounds_run s) (rounds_run s')
      \<and> prefix (syntheses s) (syntheses s')
      \<and> (\<forall>results.
            run_subagents L cfg (task_worlds Wr) (batch_clock Wr) (sub_tasks s) (current_query s)
              = Inr results \<longrightarrow>
            all_results s' = all_results s @ results \<and> rounds_run s' = rounds_run s @ [results])
      \<and> (\<forall>results synth.
            run_subagents L cfg (task_worlds Wr) (batch_clock Wr) (sub_tasks s) (current_query s)
              = Inr results
          \<and> synthesize_results L (synthesis_response Wr) (synthesis_clock Wr) (current_query s)
              results = Inr synth
          \<longrightarrow> synthesis s' = Some synth \<and> syntheses s' = syntheses s @ [synth])
      \<and> (\<forall>results e.
            run_subagents L cfg (task_worlds Wr) (batch_clock Wr) (sub_tasks s) (current_query s)
              = Inr results
          \<and> synthesize_results L (synthesis_response Wr) (synthesis_clock Wr) (current_query s)
              results = Inl e
          \<longrightarrow> out = Raise e \<and> synthesis s' = synthesis s \<and> syntheses s' = syntheses s)
      \<and> (\<forall>e. run_subagents L cfg (task_worlds Wr) (batch_clock Wr) (sub_tasks s) (current_query s)
              = Inl e
          \<longrightarrow> out = Raise e \<and> same_record s s'))
   \<and> (research_loop L cfg Wl m its s = (s', r) \<longrightarrow>
        prefix (all_results s) (all_results s') \<and> prefix (rounds_run s) (rounds_run s'))
   \<and> (continued L cfg Wl m its s = Some s' \<longrightarrow>
        research_loop L cfg Wl m its s = (s', None)
      \<and> length (rounds_run s') = length (rounds_run s) + length its
      \<and> length (syntheses s') = length (syntheses s) + length its)
   \<and> (run_research L cfg W query marg = (st, Inr report) \<longrightarrow>
        (\<exists>tasks k sk results synth.
            decompose_tasks L (decompose_response W) (JStr query) = Inr tasks
          \<and> 1 \<le> k \<and> k \<le> (case marg of None \<Rightarrow> max_iterations cfg | Some k \<Rightarrow> k)
          \<and> continued L cfg (rounds W) (case marg of None \<Rightarrow> max_iterations cfg | Some k \<Rightarrow> k)
               [1..k - 1] (initial_state tasks (JStr query)) = Some sk
          \<and> research_round L cfg (rounds W k)
               (case marg of None \<Rightarrow> max_iterations cfg | Some k \<Rightarrow> k) k sk = (st, Break)
          \<and> run_subagents L cfg (task_worlds (rounds W k)) (batch_clock (rounds W k))
               (sub_tasks sk) (current_query sk) = Inr results
          \<and> synthesize_results L (synthesis_response (rounds W k)) (synthesis_clock (rounds W k))
               (current_query sk) results = Inr synth
          \<and> all_results st = all_results sk @ results
          \<and> synthesis st = Some synth \<and> last (syntheses st) = synth
          \<and> process_report L (citation_reply W) (report_clock W) synth (all_results sk @ results)
               = Inr report))"
proof (intro conjI impI)
  assume a: "run_research L cfg W query marg = (st, outcome)"
  from run_research_loop [OF a] show "all_results st = concat (rounds_run st)"
    by (simp add: consistent_def)
  from run_research_loop [OF a] show "\<forall>report. outcome = Inr report \<longrightarrow>
          syntheses st \<noteq> [] \<and> length (syntheses st) = length (rounds_run st)
        \<and> outcome = process_report L (citation_reply W) (report_clock W)
                       (last (syntheses st)) (concat (rounds_run st))"
    by blast
next
  assume rr: "research_round L cfg Wr m i s = (s', out)"
  from research_round_summary [OF rr]
  show "prefix (all_results s) (all_results s')" "prefix (rounds_run s) (rounds_run s')"
    "prefix (syntheses s) (syntheses s')"
    by auto
  from rr show "\<forall>results.
            run_subagents L cfg (task_worlds Wr) (batch_clock Wr) (sub_tasks s) (current_query s)
              = Inr results \<longrightarrow>
            all_results s' = all_results s @ results \<and> rounds_run s' = rounds_run s @ [results]"
    by (cases rule: research_round_cases) auto
  from research_round_synthesis(1) [OF rr]
  show "\<forall>results synth.
            run_subagents L cfg (task_worlds Wr) (batch_clock Wr) (sub_tasks s) (current_query s)
              = Inr results
          \<and> synthesize_results L (synthesis_response Wr) (synthesis_clock Wr) (current_query s)
              results = Inr synth
          \<longrightarrow> synthesis s' = Some synth \<and> syntheses s' = syntheses s @ [synth]" .
  from research_round_synthesis(2) [OF rr]
  show "\<forall>results e.
            run_subagents L cfg (task_worlds Wr) (batch_clock Wr) (sub_tasks s) (current_query s)
              = Inr results
          \<and> synthesize_results L (synthesis_response Wr) (synthesis_clock Wr) (current_query s)
              results = Inl e
          \<longrightarrow> out = Raise e \<and> synthesis s' = synthesis s \<and> syntheses s' = syntheses s" .
  from research_round_synthesis(3) [OF rr]
  show "\<forall>e. run_subagents L cfg (task_worlds Wr) (batch_clock Wr) (sub_tasks s) (current_query s)
              = Inl e
          \<longrightarrow> out = Raise e \<and> same_record s s'" .
next
  assume l: "research_loop L cfg Wl m its s = (s', r)"
  from research_loop_grows [OF l]
  show "prefix (all_results s) (all_results s')" "prefix (rounds_run s) (rounds_run s')"
    by simp_all
next
  assume c: "continued L cfg Wl m its s = Some s'"
  from continued_loop [OF c, of "[]"]
  show "research_loop L cfg Wl m its s = (s', None)" by simp
  from continued_grows [OF c]
  show "length (rounds_run s') = length (rounds_run s) + length its"
    "length (syntheses s') = length (syntheses s) + length its"
    by simp_all
next
  assume a: "run_research L cfg W query marg = (st, Inr report)"
  then show "\<exists>tasks k sk results synth.
            decompose_tasks L (decompose_response W) (JStr query) = Inr tasks
          \<and> 1 \<le> k \<and> k \<le> (case marg of None \<Rightarrow> max_iterations cfg | Some k \<Rightarrow> k)
          \<and> continued L cfg (rounds W) (case marg of None \<Rightarrow> max_iterations cfg | Some k \<Rightarrow> k)
               [1..k - 1] (initial_state tasks (JStr query)) = Some sk
          \<and> research_round L cfg (rounds W k)
               (case marg of None \<Rightarrow> max_iterations cfg | Some k \<Rightarrow> k) k sk = (st, Break)
          \<and> run_subagents L cfg (task_worlds (rounds W k)) (batch_clock (rounds W k))
               (sub_tasks sk) (current_query sk) = Inr results
          \<and> synthesize_results L (synthesis_response (rounds W k)) (synthesis_clock (rounds W k))
               (current_query sk) results = Inr synth
          \<and> all_results st = all_results sk @ results
          \<and> synthesis st = Some synth \<and> last (syntheses st) = synth
          \<and> process_report L (citation_reply W) (report_clock W) synth (all_results sk @ results)
               = Inr report"
    by (rule run_research_report)
qed

text \<open>
  The run that stops after two rounds: the three accumulated results are those of the
  two rounds, the two syntheses differ (the first has eleven fields, the second two), and
  the report is made from the second synthesis and all three results. The second round
  starts with two accumulated results and keeps them.
\<close>

lemma demo_stop_report:
  "length (all_results (fst (run_research demo_lib default_settings demo_stop_world ''topic X'' None))) = 3"
  "last (syntheses (fst (run_research demo_lib default_settings demo_stop_world ''topic X'' None)))
     = demo_last_synthesis"
  "map length (syntheses (fst (run_research demo_lib default_settings demo_stop_world ''topic X'' None)))
     = [11, 2]"
  "map_of (projr (snd (run_research demo_lib default_settings demo_stop_world ''topic X'' None)))
     ''original_synthesis'' = Some (JObj demo_last_synthesis)"
  by code_simp+

lemma demo_second_round:
  "length (all_results demo_after_one) = 2"
  "length (all_results
     (fst (research_round demo_lib default_settings (demo_stop_round 2) 3 2 demo_after_one))) = 3"
  "isl (run_subagents demo_lib default_settings (task_worlds (demo_stop_round 2))
          (batch_clock (demo_stop_round 2)) (sub_tasks demo_after_one) (current_query demo_after_one))
     = False"
  "synthesize_results demo_lib (synthesis_response (demo_stop_round 2))
     (synthesis_clock (demo_stop_round 2)) (current_query demo_after_one)
     (projr (run_subagents demo_lib default_settings (task_worlds (demo_stop_round 2))
          (batch_clock (demo_stop_round 2)) (sub_tasks demo_after_one) (current_query demo_after_one)))
     = Inr demo_last_synthesis"
  "Option.is_none (continued demo_lib default_settings demo_stop_round 3 [1] demo_stop_start) = False"
  by code_simp+

theorem results_accumulate_witness:
  "all_results (fst (run_research demo_lib default_settings demo_stop_world ''topic X'' None))
     = concat (rounds_run (fst (run_research demo_lib default_settings demo_stop_world ''topic X'' None)))
   \<and> map length (rounds_run (fst (run_research demo_lib default_settings demo_stop_world ''topic X'' None)))
       = [2, 1]
   \<and> length (all_results (fst (run_research demo_lib default_settings demo_stop_world ''topic X'' None))) = 3
   \<and> map length (syntheses (fst (run_research demo_lib default_settings demo_stop_world ''topic X'' None)))
       = [11, 2]
   \<and> last (syntheses (fst (run_research demo_lib default_settings demo_stop_world ''topic X'' None)))
       = demo_last_synthesis
   \<and> snd (run_research demo_lib default_settings demo_stop_world ''topic X'' None)
       = process_report demo_lib (citation_reply demo_stop_world) (report_clock demo_stop_world)
           demo_last_synthesis
           (concat (rounds_run (fst (run_research demo_lib default_settings demo_stop_world ''topic X'' None))))
   \<and> (\<exists>report. snd (run_research demo_lib default_settings demo_stop_world ''topic X'' None) = Inr report
         \<and> map_of report ''original_synthesis'' = Some (JObj demo_last_synthesis))
   \<and> (\<exists>k sk results.
          1 \<le> k \<and> k \<le> 3
        \<and> continued demo_lib default_settings demo_stop_round 3 [1..k - 1] demo_stop_start = Some sk
        \<and> research_round demo_lib default_settings (demo_stop_round k) 3 k sk
            = (fst (run_research demo_lib default_settings demo_stop_world ''topic X'' None), Break)
        \<and> run_subagents demo_lib default_settings (task_worlds (demo_stop_round k))
            (batch_clock (demo_stop_round k)) (sub_tasks sk) (current_query sk) = Inr results
        \<and> synthesize_results demo_lib (synthesis_response (demo_stop_round k))
            (synthesis_clock (demo_stop_round k)) (current_query sk) results = Inr demo_last_synthesis
        \<and> all_results (fst (run_research demo_lib default_settings demo_stop_world ''topic X'' None))
            = all_results sk @ results
        \<and> process_report demo_lib (citation_reply demo_stop_world) (report_clock demo_stop_world)
            demo_last_synthesis (all_results sk @ results)
            = snd (run_research demo_lib default_settings demo_stop_world ''topic X'' None))
   \<and> length (all_results demo_after_one) = 2
   \<and> prefix (all_results demo_after_one)
        (all_results (fst (research_round demo_lib default_settings (demo_stop_round 2) 3 2
           demo_after_one)))
   \<and> length (all_results (fst (research_round demo_lib default_settings (demo_stop_round 2) 3 2
        demo_after_one))) = 3
   \<and> synthesis (fst (research_round demo_lib default_settings (demo_stop_round 2) 3 2 demo_after_one))
       = Some demo_last_synthesis
   \<and> syntheses (fst (research_round demo_lib default_settings (demo_stop_round 2) 3 2 demo_after_one))
       = syntheses demo_after_one @ [demo_last_synthesis]
   \<and> prefix (all_results demo_after_one)
        (all_results (fst (research_loop demo_lib default_settings demo_stop_round 3 [2, 3]
           demo_after_one)))
   \<and> (\<exists>s1. continued demo_lib default_settings demo_stop_round 3 [1] demo_stop_start = Some s1
         \<and> research_loop demo_lib default_settings demo_stop_round 3 [1] demo_stop_start = (s1, None)
         \<and> length (rounds_run s1) = 1)"
proof -
  let ?run = "run_research demo_lib default_settings demo_stop_world ''topic X'' None"
  let ?r2 = "research_round demo_lib default_settings (demo_stop_round 2) 3 2 demo_after_one"
  let ?rl = "research_loop demo_lib default_settings demo_stop_round 3 [2, 3] demo_after_one"
  let ?c1 = "continued demo_lib default_settings demo_stop_round 3 [1] demo_stop_start"
  let ?res = "projr (run_subagents demo_lib default_settings (task_worlds (demo_stop_round 2))
          (batch_clock (demo_stop_round 2)) (sub_tasks demo_after_one) (current_query demo_after_one))"
  have h1: "?run = (fst ?run, snd ?run)" by simp
  have h2: "?r2 = (fst ?r2, snd ?r2)" by simp
  have h3: "?rl = (fst ?rl, snd ?rl)" by simp
  have rep: "snd ?run = Inr (projr (snd ?run))"
    using demo_stop_run(3) by (cases "snd ?run") simp_all
  have h4: "?run = (fst ?run, Inr (projr (snd ?run)))"
    using rep by (metis h1)
  have rs: "run_subagents demo_lib default_settings (task_worlds (demo_stop_round 2))
          (batch_clock (demo_stop_round 2)) (sub_tasks demo_after_one) (current_query demo_after_one)
          = Inr ?res"
    using demo_second_round(3)
    by (cases "run_subagents demo_lib default_settings (task_worlds (demo_stop_round 2))
          (batch_clock (demo_stop_round 2)) (sub_tasks demo_after_one) (current_query demo_after_one)")
      simp_all
  have c1: "?c1 = Some (the ?c1)"
    using demo_second_round(5) by (cases ?c1) simp_all
  note t = results_accumulate [where L = demo_lib and cfg = default_settings
      and W = demo_stop_world and query = "''topic X''" and marg = None
      and st = "fst ?run" and outcome = "snd ?run" and report = "projr (snd ?run)"
      and Wr = "demo_stop_round 2" and m = 3 and i = 2 and s = demo_after_one and s' = "fst ?r2"
      and out = "snd ?r2"]
  note u = results_accumulate [where L = demo_lib and cfg = default_settings
      and Wl = demo_stop_round and m = 3 and its = "[2, 3]" and s = demo_after_one
      and s' = "fst ?rl" and r = "snd ?rl"]
  note v = results_accumulate [where L = demo_lib and cfg = default_settings
      and Wl = demo_stop_round and m = 3 and its = "[1]" and s = demo_stop_start
      and s' = "the ?c1"]
  from t h1 rep have w1: "all_results (fst ?run) = concat (rounds_run (fst ?run))"
    and w2: "snd ?run = process_report demo_lib (citation_reply demo_stop_world)
               (report_clock demo_stop_world) (last (syntheses (fst ?run)))
               (concat (rounds_run (fst ?run)))"
    by blast+
  have w3: "\<exists>report. snd ?run = Inr report
              \<and> map_of report ''original_synthesis'' = Some (JObj demo_last_synthesis)"
    using rep demo_stop_report(4) by blast
  from t h4 obtain tasks k sk results synth where
    k: "decompose_tasks demo_lib (decompose_response demo_stop_world) (JStr ''topic X'') = Inr tasks"
       "1 \<le> k" "k \<le> (case None of None \<Rightarrow> max_iterations default_settings | Some k \<Rightarrow> k)"
       "continued demo_lib default_settings (rounds demo_stop_world)
          (case None of None \<Rightarrow> max_iterations default_settings | Some k \<Rightarrow> k)
          [1..k - 1] (initial_state tasks (JStr ''topic X'')) = Some sk"
       "research_round demo_lib default_settings (rounds demo_stop_world k)
          (case None of None \<Rightarrow> max_iterations default_settings | Some k \<Rightarrow> k) k sk
          = (fst ?run, Break)"
       "run_subagents demo_lib default_settings (task_worlds (rounds demo_stop_world k))
          (batch_clock (rounds demo_stop_world k)) (sub_tasks sk) (current_query sk) = Inr results"
       "synthesize_results demo_lib (synthesis_response (rounds demo_stop_world k))
          (synthesis_clock (rounds demo_stop_world k)) (current_query sk) results = Inr synth"
       "all_results (fst ?run) = all_results sk @ results"
       "last (syntheses (fst ?run)) = synth"
       "process_report demo_lib (citation_reply demo_stop_world) (report_clock demo_stop_world)
          synth (all_results sk @ results) = Inr (projr (snd ?run))"
    by blast
  have tk: "tasks = JList (fallback_tasks demo_lib (JStr ''topic X''))"
    using k(1) demo_stop_decompose(1) by simp
  have rw: "rounds demo_stop_world = demo_stop_round"
    by (simp add: demo_stop_world_def)
  have mx: "(case None of None \<Rightarrow> max_iterations default_settings | Some k \<Rightarrow> k) = 3"
    by (simp add: default_settings_def)
  have sy: "synth = demo_last_synthesis"
    using k(9) demo_stop_report(2) by simp
  have w4: "\<exists>k sk results.
          1 \<le> k \<and> k \<le> 3
        \<and> continued demo_lib default_settings demo_stop_round 3 [1..k - 1] demo_stop_start = Some sk
        \<and> research_round demo_lib default_settings (demo_stop_round k) 3 k sk = (fst ?run, Break)
        \<and> run_subagents demo_lib default_settings (task_worlds (demo_stop_round k))
            (batch_clock (demo_stop_round k)) (sub_tasks sk) (current_query sk) = Inr results
        \<and> synthesize_results demo_lib (synthesis_response (demo_stop_round k))
            (synthesis_clock (demo_stop_round k)) (current_query sk) results = Inr demo_last_synthesis
        \<and> all_results (fst ?run) = all_results sk @ results
        \<and> process_report demo_lib (citation_reply demo_stop_world) (report_clock demo_stop_world)
            demo_last_synthesis (all_results sk @ results) = snd ?run"
    using k(2-8) k(10) tk rw mx sy rep
    by (intro exI [of _ k] exI [of _ sk] exI [of _ results]) (simp add: demo_stop_start_def)
  from t h2 have w5: "prefix (all_results demo_after_one) (all_results (fst ?r2))"
    by blast
  from t h2 rs demo_second_round(4)
  have w6: "synthesis (fst ?r2) = Some demo_last_synthesis
          \<and> syntheses (fst ?r2) = syntheses demo_after_one @ [demo_last_synthesis]"
    by blast
  from u h3 have w7: "prefix (all_results demo_after_one) (all_results (fst ?rl))"
    by blast
  from v c1 have w8: "research_loop demo_lib default_settings demo_stop_round 3 [1] demo_stop_start
                        = (the ?c1, None)"
    "length (rounds_run (the ?c1)) = length (rounds_run demo_stop_start) + length [1::int]"
    by blast+
  have w9: "\<exists>s1. ?c1 = Some s1
         \<and> research_loop demo_lib default_settings demo_stop_round 3 [1] demo_stop_start = (s1, None)
         \<and> length (rounds_run s1) = 1"
    using c1 w8 by (intro exI [of _ "the ?c1"]) (simp add: demo_stop_start_def initial_state_def)
  from w2 demo_stop_report(2)
  have w2': "snd ?run = process_report demo_lib (citation_reply demo_stop_world)
               (report_clock demo_stop_world) demo_last_synthesis (concat (rounds_run (fst ?run)))"
    by simp
  from w1 demo_stop_run(2) demo_stop_report(1,3,2) w2' w3 w4 demo_second_round(1) w5
    demo_second_round(2) w6 w7 w9
  show ?thesis by blast
qed

subsection \<open>The continuation fallback\<close>

text \<open>
  C7 (as amended). When the reply to the continuation question does not decode,
  \<open>needs_more_research\<close> returns, without raising, a decision whose \<open>needs_more_research\<close>
  field is the truth value of the numeric comparison \<open>iteration < 3\<close>, with empty
  \<open>specific_gaps\<close> and \<open>refined_queries\<close> lists. The bound is the literal 3 of the source,
  which is the default of the setting \<open>max_iterations\<close>; the function reads no setting.
\<close>

theorem needs_more_research_fallback:
  assumes "json_loads L response = None"
  shows "\<exists>d. needs_more_research L response synth iteration = Inr d
           \<and> map_of d ''needs_more_research'' = Some (JBool (iteration < 3))
           \<and> map_of d ''specific_gaps'' = Some (JList [])
           \<and> map_of d ''refined_queries'' = Some (JList [])
           \<and> map_of d ''current_iteration'' = Some (JInt iteration)"
  using assms by (simp add: needs_more_research_def)

theorem needs_more_research_fallback_witness:
  "json_loads demo_lib ''not json'' = None
   \<and> (\<exists>d. needs_more_research demo_lib ''not json'' [] 2 = Inr d
           \<and> map_of d ''needs_more_research'' = Some (JBool True)
           \<and> map_of d ''specific_gaps'' = Some (JList [])
           \<and> map_of d ''refined_queries'' = Some (JList [])
           \<and> map_of d ''current_iteration'' = Some (JInt 2))"
proof -
  have h: "json_loads demo_lib ''not json'' = None"
    by (rule demo_loads_not_json)
  show ?thesis
    using h needs_more_research_fallback [OF h, of "[]" 2] by simp
qed

text \<open>
  The claim as written compares with the configured \<open>max_iterations\<close>. With the setting
  raised to 5, iteration 3 is below the configured bound, and the fallback still answers
  that no more research is needed.
\<close>

theorem needs_more_research_fallback_counterexample:
  "json_loads demo_lib ''not json'' = None
   \<and> 3 < max_iterations (default_settings\<lparr>max_iterations := 5\<rparr>)
   \<and> (\<exists>d. needs_more_research demo_lib ''not json'' [] 3 = Inr d
           \<and> map_of d ''needs_more_research'' = Some (JBool False))"
  by (simp add: demo_loads_not_json needs_more_research_def default_settings_def)

end
